theory Spec2Isabelle
  imports Main "HOL-Library.Word"
begin

section \<open>The sorted reorder queue (include/osmium/thread/sorted_queue.hpp)\<close>

text \<open>
  \<^verbatim>\<open>SortedQueue<T>\<close> holds a \<^verbatim>\<open>std::deque<T> m_queue\<close> and a \<^verbatim>\<open>size_type m_offset\<close>.
  The deque is a list whose head is \<^verbatim>\<open>front()\<close>. \<^verbatim>\<open>size_type\<close> is an unsigned 64-bit
  integer: it is a \<open>nat\<close> below \<open>size_type_modulus\<close>, and the wrap-around of
  \<^verbatim>\<open>num -= m_offset\<close>, \<^verbatim>\<open>num + 1\<close>, \<^verbatim>\<open>num + 2\<close> and \<^verbatim>\<open>++m_offset\<close> is written out.
  The default-constructed value \<^verbatim>\<open>T()\<close> is the first argument \<open>dflt\<close> of every
  operation. Each member function holds the mutex for its whole body, so each one is
  one atomic step on the state.
\<close>

record 'a sorted_queue =
  m_queue :: "'a list"
  m_offset :: nat

text \<open>
  Undefined behaviour of the deque (\<^verbatim>\<open>front()\<close> of an empty deque, \<^verbatim>\<open>operator[]\<close> out
  of range) is an error value. \<open>Blocked\<close> is \<^verbatim>\<open>wait_and_pop\<close> in a state where its
  wait predicate is false: the call does not return there.
\<close>

datatype sq_error = FrontOfEmptyDeque | IndexOutOfRange | Blocked

definition size_type_modulus :: nat where
  "size_type_modulus = 2 ^ 64"

text \<open>\<^verbatim>\<open>std::deque::resize(k)\<close>: truncate, or append default-constructed elements.\<close>

definition resize :: "'a \<Rightarrow> nat \<Rightarrow> 'a list \<Rightarrow> 'a list" where
  "resize dflt k q = (if k \<le> length q then take k q else q @ replicate (k - length q) dflt)"

definition empty_intern :: "'a \<Rightarrow> 'a sorted_queue \<Rightarrow> sq_error + bool" where
  "empty_intern dflt s =
     (case m_queue s of
        [] \<Rightarrow> Inl FrontOfEmptyDeque
      | x # _ \<Rightarrow> Inr (x = dflt))"

text \<open>The constructor: \<^verbatim>\<open>m_queue(1)\<close> is a deque of one default-constructed element.\<close>

definition SortedQueue :: "'a \<Rightarrow> 'a sorted_queue" where
  "SortedQueue dflt = \<lparr>m_queue = [dflt], m_offset = 0\<rparr>"

definition push :: "'a \<Rightarrow> 'a \<Rightarrow> nat \<Rightarrow> 'a sorted_queue \<Rightarrow> sq_error + 'a sorted_queue" where
  "push dflt val num s =
     (let num = (num + size_type_modulus - m_offset s) mod size_type_modulus;
          q = (if length (m_queue s) \<le> (num + 1) mod size_type_modulus
               then resize dflt ((num + 2) mod size_type_modulus) (m_queue s)
               else m_queue s)
      in if num < length q
         then Inr (s\<lparr>m_queue := q[num := val]\<rparr>)
         else Inl IndexOutOfRange)"

text \<open>
  \<^verbatim>\<open>value = std::move(m_queue.front()); m_queue.pop_front(); ++m_offset;\<close>, the tail
  shared by \<^verbatim>\<open>wait_and_pop\<close> and \<^verbatim>\<open>try_pop\<close>.
\<close>

definition pop_front :: "'a sorted_queue \<Rightarrow> 'a \<times> 'a sorted_queue" where
  "pop_front s =
     (hd (m_queue s),
      s\<lparr>m_queue := tl (m_queue s), m_offset := (m_offset s + 1) mod size_type_modulus\<rparr>)"

definition wait_and_pop :: "'a \<Rightarrow> 'a sorted_queue \<Rightarrow> sq_error + ('a \<times> 'a sorted_queue)" where
  "wait_and_pop dflt s =
     (case empty_intern dflt s of
        Inl e \<Rightarrow> Inl e
      | Inr True \<Rightarrow> Inl Blocked
      | Inr False \<Rightarrow> Inr (pop_front s))"

text \<open>\<^verbatim>\<open>try_pop\<close> returns \<open>None\<close> for \<^verbatim>\<open>false\<close> and \<open>Some value\<close> for \<^verbatim>\<open>true\<close>.\<close>

definition try_pop :: "'a \<Rightarrow> 'a sorted_queue \<Rightarrow> sq_error + ('a option \<times> 'a sorted_queue)" where
  "try_pop dflt s =
     (case empty_intern dflt s of
        Inl e \<Rightarrow> Inl e
      | Inr True \<Rightarrow> Inr (None, s)
      | Inr False \<Rightarrow> (case pop_front s of (v, s') \<Rightarrow> Inr (Some v, s')))"

definition empty_q :: "'a \<Rightarrow> 'a sorted_queue \<Rightarrow> sq_error + bool" where
  "empty_q dflt s = empty_intern dflt s"

definition size_q :: "'a sorted_queue \<Rightarrow> nat" where
  "size_q s = length (m_queue s)"

subsection \<open>Interleavings of calls\<close>

text \<open>
  A history of the queue is the list of calls in the order in which they take the
  mutex; \<open>WaitAndPop\<close> stands at the point where its wait ends. A configuration is the
  queue together with the values handed out so far, oldest first.
\<close>

datatype 'a sq_op = Push 'a nat | TryPop | WaitAndPop

fun sq_step :: "'a \<Rightarrow> 'a sq_op \<Rightarrow> 'a sorted_queue \<times> 'a list \<Rightarrow> sq_error + ('a sorted_queue \<times> 'a list)" where
  "sq_step dflt (Push v n) (s, out) =
     (case push dflt v n s of Inl e \<Rightarrow> Inl e | Inr s' \<Rightarrow> Inr (s', out))"
| "sq_step dflt TryPop (s, out) =
     (case try_pop dflt s of
        Inl e \<Rightarrow> Inl e
      | Inr (None, s') \<Rightarrow> Inr (s', out)
      | Inr (Some v, s') \<Rightarrow> Inr (s', out @ [v]))"
| "sq_step dflt WaitAndPop (s, out) =
     (case wait_and_pop dflt s of Inl e \<Rightarrow> Inl e | Inr (v, s') \<Rightarrow> Inr (s', out @ [v]))"

fun sq_run :: "'a \<Rightarrow> 'a sq_op list \<Rightarrow> 'a sorted_queue \<times> 'a list \<Rightarrow> sq_error + ('a sorted_queue \<times> 'a list)" where
  "sq_run dflt [] c = Inr c"
| "sq_run dflt (x # xs) c =
     (case sq_step dflt x c of Inl e \<Rightarrow> Inl e | Inr c' \<Rightarrow> sq_run dflt xs c')"

text \<open>The pushes of a history, as pairs of sequence number and value.\<close>

fun pushes :: "'a sq_op list \<Rightarrow> (nat \<times> 'a) list" where
  "pushes [] = []"
| "pushes (Push v n # xs) = (n, v) # pushes xs"
| "pushes (TryPop # xs) = pushes xs"
| "pushes (WaitAndPop # xs) = pushes xs"

text \<open>
  The producers' discipline: every sequence number is handed out once, it leaves room
  for the two slots \<^verbatim>\<open>push\<close> adds (\<open>n + 2\<close> is a \<^verbatim>\<open>size_type\<close>), and no pushed value equals
  \<^verbatim>\<open>T()\<close>.
\<close>

definition producers_ok :: "'a \<Rightarrow> 'a sq_op list \<Rightarrow> bool" where
  "producers_ok dflt xs =
     (distinct (map fst (pushes xs)) \<and>
      list_all (\<lambda>(n, v). v \<noteq> dflt \<and> n + 2 < size_type_modulus) (pushes xs))"

text \<open>The value pushed with a sequence number, if that number has been pushed.\<close>

definition pushed_value :: "'a sq_op list \<Rightarrow> nat \<Rightarrow> 'a option" where
  "pushed_value xs = map_of (pushes xs)"

text \<open>
  The invariant of the queue, relative to the map \<open>P\<close> from the sequence numbers pushed
  so far to their values: the deque is not empty, \<^verbatim>\<open>m_offset\<close> counts the values handed out,
  slot \<open>j\<close> holds the value of number \<open>m_offset + j\<close> or \<^verbatim>\<open>T()\<close>, every pushed number lies
  below the last slot, and the values handed out are those of the numbers below
  \<^verbatim>\<open>m_offset\<close>, in order.
\<close>

definition sq_inv :: "'a \<Rightarrow> (nat \<rightharpoonup> 'a) \<Rightarrow> 'a sorted_queue \<Rightarrow> 'a list \<Rightarrow> bool" where
  "sq_inv dflt P s out =
     (m_queue s \<noteq> [] \<and> m_offset s = length out \<and>
      (\<forall>j < length (m_queue s).
         m_queue s ! j = (case P (m_offset s + j) of None \<Rightarrow> dflt | Some v \<Rightarrow> v)) \<and>
      (\<forall>n v. P n = Some v \<longrightarrow>
         v \<noteq> dflt \<and> n + 2 < size_type_modulus \<and> n + 1 < m_offset s + length (m_queue s)) \<and>
      (\<forall>i < length out. P i = Some (out ! i)))"

section \<open>The PBF decoder (include/osmium/io/pbf_input.hpp)\<close>

subsection \<open>Errors and machine arithmetic\<close>

text \<open>
  Every \<^verbatim>\<open>throw std::runtime_error(msg)\<close> is \<open>runtime_error msg\<close>. The undefined behaviour
  the decoder can run into is an error as well: reading a protobuf repeated field
  beyond its size, and overflow of signed 64-bit arithmetic. \<open>AssertionFailed\<close> is a
  failing \<^verbatim>\<open>assert\<close>, \<open>bad_alloc\<close> an allocation that cannot succeed, and \<open>DequeMisuse\<close>
  undefined behaviour inside the sorted queue.
\<close>

datatype pbf_error =
    runtime_error string
  | RepeatedFieldOutOfRange
  | SignedOverflow
  | AssertionFailed
  | bad_alloc
  | DequeMisuse sq_error

definition err_bind :: "'e + 'a \<Rightarrow> ('a \<Rightarrow> 'e + 'b) \<Rightarrow> 'e + 'b" where
  "err_bind m f = (case m of Inl e \<Rightarrow> Inl e | Inr x \<Rightarrow> f x)"

text \<open>A \<^verbatim>\<open>for\<close> loop over a range or a list; a throw in the body leaves the loop.\<close>

fun fold_err :: "('a \<Rightarrow> 's \<Rightarrow> 'e + 's) \<Rightarrow> 'a list \<Rightarrow> 's \<Rightarrow> 'e + 's" where
  "fold_err f [] s = Inr s"
| "fold_err f (x # xs) s = (case f x s of Inl e \<Rightarrow> Inl e | Inr s' \<Rightarrow> fold_err f xs s')"

definition int64_ok :: "int \<Rightarrow> bool" where
  "int64_ok x = (- (2 ^ 63) \<le> x \<and> x < 2 ^ 63)"

definition add64 :: "int \<Rightarrow> int \<Rightarrow> pbf_error + int" where
  "add64 a b = (if int64_ok (a + b) then Inr (a + b) else Inl SignedOverflow)"

definition mul64 :: "int \<Rightarrow> int \<Rightarrow> pbf_error + int" where
  "mul64 a b = (if int64_ok (a * b) then Inr (a * b) else Inl SignedOverflow)"

text \<open>The \<^verbatim>\<open>/\<close> of C++ on integers truncates towards zero.\<close>

definition cdiv :: "int \<Rightarrow> int \<Rightarrow> int" where
  "cdiv a b = sgn a * sgn b * (\<bar>a\<bar> div \<bar>b\<bar>)"

text \<open>Conversion of an integer to \<^verbatim>\<open>int\<close> (32 bits), two's complement.\<close>

definition to_int32 :: "int \<Rightarrow> int" where
  "to_int32 x = sint (word_of_int x :: 32 word)"

text \<open>\<^verbatim>\<open>field(i)\<close> on a protobuf repeated field, with an \<^verbatim>\<open>int\<close> index.\<close>

definition repeated :: "'a list \<Rightarrow> int \<Rightarrow> pbf_error + 'a" where
  "repeated xs i =
     (if 0 \<le> i \<and> i < int (length xs) then Inr (xs ! nat i) else Inl RepeatedFieldOutOfRange)"

text \<open>
  \<^verbatim>\<open>m_stringtable->s(i).data()\<close>: the index is converted to \<^verbatim>\<open>int\<close>, and the builders read
  the result as a C string, up to its first NUL.
\<close>

definition c_str :: "string \<Rightarrow> string" where
  "c_str s = takeWhile (\<lambda>c. c \<noteq> CHR 0x00) s"

definition stringtable_s :: "string list \<Rightarrow> int \<Rightarrow> pbf_error + string" where
  "stringtable_s st i = err_bind (repeated st (to_int32 i)) (\<lambda>s. Inr (c_str s))"

subsection \<open>The protobuf messages\<close>

text \<open>
  The messages of \<^verbatim>\<open>OSMPBF\<close>, with the fields the decoder reads. An optional field or
  sub-message is an \<open>option\<close> (\<^verbatim>\<open>has_x()\<close> is \<open>x \<noteq> None\<close>), a repeated field a list.
\<close>

record Info =
  info_version :: int
  info_timestamp :: int
  info_changeset :: int
  info_uid :: int
  info_user_sid :: int
  info_visible :: "bool option"

record pbf_Node =
  node_id :: int
  node_keys :: "int list"
  node_vals :: "int list"
  node_info :: "Info option"
  node_lat :: int
  node_lon :: int

record pbf_Way =
  way_id :: int
  way_keys :: "int list"
  way_vals :: "int list"
  way_info :: "Info option"
  way_refs :: "int list"

datatype MemberType = NODE | WAY | RELATION

record pbf_Relation =
  relation_id :: int
  relation_keys :: "int list"
  relation_vals :: "int list"
  relation_info :: "Info option"
  relation_roles_sid :: "int list"
  relation_memids :: "int list"
  relation_types :: "MemberType list"

record DenseInfo =
  denseinfo_version :: "int list"
  denseinfo_timestamp :: "int list"
  denseinfo_changeset :: "int list"
  denseinfo_uid :: "int list"
  denseinfo_user_sid :: "int list"
  denseinfo_visible :: "bool list"

record DenseNodes =
  dense_id :: "int list"
  dense_denseinfo :: "DenseInfo option"
  dense_lat :: "int list"
  dense_lon :: "int list"
  dense_keys_vals :: "int list"

record PrimitiveGroup =
  group_nodes :: "pbf_Node list"
  group_dense :: "DenseNodes option"
  group_ways :: "pbf_Way list"
  group_relations :: "pbf_Relation list"

record PrimitiveBlock =
  block_stringtable :: "string list"
  block_primitivegroup :: "PrimitiveGroup list"
  block_granularity :: int
  block_date_granularity :: int
  block_lat_offset :: int
  block_lon_offset :: int

subsection \<open>The decoded entities\<close>

text \<open>
  Modelled from the spec: \<^verbatim>\<open>osmium::Location\<close>, declared in \<^verbatim>\<open>osmium/osm/location.hpp\<close>, which
  is not among the sources at hand. A location is a pair of fixed-point integers
  (longitude first) or the sentinel "undefined", which a default-constructed location is.
\<close>

datatype Location = Location_undefined | Location int int

text \<open>
  Modelled from the spec: \<^verbatim>\<open>osmium::item_type\<close> and the bit mask \<^verbatim>\<open>item_flags_type\<close>, of
  \<^verbatim>\<open>osmium/osm/item_type.hpp\<close>. A mask is the set of the kinds it names; \<^verbatim>\<open>nothing\<close> is the
  empty set.
\<close>

datatype item_type = node | way | relation | changeset

text \<open>
  Modelled from the spec: \<^verbatim>\<open>osmium::OSMObject\<close>, \<^verbatim>\<open>Node\<close>, \<^verbatim>\<open>Way\<close> and \<^verbatim>\<open>Relation\<close>, whose
  headers are not among the sources at hand. An entity records the arguments of the
  setter calls the decoder makes on it (\<^verbatim>\<open>id\<close>, \<^verbatim>\<open>version\<close>, \<^verbatim>\<open>changeset\<close>, \<^verbatim>\<open>timestamp\<close>,
  \<^verbatim>\<open>uid_from_signed\<close>, \<^verbatim>\<open>visible\<close>, \<^verbatim>\<open>add_user\<close>, \<^verbatim>\<open>location\<close>) and what its sub-builders
  add (tags, way nodes, members).
\<close>

record OSMObject =
  object_id :: int
  version :: int
  changeset_id :: int
  timestamp :: int
  uid_signed :: int
  visible :: bool
  user :: string
  tags :: "(string \<times> string) list"

record Node = OSMObject +
  location :: Location

record Way = OSMObject +
  way_nodes :: "int list"

record Relation = OSMObject +
  members :: "(item_type \<times> int \<times> string) list"

datatype item = Node_item Node | Way_item Way | Relation_item Relation

text \<open>
  Modelled from the spec: \<^verbatim>\<open>osmium::memory::Buffer\<close>, of \<^verbatim>\<open>osmium/memory/buffer.hpp\<close>. A buffer
  is the list of its committed entities, or the invalid buffer that a default-constructed
  \<^verbatim>\<open>Buffer\<close> is; no buffer that holds decoded data compares equal to the invalid one.
\<close>

datatype Buffer = Buffer_invalid | Buffer "item list"

text \<open>
  Modelled from the spec: the entity a builder starts with. Without an info message an
  entity has version 0, is visible and has an empty user string; it has no tags yet, and
  a node has an undefined location.
\<close>

definition new_Node :: Node where
  "new_Node = \<lparr>object_id = 0, version = 0, changeset_id = 0, timestamp = 0, uid_signed = 0,
     visible = True, user = [], tags = [], location = Location_undefined\<rparr>"

definition new_Way :: Way where
  "new_Way = \<lparr>object_id = 0, version = 0, changeset_id = 0, timestamp = 0, uid_signed = 0,
     visible = True, user = [], tags = [], way_nodes = []\<rparr>"

definition new_Relation :: Relation where
  "new_Relation = \<lparr>object_id = 0, version = 0, changeset_id = 0, timestamp = 0, uid_signed = 0,
     visible = True, user = [], tags = [], members = []\<rparr>"

text \<open>
  Modelled from the spec: the constants \<^verbatim>\<open>OSMPBF::lonlat_resolution\<close> and
  \<^verbatim>\<open>osmium::Location::coordinate_precision\<close>, as section 6 of the spec gives them.
\<close>

definition lonlat_resolution :: int where
  "lonlat_resolution = 1000 * 1000 * 1000"

definition coordinate_precision :: int where
  "coordinate_precision = 10000000"

text \<open>
  Modelled from the spec: \<^verbatim>\<open>osmpbf_membertype_to_item_type\<close>, of \<^verbatim>\<open>osmium/io/pbf.hpp\<close>, maps
  the member types of the PBF format to the kinds of entities.
\<close>

definition osmpbf_membertype_to_item_type :: "MemberType \<Rightarrow> item_type" where
  "osmpbf_membertype_to_item_type t = (case t of NODE \<Rightarrow> node | WAY \<Rightarrow> way | RELATION \<Rightarrow> relation)"

subsection \<open>PBFPrimitiveBlockParser\<close>

record PBFPrimitiveBlockParser =
  m_stringtable :: "string list"
  m_lon_offset :: int
  m_lat_offset :: int
  m_date_factor :: int
  m_granularity :: int
  m_read_types :: "item_type set"
  m_buffer :: "item list"

text \<open>The constructor; \<^verbatim>\<open>m_stringtable(nullptr)\<close> is the empty table.\<close>

definition PBFPrimitiveBlockParser :: "item_type set \<Rightarrow> PBFPrimitiveBlockParser" where
  "PBFPrimitiveBlockParser read_types =
     \<lparr>m_stringtable = [], m_lon_offset = 0, m_lat_offset = 0, m_date_factor = 1000,
      m_granularity = 100, m_read_types = read_types, m_buffer = []\<rparr>"

text \<open>
  The block that \<^verbatim>\<open>parse_node_group\<close>, \<^verbatim>\<open>parse_way_group\<close> and \<^verbatim>\<open>parse_relation_group\<close>
  repeat word for word: with an info message, set version, changeset, timestamp, uid,
  visibility and user; without one, only \<^verbatim>\<open>add_user("")\<close>.
\<close>

definition set_info ::
  "PBFPrimitiveBlockParser \<Rightarrow> Info option \<Rightarrow> 'a OSMObject_scheme \<Rightarrow> pbf_error + 'a OSMObject_scheme" where
  "set_info p info obj =
     (case info of
        Some nfo \<Rightarrow>
          err_bind (mul64 (info_timestamp nfo) (m_date_factor p)) (\<lambda>ts.
          err_bind (stringtable_s (m_stringtable p) (info_user_sid nfo)) (\<lambda>u.
            Inr (obj\<lparr>version := info_version nfo,
                     changeset_id := info_changeset nfo,
                     timestamp := ts,
                     uid_signed := info_uid nfo,
                     visible := (case info_visible nfo of Some v \<Rightarrow> v | None \<Rightarrow> True),
                     user := u\<rparr>)))
      | None \<Rightarrow> Inr (obj\<lparr>user := []\<rparr>))"

text \<open>
  \<^verbatim>\<open>osmium::Location((lon * m_granularity + m_lon_offset) / (lonlat_resolution /
  coordinate_precision), ...)\<close>, longitude first.
\<close>

definition pbf_location :: "PBFPrimitiveBlockParser \<Rightarrow> int \<Rightarrow> int \<Rightarrow> pbf_error + Location" where
  "pbf_location p lon lat =
     err_bind (mul64 lon (m_granularity p)) (\<lambda>a.
     err_bind (add64 a (m_lon_offset p)) (\<lambda>x.
     err_bind (mul64 lat (m_granularity p)) (\<lambda>b.
     err_bind (add64 b (m_lat_offset p)) (\<lambda>y.
       Inr (Location (cdiv x (cdiv lonlat_resolution coordinate_precision))
                     (cdiv y (cdiv lonlat_resolution coordinate_precision)))))))"

text \<open>
  The tag loop of the three plain parsers: \<^verbatim>\<open>add_tag(s(keys(tag)), s(vals(tag)))\<close> for
  every \<^verbatim>\<open>tag < keys_size()\<close>.
\<close>

definition keys_vals_tags ::
  "PBFPrimitiveBlockParser \<Rightarrow> int list \<Rightarrow> int list \<Rightarrow> pbf_error + (string \<times> string) list" where
  "keys_vals_tags p keys vals =
     fold_err (\<lambda>tag tl.
        err_bind (repeated keys (int tag)) (\<lambda>k.
        err_bind (stringtable_s (m_stringtable p) k) (\<lambda>ks.
        err_bind (repeated vals (int tag)) (\<lambda>v.
        err_bind (stringtable_s (m_stringtable p) v) (\<lambda>vs.
          Inr (tl @ [(ks, vs)]))))))
       [0..<length keys] []"

text \<open>The body of the loop of \<^verbatim>\<open>parse_node_group\<close>, for one \<^verbatim>\<open>OSMPBF::Node\<close>.\<close>

definition parse_node :: "PBFPrimitiveBlockParser \<Rightarrow> pbf_Node \<Rightarrow> pbf_error + Node" where
  "parse_node p pbf_node =
     err_bind (set_info p (node_info pbf_node) (new_Node\<lparr>object_id := node_id pbf_node\<rparr>)) (\<lambda>n1.
     err_bind (if visible n1
               then err_bind (pbf_location p (node_lon pbf_node) (node_lat pbf_node))
                      (\<lambda>l. Inr (n1\<lparr>location := l\<rparr>))
               else Inr n1) (\<lambda>n2.
     err_bind (keys_vals_tags p (node_keys pbf_node) (node_vals pbf_node)) (\<lambda>tl.
       Inr (n2\<lparr>tags := tl\<rparr>))))"

definition parse_node_group ::
  "PrimitiveGroup \<Rightarrow> PBFPrimitiveBlockParser \<Rightarrow> pbf_error + PBFPrimitiveBlockParser" where
  "parse_node_group grp p =
     fold_err (\<lambda>pbf_node p.
        err_bind (parse_node p pbf_node) (\<lambda>n. Inr (p\<lparr>m_buffer := m_buffer p @ [Node_item n]\<rparr>)))
       (group_nodes grp) p"

text \<open>
  The reference loop of \<^verbatim>\<open>parse_way_group\<close>: \<^verbatim>\<open>uint64_t ref = 0;\<close> and, for every delta,
  \<^verbatim>\<open>ref += refs(i); add_way_node(ref);\<close>. The sum wraps around as an unsigned 64-bit
  integer and the builder takes it as a signed 64-bit id.
\<close>

fun delta_refs :: "64 word \<Rightarrow> int list \<Rightarrow> int list" where
  "delta_refs ref [] = []"
| "delta_refs ref (d # ds) = sint (ref + word_of_int d) # delta_refs (ref + word_of_int d) ds"

definition parse_way :: "PBFPrimitiveBlockParser \<Rightarrow> pbf_Way \<Rightarrow> pbf_error + Way" where
  "parse_way p pbf_way =
     err_bind (set_info p (way_info pbf_way) (new_Way\<lparr>object_id := way_id pbf_way\<rparr>)) (\<lambda>w1.
     err_bind (keys_vals_tags p (way_keys pbf_way) (way_vals pbf_way)) (\<lambda>tl.
       Inr (w1\<lparr>way_nodes := delta_refs 0 (way_refs pbf_way), tags := tl\<rparr>)))"

definition parse_way_group ::
  "PrimitiveGroup \<Rightarrow> PBFPrimitiveBlockParser \<Rightarrow> pbf_error + PBFPrimitiveBlockParser" where
  "parse_way_group grp p =
     fold_err (\<lambda>pbf_way p.
        err_bind (parse_way p pbf_way) (\<lambda>w. Inr (p\<lparr>m_buffer := m_buffer p @ [Way_item w]\<rparr>)))
       (group_ways grp) p"

text \<open>
  The member loop of \<^verbatim>\<open>parse_relation_group\<close> runs over \<^verbatim>\<open>types_size()\<close> and reads
  \<^verbatim>\<open>memids(i)\<close>, \<^verbatim>\<open>types(i)\<close> and \<^verbatim>\<open>roles_sid(i)\<close>; the running sum \<open>ref\<close> is carried along.
\<close>

definition relation_members ::
  "PBFPrimitiveBlockParser \<Rightarrow> pbf_Relation \<Rightarrow> pbf_error + (item_type \<times> int \<times> string) list" where
  "relation_members p r =
     err_bind
       (fold_err (\<lambda>i (ref, ml).
          err_bind (repeated (relation_memids r) (int i)) (\<lambda>d.
          err_bind (repeated (relation_types r) (int i)) (\<lambda>t.
          err_bind (repeated (relation_roles_sid r) (int i)) (\<lambda>sid.
          err_bind (stringtable_s (m_stringtable p) sid) (\<lambda>role.
            Inr (ref + word_of_int d,
                 ml @ [(osmpbf_membertype_to_item_type t, sint (ref + word_of_int d), role)]))))))
         [0..<length (relation_types r)] (0 :: 64 word, []))
       (\<lambda>(ref, ml). Inr ml)"

definition parse_relation :: "PBFPrimitiveBlockParser \<Rightarrow> pbf_Relation \<Rightarrow> pbf_error + Relation" where
  "parse_relation p pbf_relation =
     err_bind (set_info p (relation_info pbf_relation)
                 (new_Relation\<lparr>object_id := relation_id pbf_relation\<rparr>)) (\<lambda>r1.
     err_bind (relation_members p pbf_relation) (\<lambda>ml.
     err_bind (keys_vals_tags p (relation_keys pbf_relation) (relation_vals pbf_relation)) (\<lambda>tl.
       Inr (r1\<lparr>members := ml, tags := tl\<rparr>))))"

definition parse_relation_group ::
  "PrimitiveGroup \<Rightarrow> PBFPrimitiveBlockParser \<Rightarrow> pbf_error + PBFPrimitiveBlockParser" where
  "parse_relation_group grp p =
     fold_err (\<lambda>pbf_relation p.
        err_bind (parse_relation p pbf_relation)
          (\<lambda>r. Inr (p\<lparr>m_buffer := m_buffer p @ [Relation_item r]\<rparr>)))
       (group_relations grp) p"

text \<open>
  \<^verbatim>\<open>add_tags\<close> for dense nodes. The \<^verbatim>\<open>while\<close> loop reads the key index at the cursor and
  advances; a 0 ends the node's tags, anything else is a key whose value index is read
  at the next position. The result is the new cursor and the tags given to the builder.
\<close>

function add_tags_loop ::
  "PBFPrimitiveBlockParser \<Rightarrow> int list \<Rightarrow> nat \<Rightarrow> (string \<times> string) list \<Rightarrow>
   pbf_error + (nat \<times> (string \<times> string) list)" where
  "add_tags_loop p keys_vals n tag_list =
     (if n < length keys_vals then
        (let tag_key_pos = keys_vals ! n in
         if tag_key_pos = 0 then Inr (n + 1, tag_list)
         else
           (case stringtable_s (m_stringtable p) tag_key_pos of
              Inl e \<Rightarrow> Inl e
            | Inr k \<Rightarrow>
                (case repeated keys_vals (int (n + 1)) of
                   Inl e \<Rightarrow> Inl e
                 | Inr val_pos \<Rightarrow>
                     (case stringtable_s (m_stringtable p) val_pos of
                        Inl e \<Rightarrow> Inl e
                      | Inr v \<Rightarrow> add_tags_loop p keys_vals (n + 2) (tag_list @ [(k, v)])))))
      else Inr (n, tag_list))"
  by pat_completeness auto
termination
  by (relation "measure (\<lambda>(p, keys_vals, n, tag_list). length keys_vals - n)") auto

declare add_tags_loop.simps [simp del]

definition add_tags ::
  "PBFPrimitiveBlockParser \<Rightarrow> DenseNodes \<Rightarrow> nat \<Rightarrow> pbf_error + (nat \<times> (string \<times> string) list)" where
  "add_tags p dense n =
     (if n \<ge> length (dense_keys_vals dense) then Inr (n, [])
      else if dense_keys_vals dense ! n = 0 then Inr (n + 1, [])
      else add_tags_loop p (dense_keys_vals dense) n [])"

text \<open>The running sums and the tag cursor of \<^verbatim>\<open>parse_dense_node_group\<close>.\<close>

record dense_cursor =
  last_dense_id :: int
  last_dense_latitude :: int
  last_dense_longitude :: int
  last_dense_uid :: int
  last_dense_user_sid :: int
  last_dense_changeset :: int
  last_dense_timestamp :: int
  last_dense_tag :: nat

definition dense_cursor_init :: dense_cursor where
  "dense_cursor_init =
     \<lparr>last_dense_id = 0, last_dense_latitude = 0, last_dense_longitude = 0, last_dense_uid = 0,
      last_dense_user_sid = 0, last_dense_changeset = 0, last_dense_timestamp = 0,
      last_dense_tag = 0\<rparr>"

text \<open>
  The first half of the loop body: the deltas of index \<open>i\<close> are added to the running
  sums and \<open>visible\<close> is read if the \<^verbatim>\<open>visible\<close> field has entries.
\<close>

definition dense_advance ::
  "DenseNodes \<Rightarrow> nat \<Rightarrow> dense_cursor \<Rightarrow> pbf_error + (dense_cursor \<times> bool)" where
  "dense_advance dense i c =
     err_bind (repeated (dense_id dense) (int i)) (\<lambda>d_id.
     err_bind (add64 (last_dense_id c) d_id) (\<lambda>new_id.
     err_bind (repeated (dense_lat dense) (int i)) (\<lambda>d_lat.
     err_bind (add64 (last_dense_latitude c) d_lat) (\<lambda>new_lat.
     err_bind (repeated (dense_lon dense) (int i)) (\<lambda>d_lon.
     err_bind (add64 (last_dense_longitude c) d_lon) (\<lambda>new_lon.
     (let c1 = c\<lparr>last_dense_id := new_id, last_dense_latitude := new_lat,
                  last_dense_longitude := new_lon\<rparr>
      in case dense_denseinfo dense of
           None \<Rightarrow> Inr (c1, True)
         | Some di \<Rightarrow>
             err_bind (repeated (denseinfo_changeset di) (int i)) (\<lambda>d_cs.
             err_bind (add64 (last_dense_changeset c1) d_cs) (\<lambda>new_cs.
             err_bind (repeated (denseinfo_timestamp di) (int i)) (\<lambda>d_ts.
             err_bind (add64 (last_dense_timestamp c1) d_ts) (\<lambda>new_ts.
             err_bind (repeated (denseinfo_uid di) (int i)) (\<lambda>d_uid.
             err_bind (add64 (last_dense_uid c1) d_uid) (\<lambda>new_uid.
             err_bind (repeated (denseinfo_user_sid di) (int i)) (\<lambda>d_sid.
             err_bind (add64 (last_dense_user_sid c1) d_sid) (\<lambda>new_sid.
             err_bind (if length (denseinfo_visible di) > 0
                       then repeated (denseinfo_visible di) (int i)
                       else Inr True) (\<lambda>vis.
               Inr (c1\<lparr>last_dense_changeset := new_cs, last_dense_timestamp := new_ts,
                        last_dense_uid := new_uid, last_dense_user_sid := new_sid\<rparr>,
                    vis)))))))))))))))))"

text \<open>The second half: the node is built from the running sums.\<close>

definition dense_build ::
  "PBFPrimitiveBlockParser \<Rightarrow> DenseNodes \<Rightarrow> nat \<Rightarrow> dense_cursor \<Rightarrow> bool \<Rightarrow>
   pbf_error + (dense_cursor \<times> Node)" where
  "dense_build p dense i c vis =
     err_bind
       (case dense_denseinfo dense of
          Some di \<Rightarrow>
            err_bind (repeated (denseinfo_version di) (int i)) (\<lambda>ver.
            err_bind (mul64 (last_dense_timestamp c) (m_date_factor p)) (\<lambda>ts.
            err_bind (stringtable_s (m_stringtable p) (last_dense_user_sid c)) (\<lambda>u.
              Inr (new_Node\<lparr>object_id := last_dense_id c,
                            version := ver,
                            changeset_id := last_dense_changeset c,
                            timestamp := ts,
                            uid_signed := last_dense_uid c,
                            visible := vis,
                            user := u\<rparr>))))
        | None \<Rightarrow> Inr (new_Node\<lparr>object_id := last_dense_id c, user := []\<rparr>)) (\<lambda>n1.
     err_bind (if visible n1
               then err_bind (pbf_location p (last_dense_longitude c) (last_dense_latitude c))
                      (\<lambda>l. Inr (n1\<lparr>location := l\<rparr>))
               else Inr n1) (\<lambda>n2.
     err_bind (add_tags p dense (last_dense_tag c)) (\<lambda>(n', tl).
       Inr (c\<lparr>last_dense_tag := n'\<rparr>, n2\<lparr>tags := tl\<rparr>))))"

definition parse_dense_node ::
  "PBFPrimitiveBlockParser \<Rightarrow> DenseNodes \<Rightarrow> nat \<Rightarrow> dense_cursor \<Rightarrow>
   pbf_error + (dense_cursor \<times> Node)" where
  "parse_dense_node p dense i c =
     err_bind (dense_advance dense i c) (\<lambda>(c1, vis). dense_build p dense i c1 vis)"

text \<open>
  The loop of \<^verbatim>\<open>parse_dense_node_group\<close> over \<^verbatim>\<open>i < dense.id_size()\<close>, returning the
  cursor and the nodes it commits, in order.
\<close>

definition dense_nodes ::
  "PBFPrimitiveBlockParser \<Rightarrow> DenseNodes \<Rightarrow> pbf_error + (dense_cursor \<times> Node list)" where
  "dense_nodes p dense =
     fold_err (\<lambda>i (c, ns).
        err_bind (parse_dense_node p dense i c) (\<lambda>(c', n). Inr (c', ns @ [n])))
       [0..<length (dense_id dense)] (dense_cursor_init, [])"

text \<open>\<^verbatim>\<open>group.dense()\<close> of a group without dense nodes is the empty default message.\<close>

definition parse_dense_node_group ::
  "PrimitiveGroup \<Rightarrow> PBFPrimitiveBlockParser \<Rightarrow> pbf_error + PBFPrimitiveBlockParser" where
  "parse_dense_node_group grp p =
     (case group_dense grp of
        None \<Rightarrow> Inr p
      | Some dense \<Rightarrow>
          err_bind (dense_nodes p dense)
            (\<lambda>(c, ns). Inr (p\<lparr>m_buffer := m_buffer p @ map Node_item ns\<rparr>)))"

text \<open>
  \<^verbatim>\<open>operator()\<close>: the argument is the result of \<^verbatim>\<open>ParseFromArray\<close>, \<open>None\<close> if it failed.
\<close>

definition parse_group ::
  "PrimitiveGroup \<Rightarrow> PBFPrimitiveBlockParser \<Rightarrow> pbf_error + PBFPrimitiveBlockParser" where
  "parse_group grp p =
     (if group_dense grp \<noteq> None then
        (if node \<in> m_read_types p then parse_dense_node_group grp p else Inr p)
      else if length (group_ways grp) \<noteq> 0 then
        (if way \<in> m_read_types p then parse_way_group grp p else Inr p)
      else if length (group_relations grp) \<noteq> 0 then
        (if relation \<in> m_read_types p then parse_relation_group grp p else Inr p)
      else if length (group_nodes grp) \<noteq> 0 then
        (if node \<in> m_read_types p then parse_node_group grp p else Inr p)
      else Inl (runtime_error ''Group of unknown type.''))"

definition load_block :: "PrimitiveBlock \<Rightarrow> PBFPrimitiveBlockParser \<Rightarrow> PBFPrimitiveBlockParser" where
  "load_block blk p =
     p\<lparr>m_stringtable := block_stringtable blk,
       m_lon_offset := block_lon_offset blk,
       m_lat_offset := block_lat_offset blk,
       m_date_factor := cdiv (block_date_granularity blk) 1000,
       m_granularity := block_granularity blk\<rparr>"

definition PBFPrimitiveBlockParser_call ::
  "PrimitiveBlock option \<Rightarrow> PBFPrimitiveBlockParser \<Rightarrow> pbf_error + Buffer" where
  "PBFPrimitiveBlockParser_call data p =
     (case data of
        None \<Rightarrow> Inl (runtime_error ''Failed to parse PrimitiveBlock.'')
      | Some blk \<Rightarrow>
          err_bind (fold_err parse_group (block_primitivegroup blk) (load_block blk p))
            (\<lambda>p'. Inr (Buffer (m_buffer p'))))"


subsection \<open>Dense tags as the spec words them\<close>

text \<open>
  The spec's rule for dense tags, on the part of \<^verbatim>\<open>keys_vals\<close> that lies behind the
  cursor: a node takes index pairs (key, value) until a 0, which it consumes; if the
  very next index is 0 the node has no tags. \<open>spec_take_tags\<close> returns the pairs of one
  node and what is left for the nodes after it, \<open>spec_dense_tags m\<close> the pairs of the
  next \<open>m\<close> nodes.
\<close>

fun spec_take_tags :: "int list \<Rightarrow> (int \<times> int) list \<times> int list" where
  "spec_take_tags [] = ([], [])"
| "spec_take_tags [k] = ([], [])"
| "spec_take_tags (k # v # rest) =
     (if k = 0 then ([], v # rest)
      else (case spec_take_tags rest of (ps, r) \<Rightarrow> ((k, v) # ps, r)))"

fun spec_dense_tags :: "nat \<Rightarrow> int list \<Rightarrow> (int \<times> int) list list" where
  "spec_dense_tags 0 keys_vals = []"
| "spec_dense_tags (Suc m) keys_vals =
     (case spec_take_tags keys_vals of (ps, r) \<Rightarrow> ps # spec_dense_tags m r)"

definition tag_string :: "string list \<Rightarrow> int \<Rightarrow> string" where
  "tag_string st i = c_str (st ! nat (to_int32 i))"

definition tag_pair :: "string list \<Rightarrow> int \<times> int \<Rightarrow> string \<times> string" where
  "tag_pair st kv = (tag_string st (fst kv), tag_string st (snd kv))"




subsection \<open>Timestamps as the spec words them\<close>

text \<open>
  The timestamp a decoded entity carries.
\<close>

definition item_timestamp :: "item \<Rightarrow> int" where
  "item_timestamp it =
     (case it of Node_item n \<Rightarrow> timestamp n | Way_item w \<Rightarrow> timestamp w
      | Relation_item r \<Rightarrow> timestamp r)"

text \<open>
  The PBF timestamp of every object of a block that the decoder reads, in the order of
  the file: the \<^verbatim>\<open>timestamp\<close> of the info message of a plain node, a way or a relation;
  for the dense node of index \<open>i\<close> the sum of the timestamp deltas up to \<open>i\<close>, the running
  sum starting from 0 in every group. An object without info (a dense group without
  denseinfo) has no PBF timestamp, which is \<open>None\<close>. A group is read as the kind the
  decoder takes it for, and only if that kind is among the kinds asked for.
\<close>

definition info_pbf_timestamp :: "Info option \<Rightarrow> int option" where
  "info_pbf_timestamp info = map_option info_timestamp info"

definition dense_pbf_timestamps :: "DenseNodes \<Rightarrow> int option list" where
  "dense_pbf_timestamps dense =
     (case dense_denseinfo dense of
        None \<Rightarrow> replicate (length (dense_id dense)) None
      | Some di \<Rightarrow>
          map (\<lambda>i. Some (sum_list (take (Suc i) (denseinfo_timestamp di))))
            [0..<length (dense_id dense)])"

definition group_pbf_timestamps :: "item_type set \<Rightarrow> PrimitiveGroup \<Rightarrow> int option list" where
  "group_pbf_timestamps read_types grp =
     (case group_dense grp of
        Some dense \<Rightarrow> if node \<in> read_types then dense_pbf_timestamps dense else []
      | None \<Rightarrow>
          if group_ways grp \<noteq> [] then
            (if way \<in> read_types
             then map (\<lambda>w. info_pbf_timestamp (way_info w)) (group_ways grp) else [])
          else if group_relations grp \<noteq> [] then
            (if relation \<in> read_types
             then map (\<lambda>r. info_pbf_timestamp (relation_info r)) (group_relations grp) else [])
          else
            (if node \<in> read_types
             then map (\<lambda>n. info_pbf_timestamp (node_info n)) (group_nodes grp) else []))"

definition block_pbf_timestamps :: "item_type set \<Rightarrow> PrimitiveBlock \<Rightarrow> int option list" where
  "block_pbf_timestamps read_types blk =
     concat (map (group_pbf_timestamps read_types) (block_primitivegroup blk))"

text \<open>
  The spec's rule for one entity and the PBF timestamp of its object: the stored
  timestamp is the PBF timestamp times the factor. An entity whose object has no info
  has the timestamp 0.
\<close>

definition timestamp_rule :: "int \<Rightarrow> item \<Rightarrow> int option \<Rightarrow> bool" where
  "timestamp_rule factor it t =
     (case t of None \<Rightarrow> item_timestamp it = 0
      | Some pbf_timestamp \<Rightarrow> item_timestamp it = pbf_timestamp * factor)"

text \<open>
  The state of the dense loop before the node of index \<open>i\<close>: \<open>i\<close> nodes are built; with
  denseinfo the running sum is the sum of the first \<open>i\<close> deltas and every node built so
  far carries its sum times the factor, without denseinfo every node built so far has
  the timestamp 0.
\<close>

definition dense_timestamp_inv ::
  "PBFPrimitiveBlockParser \<Rightarrow> DenseNodes \<Rightarrow> nat \<Rightarrow> dense_cursor \<times> Node list \<Rightarrow> bool" where
  "dense_timestamp_inv p dense i s =
     (length (snd s) = i \<and>
      (dense_denseinfo dense = None \<longrightarrow> (\<forall>j < i. timestamp (snd s ! j) = 0)) \<and>
      (\<forall>di. dense_denseinfo dense = Some di \<longrightarrow>
         last_dense_timestamp (fst s) = sum_list (take i (denseinfo_timestamp di)) \<and>
         (\<forall>j < i. timestamp (snd s ! j) =
            sum_list (take (Suc j) (denseinfo_timestamp di)) * m_date_factor p)))"


subsection \<open>Example inputs\<close>

text \<open>
  A block with the string table and the dense \<^verbatim>\<open>keys_vals\<close> of scenario S2 of the spec and
  the three dense nodes of scenario S1, the way of scenario S3, and an invisible plain
  node, a relation and a dense group that carry info.
\<close>

definition example_dense :: DenseNodes where
  "example_dense =
     \<lparr>dense_id = [10, 1, 1], dense_denseinfo = None, dense_lat = [0, 200, 50],
      dense_lon = [0, 100, - 50], dense_keys_vals = [1, 2, 0, 0, 3, 4, 0]\<rparr>"

definition example_group :: PrimitiveGroup where
  "example_group =
     \<lparr>group_nodes = [], group_dense = Some example_dense, group_ways = [],
      group_relations = []\<rparr>"

definition example_block :: PrimitiveBlock where
  "example_block =
     \<lparr>block_stringtable = ['''', ''a'', ''b'', ''c'', ''d''],
      block_primitivegroup = [example_group],
      block_granularity = 100, block_date_granularity = 1000,
      block_lat_offset = 0, block_lon_offset = 0\<rparr>"

definition example_parser :: PBFPrimitiveBlockParser where
  "example_parser = load_block example_block (PBFPrimitiveBlockParser {node, way, relation})"

definition example_info :: Info where
  "example_info =
     \<lparr>info_version = 3, info_timestamp = 5, info_changeset = 9, info_uid = 4,
      info_user_sid = 1, info_visible = Some False\<rparr>"

definition example_node :: pbf_Node where
  "example_node =
     \<lparr>node_id = 7, node_keys = [1], node_vals = [2], node_info = Some example_info,
      node_lat = 200, node_lon = 100\<rparr>"

definition example_way :: pbf_Way where
  "example_way =
     \<lparr>way_id = 20, way_keys = [1, 3], way_vals = [2, 4], way_info = Some example_info,
      way_refs = [100, 1, - 1, 2]\<rparr>"

definition example_relation :: pbf_Relation where
  "example_relation =
     \<lparr>relation_id = 30, relation_keys = [], relation_vals = [],
      relation_info = Some example_info, relation_roles_sid = [1, 0, 2],
      relation_memids = [5, 1, 1], relation_types = [NODE, WAY, RELATION]\<rparr>"

definition example_denseinfo :: DenseInfo where
  "example_denseinfo =
     \<lparr>denseinfo_version = [1, 2], denseinfo_timestamp = [5, 2], denseinfo_changeset = [9, 1],
      denseinfo_uid = [4, 0], denseinfo_user_sid = [1, 1], denseinfo_visible = [True, False]\<rparr>"

definition example_dense_with_info :: DenseNodes where
  "example_dense_with_info =
     \<lparr>dense_id = [10, 1], dense_denseinfo = Some example_denseinfo, dense_lat = [0, 200],
      dense_lon = [0, 100], dense_keys_vals = []\<rparr>"

definition example_block_with_info :: PrimitiveBlock where
  "example_block_with_info =
     example_block\<lparr>block_primitivegroup :=
       [\<lparr>group_nodes = [example_node], group_dense = None, group_ways = [],
         group_relations = []\<rparr>,
        \<lparr>group_nodes = [], group_dense = Some example_dense_with_info, group_ways = [],
         group_relations = []\<rparr>]\<rparr>"

definition example_block_negative :: PrimitiveBlock where
  "example_block_negative = example_block\<lparr>block_date_granularity := - 1000\<rparr>"

text \<open>The cursor of the dense loop after the first node of \<open>example_dense_with_info\<close>.\<close>

definition example_cursor :: dense_cursor where
  "example_cursor =
     \<lparr>last_dense_id = 10, last_dense_latitude = 0, last_dense_longitude = 0,
      last_dense_uid = 4, last_dense_user_sid = 1, last_dense_changeset = 9,
      last_dense_timestamp = 5, last_dense_tag = 0\<rparr>"

text \<open>What the decoder makes of the examples.\<close>

definition example_node_decoded :: Node where
  "example_node_decoded =
     \<lparr>object_id = 7, version = 3, changeset_id = 9, timestamp = 5, uid_signed = 4,
      visible = False, user = ''a'', tags = [(''a'', ''b'')], location = Location_undefined\<rparr>"

definition example_way_decoded :: Way where
  "example_way_decoded =
     \<lparr>object_id = 20, version = 3, changeset_id = 9, timestamp = 5, uid_signed = 4,
      visible = False, user = ''a'', tags = [(''a'', ''b''), (''c'', ''d'')],
      way_nodes = [100, 101, 100, 102]\<rparr>"

definition example_relation_decoded :: Relation where
  "example_relation_decoded =
     \<lparr>object_id = 30, version = 3, changeset_id = 9, timestamp = 5, uid_signed = 4,
      visible = False, user = ''a'', tags = [],
      members = [(node, 5, ''a''), (way, 6, []), (relation, 7, ''b'')]\<rparr>"

definition example_dense_decoded :: "Node list" where
  "example_dense_decoded =
     [\<lparr>object_id = 10, version = 0, changeset_id = 0, timestamp = 0, uid_signed = 0,
       visible = True, user = [], tags = [(''a'', ''b'')], location = Location 0 0\<rparr>,
      \<lparr>object_id = 11, version = 0, changeset_id = 0, timestamp = 0, uid_signed = 0,
       visible = True, user = [], tags = [], location = Location 100 200\<rparr>,
      \<lparr>object_id = 12, version = 0, changeset_id = 0, timestamp = 0, uid_signed = 0,
       visible = True, user = [], tags = [(''c'', ''d'')], location = Location 50 250\<rparr>]"

definition example_dense_with_info_decoded :: "Node list" where
  "example_dense_with_info_decoded =
     [\<lparr>object_id = 10, version = 1, changeset_id = 9, timestamp = 5, uid_signed = 4,
       visible = True, user = ''a'', tags = [], location = Location 0 0\<rparr>,
      \<lparr>object_id = 11, version = 2, changeset_id = 10, timestamp = 7, uid_signed = 4,
       visible = False, user = ''b'', tags = [], location = Location_undefined\<rparr>]"

text \<open>
  A block with a group of every kind with info, a plain node, two dense nodes, a way and
  a relation, whose PBF timestamps are 5, 5, 7, 5 and 5, and the dense group of three
  nodes without info; and what the decoder makes of it when the factor is \<open>f\<close>.
\<close>

definition example_block_all_kinds :: PrimitiveBlock where
  "example_block_all_kinds =
     example_block\<lparr>block_primitivegroup :=
       [\<lparr>group_nodes = [example_node], group_dense = None, group_ways = [],
         group_relations = []\<rparr>,
        \<lparr>group_nodes = [], group_dense = Some example_dense_with_info, group_ways = [],
         group_relations = []\<rparr>,
        \<lparr>group_nodes = [], group_dense = None, group_ways = [example_way],
         group_relations = []\<rparr>,
        \<lparr>group_nodes = [], group_dense = None, group_ways = [],
         group_relations = [example_relation]\<rparr>,
        example_group]\<rparr>"

definition example_items :: "int \<Rightarrow> item list" where
  "example_items f =
     [Node_item (example_node_decoded\<lparr>timestamp := 5 * f\<rparr>),
      Node_item ((example_dense_with_info_decoded ! 0)\<lparr>timestamp := 5 * f\<rparr>),
      Node_item ((example_dense_with_info_decoded ! 1)\<lparr>timestamp := 7 * f\<rparr>),
      Way_item (example_way_decoded\<lparr>timestamp := 5 * f\<rparr>),
      Relation_item (example_relation_decoded\<lparr>timestamp := 5 * f\<rparr>)]
     @ map Node_item example_dense_decoded"


subsection \<open>BlobParser\<close>

text \<open>
  \<^verbatim>\<open>BlobParser<TDerived>::operator()\<close>. Its first argument says whether \<^verbatim>\<open>assert\<close> is compiled
  out (\<^verbatim>\<open>NDEBUG\<close>). zlib's \<^verbatim>\<open>uncompress\<close> is a parameter: for the size of the output buffer
  and the compressed bytes it gives \<open>Some\<close> of the bytes it wrote when it returns
  \<^verbatim>\<open>Z_OK\<close>, and \<open>None\<close> for every other return code. \<open>handle_blob\<close> is the member of the
  derived class. The blob is the result of \<^verbatim>\<open>ParseFromArray\<close>, \<open>None\<close> if that failed.
  A negative \<^verbatim>\<open>raw_size\<close> becomes, as an \<^verbatim>\<open>unsigned long\<close>, a size that no allocation can
  serve.
\<close>

type_synonym bytes = string

record Blob =
  blob_raw :: "bytes option"
  blob_raw_size :: int
  blob_zlib_data :: "bytes option"
  blob_lzma_data :: "bytes option"

text \<open>
  Modelled from the spec: the constant \<^verbatim>\<open>OSMPBF::max_uncompressed_blob_size\<close>, 32 MiB.
\<close>

definition max_uncompressed_blob_size :: int where
  "max_uncompressed_blob_size = 32 * 1024 * 1024"

definition BlobParser_call ::
  "bool \<Rightarrow> (nat \<Rightarrow> bytes \<Rightarrow> bytes option) \<Rightarrow> (bytes \<Rightarrow> pbf_error + 'r) \<Rightarrow> Blob option \<Rightarrow>
   pbf_error + 'r" where
  "BlobParser_call ndebug uncompress handle_blob parsed =
     (case parsed of
        None \<Rightarrow> Inl (runtime_error ''failed to parse blob'')
      | Some pbf_blob \<Rightarrow>
          (case blob_raw pbf_blob of
             Some raw \<Rightarrow> handle_blob raw
           | None \<Rightarrow>
               (case blob_zlib_data pbf_blob of
                  Some zlib_data \<Rightarrow>
                    (let raw_size = blob_raw_size pbf_blob in
                     if \<not> ndebug \<and> \<not> (0 \<le> raw_size \<and> raw_size \<le> max_uncompressed_blob_size)
                     then Inl AssertionFailed
                     else if raw_size < 0 then Inl bad_alloc
                     else
                       (case uncompress (nat raw_size) zlib_data of
                          None \<Rightarrow> Inl (runtime_error ''zlib error'')
                        | Some unpacked \<Rightarrow>
                            if raw_size \<noteq> int (length unpacked)
                            then Inl (runtime_error ''zlib error'')
                            else handle_blob unpacked))
                | None \<Rightarrow>
                    (case blob_lzma_data pbf_blob of
                       Some lzma_data \<Rightarrow> Inl (runtime_error ''lzma blobs not implemented'')
                     | None \<Rightarrow> Inl (runtime_error ''Blob contains no data'')))))"

subsection \<open>HeaderBlobParser\<close>

text \<open>
  Modelled from the spec: the members \<^verbatim>\<open>pbf_has_dense_nodes\<close>, \<^verbatim>\<open>generator\<close> and \<^verbatim>\<open>bounds\<close> of
  \<^verbatim>\<open>osmium::io::Header\<close>, which \<^verbatim>\<open>handle_blob\<close> calls and \<^verbatim>\<open>io/header.hpp\<close> does not declare.
  They are a flag, initially false, a string, and the list of the locations the bounds
  were extended by. The flag \<^verbatim>\<open>m_has_multiple_object_versions\<close>, initially false, is the one
  of \<^verbatim>\<open>io/header.hpp\<close>.
\<close>

record Header =
  m_has_multiple_object_versions :: bool
  m_pbf_has_dense_nodes :: bool
  m_generator :: string
  m_bounds :: "Location list"

definition Header_default :: Header where
  "Header_default =
     \<lparr>m_has_multiple_object_versions = False, m_pbf_has_dense_nodes = False,
      m_generator = [], m_bounds = []\<rparr>"

record HeaderBBox =
  bbox_left :: int
  bbox_right :: int
  bbox_top :: int
  bbox_bottom :: int

record HeaderBlock =
  required_features :: "string list"
  writingprogram :: "string option"
  header_bbox :: "HeaderBBox option"

text \<open>The body of the loop over \<^verbatim>\<open>required_features\<close>.\<close>

definition required_feature :: "string \<Rightarrow> Header \<Rightarrow> pbf_error + Header" where
  "required_feature feature h =
     (if feature = ''OsmSchema-V0.6'' then Inr h
      else if feature = ''DenseNodes'' then Inr (h\<lparr>m_pbf_has_dense_nodes := True\<rparr>)
      else if feature = ''HistoricalInformation''
        then Inr (h\<lparr>m_has_multiple_object_versions := True\<rparr>)
      else Inl (runtime_error (''Required feature not supported: '' @ feature)))"

text \<open>
  \<^verbatim>\<open>HeaderBlobParser::handle_blob\<close>, on the result of \<^verbatim>\<open>ParseFromArray\<close>. The header is
  updated in place; when an exception leaves the function, \<^verbatim>\<open>PBFInput::read\<close> is left by
  it too and returns no header.
\<close>

definition HeaderBlobParser_handle_blob :: "HeaderBlock option \<Rightarrow> Header \<Rightarrow> pbf_error + Header" where
  "HeaderBlobParser_handle_blob parsed m_header =
     (case parsed of
        None \<Rightarrow> Inl (runtime_error ''Failed to parse HeaderBlock.'')
      | Some pbf_header_block \<Rightarrow>
          err_bind (fold_err required_feature (required_features pbf_header_block) m_header) (\<lambda>h1.
          (let h2 = (case writingprogram pbf_header_block of
                       Some g \<Rightarrow> h1\<lparr>m_generator := g\<rparr>
                     | None \<Rightarrow> h1);
               resolution_convert = cdiv lonlat_resolution coordinate_precision
           in Inr (case header_bbox pbf_header_block of
                     Some bbox \<Rightarrow>
                       h2\<lparr>m_bounds := m_bounds h2 @
                          [Location (cdiv (bbox_left bbox) resolution_convert)
                                    (cdiv (bbox_bottom bbox) resolution_convert),
                           Location (cdiv (bbox_right bbox) resolution_convert)
                                    (cdiv (bbox_top bbox) resolution_convert)]\<rparr>
                   | None \<Rightarrow> h2))))"

definition supported_features :: "string set" where
  "supported_features = {''OsmSchema-V0.6'', ''DenseNodes'', ''HistoricalInformation''}"

text \<open>Example blobs and header blocks.\<close>

definition example_raw_blob :: Blob where
  "example_raw_blob =
     \<lparr>blob_raw = Some ''abc'', blob_raw_size = 0, blob_zlib_data = None, blob_lzma_data = None\<rparr>"

definition example_zlib_blob :: Blob where
  "example_zlib_blob =
     \<lparr>blob_raw = None, blob_raw_size = 3, blob_zlib_data = Some ''xy'', blob_lzma_data = None\<rparr>"

definition example_lzma_blob :: Blob where
  "example_lzma_blob =
     \<lparr>blob_raw = None, blob_raw_size = 3, blob_zlib_data = None, blob_lzma_data = Some ''xy''\<rparr>"

definition example_empty_blob :: Blob where
  "example_empty_blob =
     \<lparr>blob_raw = None, blob_raw_size = 0, blob_zlib_data = None, blob_lzma_data = None\<rparr>"

text \<open>An \<^verbatim>\<open>uncompress\<close> that inflates \<open>xy\<close> to \<open>abc\<close> and fails on everything else.\<close>

definition example_uncompress :: "nat \<Rightarrow> bytes \<Rightarrow> bytes option" where
  "example_uncompress n z = (if z = ''xy'' \<and> 3 \<le> n then Some ''abc'' else None)"

definition example_header_block :: HeaderBlock where
  "example_header_block =
     \<lparr>required_features = [''OsmSchema-V0.6'', ''DenseNodes'', ''HistoricalInformation''],
      writingprogram = Some ''test'', header_bbox = None\<rparr>"

definition example_header_block_unsupported :: HeaderBlock where
  "example_header_block_unsupported =
     \<lparr>required_features = [''OsmSchema-V0.6'', ''Sort.Type_then_ID''],
      writingprogram = Some ''test'', header_bbox = None\<rparr>"


subsection \<open>PBFInput\<close>

text \<open>
  The file behind \<^verbatim>\<open>fd()\<close> is the list of the bytes not yet read. The protobuf decoders
  (\<^verbatim>\<open>ParseFromArray\<close> of the four message types) and zlib are outside the sources at hand
  and are the fields of a record.
\<close>

record BlobHeader =
  header_type :: string
  header_datasize :: int

record decoders =
  decode_BlobHeader :: "bytes \<Rightarrow> BlobHeader option"
  decode_Blob :: "bytes \<Rightarrow> Blob option"
  decode_HeaderBlock :: "bytes \<Rightarrow> HeaderBlock option"
  decode_PrimitiveBlock :: "bytes \<Rightarrow> PrimitiveBlock option"
  zlib_uncompress :: "nat \<Rightarrow> bytes \<Rightarrow> bytes option"
  dec_ndebug :: bool

text \<open>
  Modelled from the spec: \<^verbatim>\<open>osmium::io::detail::reliable_read\<close>, of
  \<^verbatim>\<open>osmium/io/detail/read_write.hpp\<close>, reads exactly the number of bytes asked for and
  returns false when the file ends before that. The result is the return value, the
  bytes read and the rest of the file.
\<close>

definition reliable_read :: "nat \<Rightarrow> bytes \<Rightarrow> bool \<times> bytes \<times> bytes" where
  "reliable_read n fd =
     (if n \<le> length fd then (True, take n fd, drop n fd) else (False, fd, []))"

text \<open>Modelled from the spec: the constant \<^verbatim>\<open>OSMPBF::max_blob_header_size\<close>, 64 KiB.\<close>

definition max_blob_header_size :: nat where
  "max_blob_header_size = 64 * 1024"

text \<open>\<^verbatim>\<open>ntohl\<close> of four bytes read into a \<^verbatim>\<open>uint32_t\<close>: the big-endian value.\<close>

definition ntohl :: "bytes \<Rightarrow> nat" where
  "ntohl bs = foldl (\<lambda>acc c. acc * 256 + of_char c) 0 bs"

text \<open>
  \<^verbatim>\<open>read_blob_header\<close> returns the size (0 at the end of the file) and leaves the rest of
  the file. The \<^verbatim>\<open>int32\<close> \<^verbatim>\<open>datasize\<close> is returned as a \<^verbatim>\<open>size_t\<close>.
\<close>

definition read_blob_header :: "decoders \<Rightarrow> string \<Rightarrow> bytes \<Rightarrow> pbf_error + (nat \<times> bytes)" where
  "read_blob_header dec expected_type fd =
     (case reliable_read 4 fd of
        (False, _, fd1) \<Rightarrow> Inr (0, fd1)
      | (True, size_in_network_byte_order, fd1) \<Rightarrow>
          (let size = ntohl size_in_network_byte_order in
           if size > max_blob_header_size then Inl (runtime_error ''Invalid BlobHeader size'')
           else
             (case reliable_read size fd1 of
                (False, _, _) \<Rightarrow> Inl (runtime_error ''Read error.'')
              | (True, blob_header_buffer, fd2) \<Rightarrow>
                  (case decode_BlobHeader dec blob_header_buffer of
                     None \<Rightarrow> Inl (runtime_error ''Failed to parse BlobHeader.'')
                   | Some m_blob_header \<Rightarrow>
                       if c_str (header_type m_blob_header) \<noteq> expected_type
                       then Inl (runtime_error
                              ''Blob does not have expected type (OSMHeader in first Blob, OSMData in following Blobs).'')
                       else Inr (nat (header_datasize m_blob_header mod 2 ^ 64), fd2)))))"

function show_nat :: "nat \<Rightarrow> string" where
  "show_nat n =
     (if n < 10 then [char_of (48 + n)]
      else show_nat (n div 10) @ [char_of (48 + n mod 10)])"
  by pat_completeness auto
termination
  by (relation "measure id") auto

declare show_nat.simps [simp del]

text \<open>
  The constructor of \<^verbatim>\<open>BlobParser\<close>. Its \<^verbatim>\<open>size\<close> is an \<^verbatim>\<open>int\<close>; the member initialiser
  \<^verbatim>\<open>new unsigned char[size]\<close> runs before the check of the size, so a negative size is a
  failed allocation. The result is \<^verbatim>\<open>m_input_buffer\<close> and the rest of the file.
\<close>

definition BlobParser :: "nat \<Rightarrow> bytes \<Rightarrow> pbf_error + (bytes \<times> bytes)" where
  "BlobParser size_arg fd =
     (let size = to_int32 (int size_arg) in
      if size < 0 then Inl bad_alloc
      else if size > max_uncompressed_blob_size
        then Inl (runtime_error (''invalid blob size: '' @ show_nat (nat size)))
      else
        (case reliable_read (nat size) fd of
           (False, _, _) \<Rightarrow> Inl (runtime_error ''read error (EOF)'')
         | (True, m_input_buffer, fd1) \<Rightarrow> Inr (m_input_buffer, fd1)))"

text \<open>
  \<^verbatim>\<open>DataBlobParser::handle_blob\<close> decodes the block and pushes the buffer with the blob's
  number; \<^verbatim>\<open>DataBlobParser::operator()\<close> is \<^verbatim>\<open>BlobParser::operator()\<close> with it.
\<close>

definition DataBlobParser_handle_blob ::
  "decoders \<Rightarrow> item_type set \<Rightarrow> nat \<Rightarrow> Buffer sorted_queue \<Rightarrow> bytes \<Rightarrow>
   pbf_error + Buffer sorted_queue" where
  "DataBlobParser_handle_blob dec read_types m_blob_num q data =
     err_bind (PBFPrimitiveBlockParser_call (decode_PrimitiveBlock dec data)
                 (PBFPrimitiveBlockParser read_types)) (\<lambda>buffer.
       (case push Buffer_invalid buffer m_blob_num q of
          Inl e \<Rightarrow> Inl (DequeMisuse e)
        | Inr q' \<Rightarrow> Inr q'))"

definition DataBlobParser_call ::
  "decoders \<Rightarrow> item_type set \<Rightarrow> nat \<Rightarrow> bytes \<Rightarrow> Buffer sorted_queue \<Rightarrow>
   pbf_error + Buffer sorted_queue" where
  "DataBlobParser_call dec read_types m_blob_num m_input_buffer q =
     BlobParser_call (dec_ndebug dec) (zlib_uncompress dec)
       (DataBlobParser_handle_blob dec read_types m_blob_num q)
       (decode_Blob dec m_input_buffer)"

definition HeaderBlobParser_call :: "decoders \<Rightarrow> bytes \<Rightarrow> Header \<Rightarrow> pbf_error + Header" where
  "HeaderBlobParser_call dec m_input_buffer m_header =
     BlobParser_call (dec_ndebug dec) (zlib_uncompress dec)
       (\<lambda>data. HeaderBlobParser_handle_blob (decode_HeaderBlock dec data) m_header)
       (decode_Blob dec m_input_buffer)"

text \<open>
  The state of a \<^verbatim>\<open>PBFInput\<close> and of the threads that work on it. The reader thread runs
  \<^verbatim>\<open>parse_osm_data\<close>; \<open>reader_n\<close> is its local counter \<open>n\<close>, and its position is the loop
  head, one of the two back-pressure loops, or the end (returned, or left by an
  exception). The consumer is the caller of \<^verbatim>\<open>next_buffer\<close>: it is outside a call or waits
  inside \<^verbatim>\<open>m_queue.wait_and_pop\<close>; \<open>handed_out\<close> lists what \<^verbatim>\<open>next_buffer\<close> has returned so far.
  Modelled from the spec: the thread pool holds the submitted jobs in a work queue, and
  any of the first \<^verbatim>\<open>m_num_threads\<close> jobs may finish next; a job that throws is
  recorded in \<open>failed_jobs\<close>.
\<close>

datatype reader_pc =
    reader_not_started
  | reader_at_loop
  | reader_wait_work
  | reader_wait_buffers
  | reader_returned
  | reader_threw pbf_error

datatype consumer_pc = consumer_outside | consumer_in_wait_and_pop

record PBFInput =
  fd :: bytes
  m_header :: Header
  m_num_threads :: nat
  m_queue_input :: "Buffer sorted_queue"
  m_done :: bool
  m_pending_jobs :: int
  work_queue :: "(bytes \<times> nat) list"
  failed_jobs :: "pbf_error list"
  reader_n :: nat
  reader :: reader_pc
  consumer :: consumer_pc
  handed_out :: "Buffer list"

definition m_max_work_queue_size :: "PBFInput \<Rightarrow> nat" where
  "m_max_work_queue_size s = m_num_threads s * 4"

definition m_max_buffer_queue_size :: "PBFInput \<Rightarrow> nat" where
  "m_max_buffer_queue_size s = 10 + m_num_threads s * 10"

text \<open>The constructor, for an opened file.\<close>

definition PBFInput :: "bytes \<Rightarrow> nat \<Rightarrow> PBFInput" where
  "PBFInput file num_threads =
     \<lparr>fd = file, m_header = Header_default, m_num_threads = num_threads,
      m_queue_input = SortedQueue Buffer_invalid, m_done = False, m_pending_jobs = 0,
      work_queue = [], failed_jobs = [], reader_n = 0, reader = reader_not_started,
      consumer = consumer_outside, handed_out = []\<rparr>"

text \<open>
  \<^verbatim>\<open>read\<close>: the header blob is read and decoded in the calling thread, and the reader
  thread is started unless nothing is to be read.
\<close>

definition read :: "decoders \<Rightarrow> item_type set \<Rightarrow> PBFInput \<Rightarrow> pbf_error + (Header \<times> PBFInput)" where
  "read dec read_types s =
     err_bind (read_blob_header dec ''OSMHeader'' (fd s)) (\<lambda>(blob_size, fd1).
     err_bind (BlobParser blob_size fd1) (\<lambda>(m_input_buffer, fd2).
     err_bind (HeaderBlobParser_call dec m_input_buffer (m_header s)) (\<lambda>h.
       Inr (h, s\<lparr>fd := fd2, m_header := h,
                  reader := (if read_types \<noteq> {} then reader_at_loop else reader_not_started)\<rparr>))))"

text \<open>
  One stretch of the reader thread in \<^verbatim>\<open>parse_osm_data\<close>, from one of its positions to the
  next; \<open>None\<close> if the thread cannot move (it has ended, or sleeps in a back-pressure
  loop whose condition holds).
\<close>

definition reader_step :: "decoders \<Rightarrow> item_type set \<Rightarrow> PBFInput \<Rightarrow> PBFInput option" where
  "reader_step dec read_types s =
     (case reader s of
        reader_at_loop \<Rightarrow>
          (case read_blob_header dec ''OSMData'' (fd s) of
             Inl e \<Rightarrow> Some (s\<lparr>reader := reader_threw e\<rparr>)
           | Inr (blob_size, fd1) \<Rightarrow>
               if blob_size = 0 then Some (s\<lparr>fd := fd1, m_done := True, reader := reader_returned\<rparr>)
               else
                 (case BlobParser blob_size fd1 of
                    Inl e \<Rightarrow> Some (s\<lparr>fd := fd1, reader := reader_threw e\<rparr>)
                  | Inr (m_input_buffer, fd2) \<Rightarrow>
                      (let s1 = s\<lparr>fd := fd2, m_pending_jobs := m_pending_jobs s + 1\<rparr> in
                       if m_num_threads s = 0 then
                         (case DataBlobParser_call dec read_types (reader_n s) m_input_buffer
                                 (m_queue_input s1) of
                            Inl e \<Rightarrow> Some (s1\<lparr>reader := reader_threw e\<rparr>)
                          | Inr q' \<Rightarrow>
                              Some (s1\<lparr>m_queue_input := q', reader_n := reader_n s + 1,
                                       reader := reader_wait_buffers\<rparr>))
                       else
                         Some (s1\<lparr>work_queue := work_queue s1 @ [(m_input_buffer, reader_n s)],
                                  reader := reader_wait_work\<rparr>))))
      | reader_wait_work \<Rightarrow>
          if \<not> m_done s \<and> length (work_queue s) \<ge> m_max_work_queue_size s then None
          else Some (s\<lparr>reader_n := reader_n s + 1, reader := reader_wait_buffers\<rparr>)
      | reader_wait_buffers \<Rightarrow>
          if \<not> m_done s \<and> size_q (m_queue_input s) > m_max_buffer_queue_size s then None
          else if m_done s then Some (s\<lparr>reader := reader_returned\<rparr>)
          else Some (s\<lparr>reader := reader_at_loop\<rparr>)
      | _ \<Rightarrow> None)"

text \<open>A worker of the pool finishes job \<open>k\<close> of the work queue.\<close>

definition worker_step :: "decoders \<Rightarrow> item_type set \<Rightarrow> nat \<Rightarrow> PBFInput \<Rightarrow> PBFInput option" where
  "worker_step dec read_types k s =
     (if k < length (work_queue s) \<and> k < m_num_threads s then
        (case work_queue s ! k of
           (m_input_buffer, m_blob_num) \<Rightarrow>
             (let s1 = s\<lparr>work_queue := take k (work_queue s) @ drop (k + 1) (work_queue s)\<rparr> in
              case DataBlobParser_call dec read_types m_blob_num m_input_buffer (m_queue_input s) of
                Inl e \<Rightarrow> Some (s1\<lparr>failed_jobs := failed_jobs s @ [e]\<rparr>)
              | Inr q' \<Rightarrow> Some (s1\<lparr>m_queue_input := q'\<rparr>)))
      else None)"

text \<open>
  \<^verbatim>\<open>next_buffer\<close>. Outside a call, the consumer calls it: the test
  \<^verbatim>\<open>!m_done || m_pending_jobs != 0\<close> sends it into \<^verbatim>\<open>wait_and_pop\<close> or lets the call return
  the default-constructed buffer. Inside \<^verbatim>\<open>wait_and_pop\<close> it can move only when the front
  slot of the queue is filled; then the call returns that buffer.
\<close>

definition consumer_step :: "PBFInput \<Rightarrow> PBFInput option" where
  "consumer_step s =
     (case consumer s of
        consumer_outside \<Rightarrow>
          if \<not> m_done s \<or> m_pending_jobs s \<noteq> 0
          then Some (s\<lparr>consumer := consumer_in_wait_and_pop\<rparr>)
          else Some (s\<lparr>handed_out := handed_out s @ [Buffer_invalid]\<rparr>)
      | consumer_in_wait_and_pop \<Rightarrow>
          (case wait_and_pop Buffer_invalid (m_queue_input s) of
             Inl e \<Rightarrow> None
           | Inr (buffer, q') \<Rightarrow>
               Some (s\<lparr>m_queue_input := q', m_pending_jobs := m_pending_jobs s - 1,
                        handed_out := handed_out s @ [buffer],
                        consumer := consumer_outside\<rparr>)))"

text \<open>A schedule is the order in which the threads move.\<close>

datatype thread = reader_thread | worker_thread nat | consumer_thread

definition pbf_step :: "decoders \<Rightarrow> item_type set \<Rightarrow> thread \<Rightarrow> PBFInput \<Rightarrow> PBFInput option" where
  "pbf_step dec read_types t s =
     (case t of
        reader_thread \<Rightarrow> reader_step dec read_types s
      | worker_thread k \<Rightarrow> worker_step dec read_types k s
      | consumer_thread \<Rightarrow> consumer_step s)"

fun pbf_run :: "decoders \<Rightarrow> item_type set \<Rightarrow> thread list \<Rightarrow> PBFInput \<Rightarrow> PBFInput option" where
  "pbf_run dec read_types [] s = Some s"
| "pbf_run dec read_types (t # ts) s =
     (case pbf_step dec read_types t s of
        None \<Rightarrow> None
      | Some s' \<Rightarrow> pbf_run dec read_types ts s')"

text \<open>
  Example decoders: a blob header is the byte \<open>H\<close> (an OSMHeader of one byte) or \<open>D\<close> (an
  OSMData of one byte), a blob carries its bytes raw, the data blob \<open>A\<close> is
  \<open>example_block\<close> and \<open>B\<close> is \<open>example_block_with_info\<close>. \<open>example_header_only\<close> is a file
  of one OSMHeader blob, \<open>example_file\<close> one of an OSMHeader blob and two OSMData blobs.
\<close>

definition example_decoders :: decoders where
  "example_decoders =
     \<lparr>decode_BlobHeader = (\<lambda>b.
        if b = ''H'' then Some \<lparr>header_type = ''OSMHeader'', header_datasize = 1\<rparr>
        else if b = ''D'' then Some \<lparr>header_type = ''OSMData'', header_datasize = 1\<rparr>
        else None),
      decode_Blob = (\<lambda>b. Some \<lparr>blob_raw = Some b, blob_raw_size = 0, blob_zlib_data = None,
                              blob_lzma_data = None\<rparr>),
      decode_HeaderBlock = (\<lambda>b. Some example_header_block),
      decode_PrimitiveBlock = (\<lambda>b.
        if b = ''A'' then Some example_block
        else if b = ''B'' then Some example_block_with_info
        else None),
      zlib_uncompress = example_uncompress,
      dec_ndebug = False\<rparr>"

definition frame :: "string \<Rightarrow> string \<Rightarrow> bytes" where
  "frame header blob = [CHR 0x00, CHR 0x00, CHR 0x00, CHR 0x01] @ header @ blob"

definition example_header_only :: bytes where
  "example_header_only = frame ''H'' ''h''"

definition example_file :: bytes where
  "example_file = frame ''H'' ''h'' @ frame ''D'' ''A'' @ frame ''D'' ''B''"

definition example_header :: Header where
  "example_header =
     \<lparr>m_has_multiple_object_versions = True, m_pbf_has_dense_nodes = True,
      m_generator = ''test'', m_bounds = []\<rparr>"

text \<open>
  The states of the examples after \<^verbatim>\<open>read\<close> has returned, and the state in which the
  header-only example ends when the consumer moves first.
\<close>

definition header_only_state :: PBFInput where
  "header_only_state =
     \<lparr>fd = [], m_header = example_header, m_num_threads = 2,
      m_queue_input = SortedQueue Buffer_invalid, m_done = False, m_pending_jobs = 0,
      work_queue = [], failed_jobs = [], reader_n = 0, reader = reader_at_loop,
      consumer = consumer_outside, handed_out = []\<rparr>"

definition header_only_deadlock :: PBFInput where
  "header_only_deadlock =
     header_only_state\<lparr>m_done := True, reader := reader_returned,
       consumer := consumer_in_wait_and_pop\<rparr>"

definition example_file_state :: PBFInput where
  "example_file_state =
     header_only_state\<lparr>fd := frame ''D'' ''A'' @ frame ''D'' ''B''\<rparr>"

text \<open>
  The state in which \<open>example_file\<close> ends when the consumer asks for a third buffer
  before the reader thread has found the end of the file.
\<close>

definition example_file_deadlock :: PBFInput where
  "example_file_deadlock =
     header_only_state\<lparr>m_queue_input := \<lparr>m_queue = [Buffer_invalid], m_offset = 2\<rparr>,
       m_done := True, reader_n := 2, reader := reader_returned,
       consumer := consumer_in_wait_and_pop,
       handed_out :=
         [Buffer (map Node_item example_dense_decoded),
          Buffer (Node_item example_node_decoded #
                  map Node_item example_dense_with_info_decoded)]\<rparr>"


section \<open>The writer (include/osmium/io/writer.hpp)\<close>

text \<open>
  The state of a \<^verbatim>\<open>Writer\<close> is its status, its internal buffer and buffer size, and what
  it has done to its collaborators: the buffers handed to \<^verbatim>\<open>m_output->write_buffer\<close>, the
  number of completed \<^verbatim>\<open>m_output->write_end\<close> calls, and what it added to the output queue
  itself. The output format, the future of the write thread and the size of an item are
  outside the class; they are the fields of an environment, each a function of the
  writer's state that says whether the call throws.
\<close>

datatype status = status_okay | status_error | status_closed

datatype exn = io_error string | buffer_is_full | other_exception string

datatype queue_event = queued_exception exn | end_of_data

text \<open>
  Modelled from the spec: the \<^verbatim>\<open>osmium::memory::Buffer\<close> a writer collects items in. A buffer
  that does not grow has a capacity and holds items, and \<^verbatim>\<open>push_back\<close> fails with
  \<^verbatim>\<open>buffer_is_full\<close> when the item does not fit. In the writer a default-constructed,
  invalid \<^verbatim>\<open>Buffer\<close> is \<open>None\<close>.
\<close>

record 'i wbuffer =
  wb_capacity :: nat
  wb_items :: "'i list"

record 'i Writer =
  m_status :: status
  m_wbuffer :: "'i wbuffer option"
  m_buffer_size :: nat
  m_output :: "'i wbuffer list"
  write_end_calls :: nat
  queue_events :: "queue_event list"

record 'i writer_env =
  padded_size :: "'i \<Rightarrow> nat"
  check_for_exception :: "'i Writer \<Rightarrow> exn option"
  write_buffer :: "'i Writer \<Rightarrow> 'i wbuffer \<Rightarrow> exn option"
  write_end :: "'i Writer \<Rightarrow> exn option"
  write_header :: "exn option"

definition committed :: "'i writer_env \<Rightarrow> 'i wbuffer \<Rightarrow> nat" where
  "committed env b = sum_list (map (padded_size env) (wb_items b))"

definition push_back :: "'i writer_env \<Rightarrow> 'i \<Rightarrow> 'i wbuffer \<Rightarrow> exn + 'i wbuffer" where
  "push_back env item b =
     (if committed env b + padded_size env item \<le> wb_capacity b
      then Inr (b\<lparr>wb_items := wb_items b @ [item]\<rparr>)
      else Inl buffer_is_full)"

definition new_wbuffer :: "nat \<Rightarrow> 'i wbuffer" where
  "new_wbuffer n = \<lparr>wb_capacity = n, wb_items = []\<rparr>"

definition default_buffer_size :: nat where
  "default_buffer_size = 10 * 1024 * 1024"

text \<open>The text of the \<^verbatim>\<open>io_error\<close> that \<^verbatim>\<open>write\<close> throws; \<open>CHR 0x27\<close> is the apostrophe.\<close>

definition not_okay_message :: string where
  "not_okay_message =
     ''Can not write to writer when in status '' @ [CHR 0x27] @ ''closed'' @ [CHR 0x27] @
     '' or '' @ [CHR 0x27] @ ''error'' @ [CHR 0x27]"

text \<open>
  The constructor, after the file is opened and the write thread started: the status is
  \<^verbatim>\<open>okay\<close>, the internal buffer invalid. If \<^verbatim>\<open>write_header\<close> throws, end-of-data is queued
  and there is no writer.
\<close>

definition Writer_new :: "'i writer_env \<Rightarrow> exn + 'i Writer" where
  "Writer_new env =
     (case write_header env of
        Some e \<Rightarrow> Inl e
      | None \<Rightarrow>
          Inr \<lparr>m_status = status_okay, m_wbuffer = None, m_buffer_size = default_buffer_size,
               m_output = [], write_end_calls = 0, queue_events = []\<rparr>)"

text \<open>
  A member function returns the exception that leaves it, if any, and the state it
  leaves behind. In \<^verbatim>\<open>write\<close>, the \<^verbatim>\<open>try\<close> block either completes or throws \<open>e\<close>; the handler
  queues \<open>e\<close>, calls \<^verbatim>\<open>write_end\<close> (which may throw in turn), sets the status to \<^verbatim>\<open>error\<close>
  and rethrows.
\<close>

definition Writer_write :: "'i writer_env \<Rightarrow> 'i wbuffer \<Rightarrow> 'i Writer \<Rightarrow> exn option \<times> 'i Writer" where
  "Writer_write env buffer w =
     (if m_status w \<noteq> status_okay then (Some (io_error not_okay_message), w)
      else
        (case (case check_for_exception env w of
                 Some e \<Rightarrow> Inl e
               | None \<Rightarrow>
                   if committed env buffer > 0
                   then (case write_buffer env w buffer of
                           Some e \<Rightarrow> Inl e
                         | None \<Rightarrow> Inr (w\<lparr>m_output := m_output w @ [buffer]\<rparr>))
                   else Inr w) of
           Inr w' \<Rightarrow> (None, w')
         | Inl e \<Rightarrow>
             (let w1 = w\<lparr>queue_events := queue_events w @ [queued_exception e]\<rparr>
              in case write_end env w1 of
                   Some e' \<Rightarrow> (Some e', w1)
                 | None \<Rightarrow>
                     (Some e, w1\<lparr>write_end_calls := write_end_calls w1 + 1,
                                 m_status := status_error\<rparr>))))"

definition flush :: "'i writer_env \<Rightarrow> 'i Writer \<Rightarrow> exn option \<times> 'i Writer" where
  "flush env w =
     (case m_wbuffer w of
        Some b \<Rightarrow>
          if m_status w = status_okay \<and> committed env b > 0
          then Writer_write env b (w\<lparr>m_wbuffer := Some (new_wbuffer (m_buffer_size w))\<rparr>)
          else (None, w)
      | None \<Rightarrow> (None, w))"

text \<open>\<^verbatim>\<open>operator()(osmium::memory::Buffer&&)\<close>: \<^verbatim>\<open>flush(); write(std::move(buffer));\<close>\<close>

definition Writer_call_buffer ::
  "'i writer_env \<Rightarrow> 'i wbuffer \<Rightarrow> 'i Writer \<Rightarrow> exn option \<times> 'i Writer" where
  "Writer_call_buffer env buffer w =
     (case flush env w of
        (Some e, w1) \<Rightarrow> (Some e, w1)
      | (None, w1) \<Rightarrow> Writer_write env buffer w1)"

text \<open>
  \<^verbatim>\<open>operator()(const osmium::memory::Item&)\<close>: an invalid internal buffer is replaced by a
  new one, the item is appended, and a full buffer is flushed once before the second
  attempt.
\<close>

definition Writer_call_item :: "'i writer_env \<Rightarrow> 'i \<Rightarrow> 'i Writer \<Rightarrow> exn option \<times> 'i Writer" where
  "Writer_call_item env item w =
     (let b0 = (case m_wbuffer w of None \<Rightarrow> new_wbuffer (m_buffer_size w) | Some b \<Rightarrow> b);
          w0 = w\<lparr>m_wbuffer := Some b0\<rparr>
      in case push_back env item b0 of
           Inr b1 \<Rightarrow> (None, w0\<lparr>m_wbuffer := Some b1\<rparr>)
         | Inl e0 \<Rightarrow>
             if e0 = buffer_is_full then
               (case flush env w0 of
                  (Some e, w1) \<Rightarrow> (Some e, w1)
                | (None, w1) \<Rightarrow>
                    (case push_back env item
                            (case m_wbuffer w1 of
                               None \<Rightarrow> new_wbuffer (m_buffer_size w1)
                             | Some b \<Rightarrow> b) of
                       Inr b2 \<Rightarrow> (None, w1\<lparr>m_wbuffer := Some b2\<rparr>)
                     | Inl e \<Rightarrow> (Some e, w1)))
             else (Some e0, w0))"

text \<open>
  \<^verbatim>\<open>close()\<close>: in status \<^verbatim>\<open>okay\<close> a non-empty internal buffer is written, the status is set
  to \<^verbatim>\<open>closed\<close> and then \<^verbatim>\<open>write_end\<close> is called; end-of-data is queued if no exception
  has left the function before.
\<close>

definition close :: "'i writer_env \<Rightarrow> 'i Writer \<Rightarrow> exn option \<times> 'i Writer" where
  "close env w =
     (case (if m_status w = status_okay then
              (case (case m_wbuffer w of
                       Some b \<Rightarrow> if committed env b > 0 then Writer_write env b w else (None, w)
                     | None \<Rightarrow> (None, w)) of
                 (Some e, w1) \<Rightarrow> (Some e, w1)
               | (None, w1) \<Rightarrow>
                   (let w2 = w1\<lparr>m_status := status_closed\<rparr>
                    in case write_end env w2 of
                         Some e \<Rightarrow> (Some e, w2)
                       | None \<Rightarrow> (None, w2\<lparr>write_end_calls := write_end_calls w2 + 1\<rparr>)))
            else (None, w)) of
        (Some e, w') \<Rightarrow> (Some e, w')
      | (None, w') \<Rightarrow> (None, w'\<lparr>queue_events := queue_events w' @ [end_of_data]\<rparr>))"

text \<open>The destructor calls \<^verbatim>\<open>close()\<close> and swallows its exception.\<close>

definition Writer_destructor :: "'i writer_env \<Rightarrow> 'i Writer \<Rightarrow> 'i Writer" where
  "Writer_destructor env w = snd (close env w)"

definition set_buffer_size :: "nat \<Rightarrow> 'i Writer \<Rightarrow> 'i Writer" where
  "set_buffer_size n w = w\<lparr>m_buffer_size := n\<rparr>"

text \<open>The calls a user can make on a writer, and their effect on its state.\<close>

datatype 'i writer_call =
    call_buffer "'i wbuffer"
  | call_item 'i
  | call_flush
  | call_close
  | call_set_buffer_size nat

definition writer_step ::
  "'i writer_env \<Rightarrow> 'i writer_call \<Rightarrow> 'i Writer \<Rightarrow> exn option \<times> 'i Writer" where
  "writer_step env c w =
     (case c of
        call_buffer b \<Rightarrow> Writer_call_buffer env b w
      | call_item i \<Rightarrow> Writer_call_item env i w
      | call_flush \<Rightarrow> flush env w
      | call_close \<Rightarrow> close env w
      | call_set_buffer_size n \<Rightarrow> (None, set_buffer_size n w))"

text \<open>An environment in which nothing fails and every item has size 8.\<close>

definition example_env :: "nat writer_env" where
  "example_env =
     \<lparr>padded_size = (\<lambda>i. 8), check_for_exception = (\<lambda>w. None),
      write_buffer = (\<lambda>w b. None), write_end = (\<lambda>w. None), write_header = None\<rparr>"

definition example_closed_writer :: "nat Writer" where
  "example_closed_writer =
     \<lparr>m_status = status_closed, m_wbuffer = None, m_buffer_size = default_buffer_size,
      m_output = [], write_end_calls = 1, queue_events = [end_of_data]\<rparr>"

section \<open>Properties of the sorted reorder queue\<close>

lemma sq_invD:
  assumes "sq_inv dflt P s out"
  shows "m_queue s \<noteq> []" and "m_offset s = length out"
    and "\<And>j. j < length (m_queue s) \<Longrightarrow>
           m_queue s ! j = (case P (m_offset s + j) of None \<Rightarrow> dflt | Some v \<Rightarrow> v)"
    and "\<And>n v. P n = Some v \<Longrightarrow> v \<noteq> dflt"
    and "\<And>n v. P n = Some v \<Longrightarrow> n + 2 < size_type_modulus"
    and "\<And>n v. P n = Some v \<Longrightarrow> n + 1 < m_offset s + length (m_queue s)"
    and "\<And>i. i < length out \<Longrightarrow> P i = Some (out ! i)"
  using assms unfolding sq_inv_def by blast+

lemma sq_inv_init: "sq_inv dflt Map.empty (SortedQueue dflt) []"
  by (simp add: sq_inv_def SortedQueue_def)

lemma push_no_wrap:
  assumes "m_offset s \<le> n" "n + 2 < size_type_modulus"
  shows "push dflt v n s =
     Inr (s\<lparr>m_queue := (if length (m_queue s) \<le> n - m_offset s + 1
                          then m_queue s @ replicate (n - m_offset s + 2 - length (m_queue s)) dflt
                          else m_queue s)[n - m_offset s := v]\<rparr>)"
proof -
  define k where "k = n - m_offset s"
  have k: "k + 2 < size_type_modulus" using assms by (simp add: k_def)
  have "n + size_type_modulus - m_offset s = k + size_type_modulus"
    using assms(1) by (simp add: k_def)
  then have a: "(n + size_type_modulus - m_offset s) mod size_type_modulus = k"
    using k by simp
  have b: "(k + 1) mod size_type_modulus = k + 1"
    by (rule mod_less) (use k in linarith)
  have c: "(k + 2) mod size_type_modulus = k + 2"
    by (rule mod_less) (rule k)
  have d: "k < length (if length (m_queue s) \<le> k + 1
              then resize dflt (k + 2) (m_queue s) else m_queue s)"
    by (simp add: resize_def)
  have e: "(if length (m_queue s) \<le> k + 1 then resize dflt (k + 2) (m_queue s) else m_queue s) =
     (if length (m_queue s) \<le> k + 1
      then m_queue s @ replicate (k + 2 - length (m_queue s)) dflt else m_queue s)"
    by (simp add: resize_def)
  have "push dflt v n s =
     Inr (s\<lparr>m_queue := (if length (m_queue s) \<le> k + 1
            then resize dflt (k + 2) (m_queue s) else m_queue s)[k := v]\<rparr>)"
    unfolding push_def Let_def a b c by (simp only: d if_True)
  then have "push dflt v n s =
     Inr (s\<lparr>m_queue := (if length (m_queue s) \<le> k + 1
            then m_queue s @ replicate (k + 2 - length (m_queue s)) dflt
            else m_queue s)[k := v]\<rparr>)"
    by (simp only: e)
  then show ?thesis unfolding k_def .
qed

lemma sq_inv_push:
  assumes inv: "sq_inv dflt P s out" and fresh: "P n = None"
    and v: "v \<noteq> dflt" and n: "n + 2 < size_type_modulus"
  shows "\<exists>s'. push dflt v n s = Inr s' \<and> sq_inv dflt (P(n \<mapsto> v)) s' out \<and>
     length (m_queue s') = max (length (m_queue s)) (n - m_offset s + 2) \<and> m_offset s' = m_offset s"
proof -
  note D = sq_invD [OF inv]
  have le: "m_offset s \<le> n"
  proof (rule ccontr)
    assume "\<not> m_offset s \<le> n"
    then have "n < length out" using D(2) by simp
    then have "P n = Some (out ! n)" by (rule D(7))
    with fresh show False by simp
  qed
  define k where "k = n - m_offset s"
  have nk: "n = m_offset s + k" using le by (simp add: k_def)
  define q' where "q' = (if length (m_queue s) \<le> k + 1
                          then m_queue s @ replicate (k + 2 - length (m_queue s)) dflt
                          else m_queue s)"
  define s' where "s' = s\<lparr>m_queue := q'[k := v]\<rparr>"
  have p: "push dflt v n s = Inr s'"
    unfolding s'_def q'_def k_def by (rule push_no_wrap [OF le n])
  have len: "length q' = max (length (m_queue s)) (k + 2)"
    by (auto simp: q'_def)
  have q'nth: "q' ! j = (case P (m_offset s + j) of None \<Rightarrow> dflt | Some v \<Rightarrow> v)" if "j < length q'" for j
  proof (cases "j < length (m_queue s)")
    case True
    then have "q' ! j = m_queue s ! j" by (simp add: q'_def nth_append)
    then show ?thesis using D(3) [OF True] by simp
  next
    case False
    then have "q' ! j = dflt" using that by (auto simp: q'_def nth_append split: if_splits)
    moreover have "P (m_offset s + j) = None"
    proof (cases "P (m_offset s + j)")
      case (Some w)
      then have "m_offset s + j + 1 < m_offset s + length (m_queue s)"
        by (rule D(6))
      with False show ?thesis by simp
    qed simp
    ultimately show ?thesis by simp
  qed
  have s'q: "m_queue s' = q'[k := v]" and s'o: "m_offset s' = m_offset s"
    by (simp_all add: s'_def)
  have "sq_inv dflt (P(n \<mapsto> v)) s' out"
    unfolding sq_inv_def s'q s'o
  proof (intro conjI allI impI)
    show "q'[k := v] \<noteq> []" using len by auto
    show "m_offset s = length out" by (rule D(2))
  next
    fix j assume "j < length (q'[k := v])"
    then have j: "j < length q'" by simp
    show "q'[k := v] ! j = (case (P(n \<mapsto> v)) (m_offset s + j) of None \<Rightarrow> dflt | Some v \<Rightarrow> v)"
    proof (cases "j = k")
      case True
      then show ?thesis using j nk by simp
    next
      case False
      then have "m_offset s + j \<noteq> n" using nk by simp
      then show ?thesis using False q'nth [OF j] by simp
    qed
  next
    fix m w assume a: "(P(n \<mapsto> v)) m = Some w"
    show "w \<noteq> dflt" using a v D(4) by (auto split: if_splits)
    show "m + 2 < size_type_modulus" using a n D(5) by (auto split: if_splits)
    show "m + 1 < m_offset s + length (q'[k := v])"
    proof (cases "m = n")
      case True
      then show ?thesis using len nk by simp
    next
      case False
      then have "P m = Some w" using a by simp
      then have "m + 1 < m_offset s + length (m_queue s)" by (rule D(6))
      then show ?thesis using len by simp
    qed
  next
    fix i assume i: "i < length out"
    then have "i \<noteq> n" using le D(2) by simp
    then show "(P(n \<mapsto> v)) i = Some (out ! i)" using D(7) [OF i] by simp
  qed
  then show ?thesis using p len by (auto simp: s'_def k_def)
qed

lemma sq_inv_empty_intern:
  assumes inv: "sq_inv dflt P s out"
  shows "empty_intern dflt s = Inr (P (m_offset s) = None)"
proof -
  note D = sq_invD [OF inv]
  from D(1) obtain x xs where q: "m_queue s = x # xs"
    by (cases "m_queue s") auto
  have "x = (case P (m_offset s) of None \<Rightarrow> dflt | Some v \<Rightarrow> v)"
    using D(3) [of 0] q by simp
  moreover have "\<And>v. P (m_offset s) = Some v \<Longrightarrow> v \<noteq> dflt"
    by (rule D(4))
  ultimately show ?thesis
    by (auto simp: empty_intern_def q split: option.splits)
qed

lemma sq_inv_pop_front:
  assumes inv: "sq_inv dflt P s out" and full: "P (m_offset s) = Some v"
  shows "\<exists>s'. pop_front s = (v, s') \<and> sq_inv dflt P s' (out @ [v]) \<and> m_offset s' = m_offset s + 1"
proof -
  note D = sq_invD [OF inv]
  from D(1) obtain x xs where q: "m_queue s = x # xs"
    by (cases "m_queue s") auto
  have x: "x = v" using D(3) [of 0] q full by simp
  have bound: "m_offset s + 2 < size_type_modulus" "m_offset s + 1 < m_offset s + length (m_queue s)"
    using D(5) [OF full] D(6) [OF full] by simp_all
  then have m: "(m_offset s + 1) mod size_type_modulus = m_offset s + 1" by simp
  have xs: "xs \<noteq> []" using bound q by auto
  define s' where "s' = s\<lparr>m_queue := xs, m_offset := m_offset s + 1\<rparr>"
  have p: "pop_front s = (v, s')" using m by (simp add: pop_front_def q x s'_def)
  have s'q: "m_queue s' = xs" and s'o: "m_offset s' = m_offset s + 1"
    by (simp_all add: s'_def)
  have "sq_inv dflt P s' (out @ [v])"
    unfolding sq_inv_def s'q s'o
  proof (intro conjI allI impI)
    show "xs \<noteq> []" by (rule xs)
    show "m_offset s + 1 = length (out @ [v])" using D(2) by simp
  next
    fix j assume "j < length xs"
    then have "Suc j < length (m_queue s)" by (simp add: q)
    then have "m_queue s ! Suc j = (case P (m_offset s + Suc j) of None \<Rightarrow> dflt | Some v \<Rightarrow> v)"
      by (rule D(3))
    then show "xs ! j = (case P (m_offset s + 1 + j) of None \<Rightarrow> dflt | Some v \<Rightarrow> v)"
      by (simp add: q)
  next
    fix n w assume a: "P n = Some w"
    show "w \<noteq> dflt" using a by (rule D(4))
    show "n + 2 < size_type_modulus" using a by (rule D(5))
    show "n + 1 < m_offset s + 1 + length xs" using D(6) [OF a] q by simp
  next
    fix i assume "i < length (out @ [v])"
    then consider "i < length out" | "i = length out" by fastforce
    then show "P i = Some ((out @ [v]) ! i)"
    proof cases
      case 1
      then show ?thesis using D(7) [OF 1] by (simp add: nth_append)
    next
      case 2
      then show ?thesis using full D(2) by simp
    qed
  qed
  then show ?thesis using p by (auto simp: s'_def)
qed

lemma sq_run_append:
  "sq_run dflt (xs @ ys) c =
     (case sq_run dflt xs c of Inl e \<Rightarrow> Inl e | Inr c' \<Rightarrow> sq_run dflt ys c')"
  by (induction xs arbitrary: c) (auto split: sum.splits)

lemma pushes_append: "pushes (xs @ ys) = pushes xs @ pushes ys"
  by (induction xs rule: pushes.induct) auto

lemma producers_ok_prefix: "producers_ok dflt (xs @ ys) \<Longrightarrow> producers_ok dflt xs"
  by (simp add: producers_ok_def pushes_append)

lemma producers_ok_snoc_push:
  assumes "producers_ok dflt (xs @ [Push v n])"
  shows "pushed_value xs n = None" and "v \<noteq> dflt" and "n + 2 < size_type_modulus"
    and "pushed_value (xs @ [Push v n]) = (pushed_value xs)(n \<mapsto> v)"
proof -
  from assms have fresh: "n \<notin> fst ` set (pushes xs)"
    by (simp add: producers_ok_def pushes_append)
  then show none: "pushed_value xs n = None"
    by (simp add: pushed_value_def map_of_eq_None_iff)
  from assms show "v \<noteq> dflt" and "n + 2 < size_type_modulus"
    by (simp_all add: producers_ok_def pushes_append)
  show "pushed_value (xs @ [Push v n]) = (pushed_value xs)(n \<mapsto> v)"
  proof
    fix m
    show "pushed_value (xs @ [Push v n]) m = ((pushed_value xs)(n \<mapsto> v)) m"
      using none by (cases "m = n") (auto simp: pushed_value_def pushes_append map_add_def split: option.splits)
  qed
qed

lemma pushed_value_snoc_pop:
  "pushed_value (xs @ [TryPop]) = pushed_value xs"
  "pushed_value (xs @ [WaitAndPop]) = pushed_value xs"
  by (simp_all add: pushed_value_def pushes_append)

text \<open>One call keeps the invariant; a pop that cannot proceed changes nothing.\<close>

lemma sq_step_inv:
  assumes ok: "producers_ok dflt (xs @ [x])" and inv: "sq_inv dflt (pushed_value xs) s out"
  shows "(\<exists>s' out'. sq_step dflt x (s, out) = Inr (s', out') \<and>
            sq_inv dflt (pushed_value (xs @ [x])) s' out') \<or>
         (x = WaitAndPop \<and> sq_step dflt x (s, out) = Inl Blocked)"
proof (cases x)
  case (Push v n)
  note P = producers_ok_snoc_push [OF ok [unfolded Push]]
  from sq_inv_push [OF inv P(1) P(2) P(3)] obtain s' where
    "push dflt v n s = Inr s'" "sq_inv dflt ((pushed_value xs)(n \<mapsto> v)) s' out"
    by blast
  then show ?thesis by (simp add: Push P(4))
next
  case TryPop
  note e = sq_inv_empty_intern [OF inv]
  show ?thesis
  proof (cases "pushed_value xs (m_offset s)")
    case None
    then show ?thesis using e inv by (simp add: TryPop try_pop_def pushed_value_snoc_pop)
  next
    case (Some v)
    from sq_inv_pop_front [OF inv Some] obtain s' where
      "pop_front s = (v, s')" "sq_inv dflt (pushed_value xs) s' (out @ [v])" by blast
    then show ?thesis using e Some by (simp add: TryPop try_pop_def pushed_value_snoc_pop)
  qed
next
  case WaitAndPop
  note e = sq_inv_empty_intern [OF inv]
  show ?thesis
  proof (cases "pushed_value xs (m_offset s)")
    case None
    then show ?thesis using e by (simp add: WaitAndPop wait_and_pop_def)
  next
    case (Some v)
    from sq_inv_pop_front [OF inv Some] obtain s' where
      "pop_front s = (v, s')" "sq_inv dflt (pushed_value xs) s' (out @ [v])" by blast
    then show ?thesis using e Some by (simp add: WaitAndPop wait_and_pop_def pushed_value_snoc_pop)
  qed
qed

lemma sq_run_inv:
  "producers_ok dflt xs \<Longrightarrow> sq_run dflt xs (SortedQueue dflt, []) = Inr (s, out) \<Longrightarrow>
   sq_inv dflt (pushed_value xs) s out"
proof (induction xs arbitrary: s out rule: rev_induct)
  case Nil
  then show ?case using sq_inv_init [of dflt] by (simp add: pushed_value_def)
next
  case (snoc x xs)
  from snoc.prems(2) obtain s1 out1 where
    r1: "sq_run dflt xs (SortedQueue dflt, []) = Inr (s1, out1)" and
    st: "sq_step dflt x (s1, out1) = Inr (s, out)"
    by (auto simp: sq_run_append split: sum.splits)
  have inv1: "sq_inv dflt (pushed_value xs) s1 out1"
    by (rule snoc.IH [OF producers_ok_prefix [OF snoc.prems(1)] r1])
  from sq_step_inv [OF snoc.prems(1) inv1] st show ?case by auto
qed

lemma sq_run_no_ub:
  "producers_ok dflt xs \<Longrightarrow> sq_run dflt xs (SortedQueue dflt, []) = Inl e \<Longrightarrow> e = Blocked"
proof (induction xs arbitrary: e rule: rev_induct)
  case Nil
  then show ?case by simp
next
  case (snoc x xs)
  show ?case
  proof (cases "sq_run dflt xs (SortedQueue dflt, [])")
    case (Inl e')
    then have "e' = e" using snoc.prems(2) by (simp add: sq_run_append)
    then show ?thesis using snoc.IH [OF producers_ok_prefix [OF snoc.prems(1)]] Inl by simp
  next
    case (Inr c)
    obtain s1 out1 where c: "c = (s1, out1)" by (cases c)
    have inv1: "sq_inv dflt (pushed_value xs) s1 out1"
      by (rule sq_run_inv [OF producers_ok_prefix [OF snoc.prems(1)] Inr [unfolded c]])
    have "sq_step dflt x (s1, out1) = Inl e"
      using snoc.prems(2) Inr c by (simp add: sq_run_append split: sum.splits)
    with sq_step_inv [OF snoc.prems(1) inv1] show ?thesis by auto
  qed
qed

lemma sq_inv_outputs:
  assumes "sq_inv dflt P s out"
  shows "map Some out = map P [0..<m_offset s]"
proof (rule nth_equalityI)
  show "length (map Some out) = length (map P [0..<m_offset s])"
    using sq_invD(2) [OF assms] by simp
next
  fix i assume "i < length (map Some out)"
  then have i: "i < length out" by simp
  then show "map Some out ! i = map P [0..<m_offset s] ! i"
    using sq_invD(7) [OF assms i] sq_invD(2) [OF assms] by simp
qed

lemma sq_inv_last:
  assumes inv: "sq_inv dflt P s out"
  shows "last (m_queue s) = dflt"
proof -
  note D = sq_invD [OF inv]
  let ?j = "length (m_queue s) - 1"
  have j: "?j < length (m_queue s)" using D(1) by simp
  have "P (m_offset s + ?j) = None"
  proof (cases "P (m_offset s + ?j)")
    case (Some w)
    from D(6) [OF Some] j show ?thesis by simp
  qed simp
  then have "m_queue s ! ?j = dflt" using D(3) [OF j] by simp
  then show ?thesis using D(1) by (simp add: last_conv_nth)
qed

text \<open>Rules that let the simplifier run the queue on numerals.\<close>

lemma replicate_numeral_unfold: "replicate (numeral k) x = x # replicate (pred_numeral k) x"
  by (simp add: numeral_eq_Suc)

lemma list_update_numeral_unfold: "(x # xs)[numeral k := y] = x # xs[pred_numeral k := y]"
  by (simp add: numeral_eq_Suc)

lemmas sq_eval = SortedQueue_def push_def resize_def try_pop_def wait_and_pop_def empty_intern_def
  empty_q_def size_q_def pop_front_def size_type_modulus_def producers_ok_def pushed_value_def
  replicate_numeral_unfold list_update_numeral_unfold

subsection \<open>Ordered hand-out\<close>

text \<open>
  Claim C1. Take any history of the queue, from its construction, in which every
  sequence number is pushed once, the pushes come in any order, and no pushed value
  equals \<^verbatim>\<open>T()\<close>. Cut it anywhere into \<open>xs\<close> and \<open>ys\<close>. The values that \<^verbatim>\<open>wait_and_pop\<close>
  and \<^verbatim>\<open>try_pop\<close> have handed out after \<open>xs\<close> are the values pushed, within \<open>xs\<close>, with the
  numbers \<open>0, 1, \<dots>\<close> up to the front offset, in this order; the values handed out
  during \<open>ys\<close> are appended to them and are the values pushed with the numbers from the
  front offset after \<open>xs\<close> up to the front offset after \<open>ys\<close>, ascending and without a
  gap. So the value of number \<open>n\<close> is handed out only after it has been pushed and
  after the values of all smaller numbers.
\<close>

theorem sorted_queue_pops_in_sequence_order:
  assumes ok: "producers_ok dflt (xs @ ys)"
    and r1: "sq_run dflt xs (SortedQueue dflt, []) = Inr (s1, out1)"
    and r2: "sq_run dflt ys (s1, out1) = Inr (s2, out2)"
  shows "map Some out1 = map (pushed_value xs) [0..<m_offset s1] \<and>
         m_offset s1 \<le> m_offset s2 \<and>
         take (length out1) out2 = out1 \<and>
         map Some (drop (length out1) out2) =
           map (pushed_value (xs @ ys)) [m_offset s1..<m_offset s2]"
proof -
  have inv1: "sq_inv dflt (pushed_value xs) s1 out1"
    by (rule sq_run_inv [OF producers_ok_prefix [OF ok] r1])
  have "sq_run dflt (xs @ ys) (SortedQueue dflt, []) = Inr (s2, out2)"
    using r1 r2 by (simp add: sq_run_append)
  then have inv2: "sq_inv dflt (pushed_value (xs @ ys)) s2 out2"
    by (rule sq_run_inv [OF ok])
  have o1: "map Some out1 = map (pushed_value xs) [0..<m_offset s1]"
    by (rule sq_inv_outputs [OF inv1])
  have o2: "map Some out2 = map (pushed_value (xs @ ys)) [0..<m_offset s2]"
    by (rule sq_inv_outputs [OF inv2])
  have grow: "take (length out1) out2 = out1"
    using r2
  proof (induction ys arbitrary: s1 out1)
    case Nil
    then show ?case by simp
  next
    case (Cons y ys)
    from Cons.prems obtain s' out' where
      st: "sq_step dflt y (s1, out1) = Inr (s', out')" and
      rest: "sq_run dflt ys (s', out') = Inr (s2, out2)"
      by (auto split: sum.splits)
    have "out' = out1 \<or> (\<exists>v. out' = out1 @ [v])"
      using st by (cases y) (auto split: sum.splits option.splits)
    moreover have "take (length out') out2 = out'"
      by (rule Cons.IH [OF rest])
    ultimately show ?case
      by (metis append_eq_conv_conj append_take_drop_id append_assoc)
  qed
  have l1: "length out1 = m_offset s1" and l2: "length out2 = m_offset s2"
    using sq_invD(2) [OF inv1] sq_invD(2) [OF inv2] by simp_all
  have le: "m_offset s1 \<le> m_offset s2"
    using grow l1 l2 by (metis length_take min.cobounded1 min.commute)
  have "map Some (drop (length out1) out2) = drop (m_offset s1) (map Some out2)"
    by (simp add: drop_map l1)
  also have "\<dots> = map (pushed_value (xs @ ys)) (drop (m_offset s1) [0..<m_offset s2])"
    by (simp add: o2 drop_map)
  also have "drop (m_offset s1) [0..<m_offset s2] = [m_offset s1..<m_offset s2]"
    by (simp add: drop_upt)
  finally show ?thesis using o1 le grow by simp
qed

theorem sorted_queue_pops_in_sequence_order_witness:
  "producers_ok (0::nat) ([Push (5::nat) 1, Push 3 0, TryPop] @ [WaitAndPop, Push 9 2, TryPop]) \<and>
   sq_run (0::nat) [Push (5::nat) 1, Push 3 0, TryPop] (SortedQueue 0, []) =
     Inr (\<lparr>m_queue = [5, 0], m_offset = 1\<rparr>, [3]) \<and>
   sq_run (0::nat) [WaitAndPop, Push 9 2, TryPop] (\<lparr>m_queue = [5, 0], m_offset = 1\<rparr>, [3]) =
     Inr (\<lparr>m_queue = [0], m_offset = 3\<rparr>, [3, 5, 9]) \<and>
   map Some [3::nat] = map (pushed_value [Push (5::nat) 1, Push 3 0, TryPop]) [0..<1] \<and>
   map Some (drop (length [3::nat]) [3, 5, 9]) =
     map (pushed_value ([Push (5::nat) 1, Push 3 0, TryPop] @ [WaitAndPop, Push 9 2, TryPop])) [1..<3]"
proof -
  have ok: "producers_ok (0::nat) ([Push (5::nat) 1, Push 3 0, TryPop] @ [WaitAndPop, Push 9 2, TryPop])"
    by (simp add: sq_eval)
  have r1: "sq_run (0::nat) [Push (5::nat) 1, Push 3 0, TryPop] (SortedQueue 0, []) =
     Inr (\<lparr>m_queue = [5, 0], m_offset = 1\<rparr>, [3])"
    by (simp add: sq_eval)
  have r2: "sq_run (0::nat) [WaitAndPop, Push 9 2, TryPop] (\<lparr>m_queue = [5, 0], m_offset = 1\<rparr>, [3]) =
     Inr (\<lparr>m_queue = [0], m_offset = 3\<rparr>, [3, 5, 9])"
    by (simp add: sq_eval)
  show ?thesis
    using ok r1 r2 sorted_queue_pops_in_sequence_order [OF ok r1 r2] by simp
qed

subsection \<open>The emptiness test\<close>

text \<open>
  Claim C3. In every state the queue reaches from its construction, under the producers'
  discipline (no pushed value equals \<^verbatim>\<open>T()\<close>), \<^verbatim>\<open>empty()\<close> returns true if and only if no
  push has filled the slot of the current front offset, that is, the sequence number
  \<^verbatim>\<open>m_offset\<close> has not been pushed; slots further back may be filled.
\<close>

theorem sorted_queue_empty_iff_front_unfilled:
  assumes "producers_ok dflt xs"
    and "sq_run dflt xs (SortedQueue dflt, []) = Inr (s, out)"
  shows "empty_q dflt s = Inr (m_offset s \<notin> fst ` set (pushes xs))"
proof -
  have inv: "sq_inv dflt (pushed_value xs) s out"
    by (rule sq_run_inv [OF assms])
  show ?thesis
    using sq_inv_empty_intern [OF inv]
    by (simp add: empty_q_def pushed_value_def map_of_eq_None_iff)
qed

theorem sorted_queue_empty_iff_front_unfilled_witness:
  "producers_ok (0::nat) [Push (5::nat) 1] \<and>
   sq_run (0::nat) [Push (5::nat) 1] (SortedQueue 0, []) = Inr (\<lparr>m_queue = [0, 5, 0], m_offset = 0\<rparr>, []) \<and>
   empty_q (0::nat) \<lparr>m_queue = [0, 5, 0], m_offset = 0\<rparr> = Inr True \<and>
   0 \<notin> fst ` set (pushes [Push (5::nat) 1])"
proof -
  have ok: "producers_ok (0::nat) [Push (5::nat) 1]"
    by (simp add: sq_eval)
  have r: "sq_run (0::nat) [Push (5::nat) 1] (SortedQueue 0, []) =
     Inr (\<lparr>m_queue = [0, 5, 0], m_offset = 0\<rparr>, [])"
    by (simp add: sq_eval)
  show ?thesis
    using ok r sorted_queue_empty_iff_front_unfilled [OF ok r] by simp
qed

subsection \<open>The deque always has a front\<close>

text \<open>
  Claim C10. The constructor allocates one slot. In every state the queue reaches from
  its construction by pushes under the producers' discipline and by pops, the deque
  holds at least one slot and its last slot is an unfilled spare, so the sentinel test
  of \<^verbatim>\<open>empty()\<close>, \<^verbatim>\<open>try_pop()\<close> and \<^verbatim>\<open>wait_and_pop()\<close> never reads the front of an empty
  deque, and no history runs into that or into an index out of range. A further push
  with number \<open>n\<close> succeeds and leaves the deque with at least \<open>n - m_offset + 2\<close> slots.
\<close>

theorem sorted_queue_front_slot_exists:
  assumes "producers_ok dflt xs"
  shows "size_q (SortedQueue dflt) = 1 \<and>
         sq_run dflt xs (SortedQueue dflt, []) \<noteq> Inl FrontOfEmptyDeque \<and>
         sq_run dflt xs (SortedQueue dflt, []) \<noteq> Inl IndexOutOfRange \<and>
         (\<forall>s out. sq_run dflt xs (SortedQueue dflt, []) = Inr (s, out) \<longrightarrow>
            1 \<le> size_q s \<and> last (m_queue s) = dflt \<and>
            empty_q dflt s \<noteq> Inl FrontOfEmptyDeque \<and>
            try_pop dflt s \<noteq> Inl FrontOfEmptyDeque \<and>
            wait_and_pop dflt s \<noteq> Inl FrontOfEmptyDeque \<and>
            (\<forall>v n. producers_ok dflt (xs @ [Push v n]) \<longrightarrow>
               (\<exists>s'. push dflt v n s = Inr s' \<and>
                     size_q s' = max (size_q s) (n - m_offset s + 2))))"
proof (intro conjI allI impI)
  show "size_q (SortedQueue dflt) = 1"
    by (simp add: size_q_def SortedQueue_def)
  show "sq_run dflt xs (SortedQueue dflt, []) \<noteq> Inl FrontOfEmptyDeque"
    using sq_run_no_ub [OF assms] by fastforce
  show "sq_run dflt xs (SortedQueue dflt, []) \<noteq> Inl IndexOutOfRange"
    using sq_run_no_ub [OF assms] by fastforce
next
  fix s out
  assume "sq_run dflt xs (SortedQueue dflt, []) = Inr (s, out)"
  then have inv: "sq_inv dflt (pushed_value xs) s out"
    by (rule sq_run_inv [OF assms])
  note e = sq_inv_empty_intern [OF inv]
  show "1 \<le> size_q s"
    using sq_invD(1) [OF inv] by (cases "m_queue s") (simp_all add: size_q_def)
  show "last (m_queue s) = dflt"
    by (rule sq_inv_last [OF inv])
  show "empty_q dflt s \<noteq> Inl FrontOfEmptyDeque"
    by (simp add: empty_q_def e)
  show "try_pop dflt s \<noteq> Inl FrontOfEmptyDeque"
    by (simp add: try_pop_def e split: prod.splits bool.splits)
  show "wait_and_pop dflt s \<noteq> Inl FrontOfEmptyDeque"
    by (simp add: wait_and_pop_def e split: bool.splits)
  fix v n
  assume ok: "producers_ok dflt (xs @ [Push v n])"
  note P = producers_ok_snoc_push [OF ok]
  from sq_inv_push [OF inv P(1) P(2) P(3)]
  show "\<exists>s'. push dflt v n s = Inr s' \<and> size_q s' = max (size_q s) (n - m_offset s + 2)"
    by (auto simp: size_q_def)
qed

theorem sorted_queue_front_slot_exists_witness:
  "producers_ok (0::nat) [Push 5 1, Push 3 0, TryPop] \<and>
   sq_run (0::nat) [Push 5 1, Push 3 0, TryPop] (SortedQueue 0, []) =
     Inr (\<lparr>m_queue = [5, 0], m_offset = 1\<rparr>, [3]) \<and>
   1 \<le> size_q \<lparr>m_queue = [5, 0::nat], m_offset = 1\<rparr> \<and>
   last (m_queue \<lparr>m_queue = [5, 0::nat], m_offset = 1\<rparr>) = 0 \<and>
   empty_q (0::nat) \<lparr>m_queue = [5, 0::nat], m_offset = 1\<rparr> \<noteq> Inl FrontOfEmptyDeque \<and>
   producers_ok (0::nat) ([Push 5 1, Push 3 0, TryPop] @ [Push 7 3]) \<and>
   (\<exists>s'. push (0::nat) 7 3 \<lparr>m_queue = [5, 0::nat], m_offset = 1\<rparr> = Inr s' \<and>
         size_q s' = max (size_q \<lparr>m_queue = [5, 0::nat], m_offset = 1\<rparr>)
                       (3 - m_offset \<lparr>m_queue = [5, 0::nat], m_offset = 1\<rparr> + 2))"
proof -
  let ?xs = "[Push (5::nat) 1, Push 3 0, TryPop]"
  let ?S = "\<lparr>m_queue = [5, 0::nat], m_offset = 1\<rparr>"
  have ok: "producers_ok 0 ?xs"
    by (simp add: sq_eval)
  have r: "sq_run 0 ?xs (SortedQueue 0, []) = Inr (?S, [3])"
    by (simp add: sq_eval)
  have ok': "producers_ok 0 (?xs @ [Push 7 3])"
    by (simp add: sq_eval)
  from sorted_queue_front_slot_exists [OF ok] r
  have inst: "1 \<le> size_q ?S \<and> last (m_queue ?S) = 0 \<and>
      empty_q 0 ?S \<noteq> Inl FrontOfEmptyDeque \<and>
      (\<forall>v n. producers_ok 0 (?xs @ [Push v n]) \<longrightarrow>
         (\<exists>s'. push 0 v n ?S = Inr s' \<and>
               size_q s' = max (size_q ?S) (n - m_offset ?S + 2)))"
    by blast
  with ok' have "\<exists>s'. push 0 7 3 ?S = Inr s' \<and>
      size_q s' = max (size_q ?S) (3 - m_offset ?S + 2)"
    by blast
  with ok r ok' inst show ?thesis by blast
qed

section \<open>Properties of the PBF decoder\<close>

subsection \<open>Auxiliary facts\<close>

lemma err_bind_Inr_iff: "err_bind m f = Inr y \<longleftrightarrow> (\<exists>x. m = Inr x \<and> f x = Inr y)"
  by (cases m) (simp_all add: err_bind_def)

lemma err_bind_Inr [simp]: "err_bind (Inr x) f = f x"
  by (simp add: err_bind_def)

lemma err_bind_Inl [simp]: "err_bind (Inl e) f = Inl e"
  by (simp add: err_bind_def)

lemma mul64_Inr: "mul64 a b = Inr c \<Longrightarrow> c = a * b"
  by (simp add: mul64_def split: if_splits)

lemma add64_Inr: "add64 a b = Inr c \<Longrightarrow> c = a + b"
  by (simp add: add64_def split: if_splits)

lemma fold_err_invariant:
  assumes "fold_err f xs s = Inr s'" and "P s"
    and "\<And>x a b. x \<in> set xs \<Longrightarrow> P a \<Longrightarrow> f x a = Inr b \<Longrightarrow> P b"
  shows "P s'"
  using assms
proof (induction xs arbitrary: s)
  case Nil
  then show ?case by simp
next
  case (Cons x xs)
  from Cons.prems(1) obtain s1 where s1: "f x s = Inr s1" and r: "fold_err f xs s1 = Inr s'"
    by (auto split: sum.splits)
  have "P s1" using Cons.prems(3) [of x s s1] Cons.prems(2) s1 by simp
  show ?case
  proof (rule Cons.IH [OF r \<open>P s1\<close>])
    fix y a b assume "y \<in> set xs" "P a" "f y a = Inr b"
    then show "P b" using Cons.prems(3) [of y a b] by simp
  qed
qed

lemma set_info_timestamp:
  assumes "set_info p (Some nfo) obj = Inr obj'"
  shows "timestamp obj' = info_timestamp nfo * m_date_factor p"
  using assms by (auto simp: set_info_def err_bind_Inr_iff dest: mul64_Inr)



lemma parse_node_timestamp:
  assumes "parse_node p pn = Inr n" "node_info pn = Some nfo"
  shows "timestamp n = info_timestamp nfo * m_date_factor p"
  using assms
  by (auto simp: parse_node_def err_bind_Inr_iff split: if_splits dest!: set_info_timestamp)

lemma parse_way_timestamp:
  assumes "parse_way p pw = Inr w" "way_info pw = Some nfo"
  shows "timestamp w = info_timestamp nfo * m_date_factor p"
  using assms
  by (auto simp: parse_way_def err_bind_Inr_iff dest!: set_info_timestamp)

lemma parse_relation_timestamp:
  assumes "parse_relation p pr = Inr r" "relation_info pr = Some nfo"
  shows "timestamp r = info_timestamp nfo * m_date_factor p"
  using assms
  by (auto simp: parse_relation_def err_bind_Inr_iff dest!: set_info_timestamp)

lemma repeated_Inr: "repeated xs (int i) = Inr x \<Longrightarrow> i < length xs \<and> x = xs ! i"
  by (simp add: repeated_def split: if_splits)

lemma dense_advance_tag:
  assumes "dense_advance dense i c = Inr (c1, vis)"
  shows "last_dense_tag c1 = last_dense_tag c"
  using assms unfolding dense_advance_def Let_def
  by (auto simp: err_bind_Inr_iff split: option.splits)

lemma dense_advance_noinfo:
  assumes "dense_advance dense i c = Inr (c1, vis)" "dense_denseinfo dense = None"
  shows "vis"
  using assms unfolding dense_advance_def Let_def
  by (auto simp: err_bind_Inr_iff)

lemma dense_advance_info:
  assumes "dense_advance dense i c = Inr (c1, vis)" "dense_denseinfo dense = Some di"
  shows "last_dense_timestamp c1 = last_dense_timestamp c + denseinfo_timestamp di ! i"
    and "i < length (denseinfo_timestamp di)"
    and "vis = (if denseinfo_visible di = [] then True else denseinfo_visible di ! i)"
    and "denseinfo_visible di \<noteq> [] \<Longrightarrow> i < length (denseinfo_visible di)"
  using assms unfolding dense_advance_def Let_def
  by (auto simp: err_bind_Inr_iff split: if_splits dest!: repeated_Inr add64_Inr)

lemma dense_build_facts:
  assumes "dense_build p dense i c vis = Inr (c', n)"
  shows "visible n = (case dense_denseinfo dense of None \<Rightarrow> True | Some di \<Rightarrow> vis)"
    and "\<not> visible n \<Longrightarrow> location n = Location_undefined"
    and "visible n \<Longrightarrow>
           pbf_location p (last_dense_longitude c) (last_dense_latitude c) = Inr (location n)"
    and "dense_denseinfo dense \<noteq> None \<Longrightarrow>
           timestamp n = last_dense_timestamp c * m_date_factor p"
    and "add_tags p dense (last_dense_tag c) = Inr (last_dense_tag c', tags n)"
    and "last_dense_timestamp c' = last_dense_timestamp c"
    and "last_dense_longitude c' = last_dense_longitude c"
    and "last_dense_latitude c' = last_dense_latitude c"
  using assms unfolding dense_build_def
  by (auto simp: err_bind_Inr_iff new_Node_def split: option.splits if_splits dest!: mul64_Inr)


lemma parse_dense_node_facts:
  assumes "parse_dense_node p dense i c = Inr (c', n)"
  shows "visible n \<longleftrightarrow>
           \<not> (\<exists>di. dense_denseinfo dense = Some di \<and> denseinfo_visible di \<noteq> [] \<and>
                   \<not> denseinfo_visible di ! i)"
    and "\<not> visible n \<Longrightarrow> location n = Location_undefined"
    and "visible n \<Longrightarrow>
           pbf_location p (last_dense_longitude c') (last_dense_latitude c') = Inr (location n)"
    and "\<And>di. dense_denseinfo dense = Some di \<Longrightarrow>
           last_dense_timestamp c' = last_dense_timestamp c + denseinfo_timestamp di ! i \<and>
           timestamp n = last_dense_timestamp c' * m_date_factor p"
    and "add_tags p dense (last_dense_tag c) = Inr (last_dense_tag c', tags n)"
proof -
  from assms obtain c1 vis where
    a: "dense_advance dense i c = Inr (c1, vis)" and
    b: "dense_build p dense i c1 vis = Inr (c', n)"
    by (auto simp: parse_dense_node_def err_bind_Inr_iff)
  note B = dense_build_facts [OF b]
  show "visible n \<longleftrightarrow>
           \<not> (\<exists>di. dense_denseinfo dense = Some di \<and> denseinfo_visible di \<noteq> [] \<and>
                   \<not> denseinfo_visible di ! i)"
  proof (cases "dense_denseinfo dense")
    case None
    then show ?thesis using B(1) by simp
  next
    case (Some di)
    then show ?thesis using B(1) dense_advance_info(3) [OF a Some] by simp
  qed
  show "\<not> visible n \<Longrightarrow> location n = Location_undefined" by (rule B(2))
  show "visible n \<Longrightarrow>
           pbf_location p (last_dense_longitude c') (last_dense_latitude c') = Inr (location n)"
    using B(3) B(7) B(8) by simp
  show "\<And>di. dense_denseinfo dense = Some di \<Longrightarrow>
           last_dense_timestamp c' = last_dense_timestamp c + denseinfo_timestamp di ! i \<and>
           timestamp n = last_dense_timestamp c' * m_date_factor p"
    using B(4) B(6) dense_advance_info(1) [OF a] by simp
  show "add_tags p dense (last_dense_tag c) = Inr (last_dense_tag c', tags n)"
    using B(5) dense_advance_tag [OF a] by simp
qed








lemma parse_group_date_factor:
  assumes "parse_group grp p = Inr p'"
  shows "m_date_factor p' = m_date_factor p"
proof -
  have n: "\<And>q q'. parse_node_group grp q = Inr q' \<Longrightarrow> m_date_factor q = m_date_factor p \<Longrightarrow>
             m_date_factor q' = m_date_factor p"
    unfolding parse_node_group_def
    by (erule fold_err_invariant) (auto simp: err_bind_Inr_iff)
  have w: "\<And>q q'. parse_way_group grp q = Inr q' \<Longrightarrow> m_date_factor q = m_date_factor p \<Longrightarrow>
             m_date_factor q' = m_date_factor p"
    unfolding parse_way_group_def
    by (erule fold_err_invariant) (auto simp: err_bind_Inr_iff)
  have r: "\<And>q q'. parse_relation_group grp q = Inr q' \<Longrightarrow> m_date_factor q = m_date_factor p \<Longrightarrow>
             m_date_factor q' = m_date_factor p"
    unfolding parse_relation_group_def
    by (erule fold_err_invariant) (auto simp: err_bind_Inr_iff)
  have d: "\<And>q'. parse_dense_node_group grp p = Inr q' \<Longrightarrow> m_date_factor q' = m_date_factor p"
    by (auto simp: parse_dense_node_group_def err_bind_Inr_iff split: option.splits)
  show ?thesis
    using assms n [of p p'] w [of p p'] r [of p p'] d [of p']
    unfolding parse_group_def by (auto split: if_splits)
qed

lemma parse_groups_date_factor:
  assumes "fold_err parse_group gs p = Inr p'"
  shows "m_date_factor p' = m_date_factor p"
proof -
  have "m_date_factor p' = m_date_factor p"
    using assms
  proof (rule fold_err_invariant [where P = "\<lambda>q. m_date_factor q = m_date_factor p"])
    show "m_date_factor p = m_date_factor p" by simp
  next
    fix x a b assume "m_date_factor a = m_date_factor p" "parse_group x a = Inr b"
    then show "m_date_factor b = m_date_factor p"
      using parse_group_date_factor [of x a b] by simp
  qed
  then show ?thesis .
qed

lemma cdiv_small: "- b < a \<Longrightarrow> a < b \<Longrightarrow> cdiv a b = 0"
  by (cases "a < 0") (simp_all add: cdiv_def)


lemma stringtable_s_Inr: "stringtable_s st i = Inr s \<Longrightarrow> s = tag_string st i"
  by (auto simp: stringtable_s_def tag_string_def repeated_def err_bind_Inr_iff split: if_splits)

lemma spec_take_tags_zero: "spec_take_tags (0 # rest) = ([], rest)"
  by (cases rest) simp_all

lemma add_tags_loop_spec:
  assumes "add_tags_loop p kv n acc = Inr (n', ts)" and "n \<le> length kv"
  shows "ts = acc @ map (tag_pair (m_stringtable p)) (fst (spec_take_tags (drop n kv))) \<and>
         n' \<le> length kv \<and> drop n' kv = snd (spec_take_tags (drop n kv))"
  using assms
proof (induction p kv n acc rule: add_tags_loop.induct)
  case (1 p kv n acc)
  show ?case
  proof (cases "n < length kv")
    case False
    then have "n = length kv" using "1.prems"(2) by simp
    then show ?thesis using "1.prems"(1) by (simp add: add_tags_loop.simps)
  next
    case True
    then have d: "drop n kv = kv ! n # drop (Suc n) kv"
      by (simp add: Cons_nth_drop_Suc)
    show ?thesis
    proof (cases "kv ! n = 0")
      case z: True
      then have "n' = n + 1" "ts = acc"
        using "1.prems"(1) True by (simp_all add: add_tags_loop.simps)
      then show ?thesis using True d z by (simp add: spec_take_tags_zero)
    next
      case nz: False
      from "1.prems"(1) True nz obtain k vi v where
        k: "stringtable_s (m_stringtable p) (kv ! n) = Inr k" and
        vi: "repeated kv (int (n + 1)) = Inr vi" and
        v: "stringtable_s (m_stringtable p) vi = Inr v" and
        rec: "add_tags_loop p kv (n + 2) (acc @ [(k, v)]) = Inr (n', ts)"
        by (subst (asm) add_tags_loop.simps) (auto simp: Let_def split: sum.splits)
      from repeated_Inr [OF vi] have n1: "n + 1 < length kv" and vi_eq: "vi = kv ! (n + 1)"
        by simp_all
      have d2: "drop n kv = kv ! n # kv ! (n + 1) # drop (n + 2) kv"
        using d n1 by (simp add: Cons_nth_drop_Suc)
      have le2: "n + 2 \<le> length kv" using n1 by simp
      have IH: "ts = (acc @ [(k, v)]) @
            map (tag_pair (m_stringtable p)) (fst (spec_take_tags (drop (n + 2) kv))) \<and>
          n' \<le> length kv \<and> drop n' kv = snd (spec_take_tags (drop (n + 2) kv))"
        using "1.IH" [OF True refl nz k vi v rec le2] .
      have kv: "(k, v) = tag_pair (m_stringtable p) (kv ! n, kv ! (n + 1))"
        using stringtable_s_Inr [OF k] stringtable_s_Inr [OF v] vi_eq
        by (simp add: tag_pair_def)
      show ?thesis
        using IH nz kv unfolding d2 by (simp split: prod.splits)
    qed
  qed
qed

lemma add_tags_spec:
  assumes "add_tags p dense n = Inr (n', ts)" and "n \<le> length (dense_keys_vals dense)"
  shows "ts = map (tag_pair (m_stringtable p)) (fst (spec_take_tags (drop n (dense_keys_vals dense)))) \<and>
         n' \<le> length (dense_keys_vals dense) \<and>
         drop n' (dense_keys_vals dense) = snd (spec_take_tags (drop n (dense_keys_vals dense)))"
proof (cases "n < length (dense_keys_vals dense)")
  case False
  then show ?thesis using assms by (simp add: add_tags_def)
next
  case True
  then have d: "drop n (dense_keys_vals dense) =
      dense_keys_vals dense ! n # drop (Suc n) (dense_keys_vals dense)"
    by (simp add: Cons_nth_drop_Suc)
  show ?thesis
  proof (cases "dense_keys_vals dense ! n = 0")
    case z: True
    then show ?thesis using assms True d by (auto simp: add_tags_def spec_take_tags_zero)
  next
    case False
    then have "add_tags_loop p (dense_keys_vals dense) n [] = Inr (n', ts)"
      using assms True by (simp add: add_tags_def)
    from add_tags_loop_spec [OF this assms(2)] show ?thesis by simp
  qed
qed

lemma dense_loop_spec:
  assumes "fold_err (\<lambda>i (c, ns).
        err_bind (parse_dense_node p dense i c) (\<lambda>(c', n). Inr (c', ns @ [n])))
       js (c, ns) = Inr (c', ns')"
    and "last_dense_tag c \<le> length (dense_keys_vals dense)"
  shows "\<exists>ms. ns' = ns @ ms \<and> length ms = length js \<and>
           map tags ms = map (map (tag_pair (m_stringtable p)))
             (spec_dense_tags (length js) (drop (last_dense_tag c) (dense_keys_vals dense)))"
  using assms
proof (induction js arbitrary: c ns)
  case Nil
  then show ?case by simp
next
  case (Cons j js)
  from Cons.prems(1) obtain c1 n1 where
    st: "parse_dense_node p dense j c = Inr (c1, n1)" and
    rest: "fold_err (\<lambda>i (c, ns).
        err_bind (parse_dense_node p dense i c) (\<lambda>(c', n). Inr (c', ns @ [n])))
       js (c1, ns @ [n1]) = Inr (c', ns')"
    by (auto simp: err_bind_Inr_iff split: sum.splits)
  from add_tags_spec [OF parse_dense_node_facts(5) [OF st] Cons.prems(2)]
  have t: "tags n1 = map (tag_pair (m_stringtable p))
        (fst (spec_take_tags (drop (last_dense_tag c) (dense_keys_vals dense))))"
    and le: "last_dense_tag c1 \<le> length (dense_keys_vals dense)"
    and dr: "drop (last_dense_tag c1) (dense_keys_vals dense) =
        snd (spec_take_tags (drop (last_dense_tag c) (dense_keys_vals dense)))"
    by simp_all
  from Cons.IH [OF rest le] obtain ms where
    ms: "ns' = (ns @ [n1]) @ ms" "length ms = length js"
      "map tags ms = map (map (tag_pair (m_stringtable p)))
         (spec_dense_tags (length js) (drop (last_dense_tag c1) (dense_keys_vals dense)))"
    by blast
  show ?case
  proof (intro exI conjI)
    show "ns' = ns @ (n1 # ms)" using ms(1) by simp
    show "length (n1 # ms) = length (j # js)" using ms(2) by simp
    show "map tags (n1 # ms) = map (map (tag_pair (m_stringtable p)))
        (spec_dense_tags (length (j # js)) (drop (last_dense_tag c) (dense_keys_vals dense)))"
      using t ms(3) dr by (simp split: prod.splits)
  qed
qed


subsection \<open>Dense tags\<close>

text \<open>
  Claim C4. Whenever \<^verbatim>\<open>parse_dense_node_group\<close> decodes a dense group, it commits one
  node per id, and the tags of the nodes are what the spec's rule reads from the flat
  \<^verbatim>\<open>keys_vals\<close> array with one cursor that runs through the whole group: each node takes
  (key, value) index pairs up to a 0, a node whose next index is 0 gets no tags, and
  the next node starts behind that 0. In particular, with \<^verbatim>\<open>keys_vals\<close>
  \<open>[1,2,0,0,3,4,0]\<close>, the string table \<open>["", "a", "b", "c", "d"]\<close> and three nodes, node 0
  gets exactly the tag a \<rightarrow> b, node 1 no tag, and node 2 exactly the tag c \<rightarrow> d.
\<close>

theorem dense_tags_single_cursor:
  assumes "parse_dense_node_group grp p = Inr p'" and "group_dense grp = Some dense"
  shows "\<exists>ns. m_buffer p' = m_buffer p @ map Node_item ns \<and>
           length ns = length (dense_id dense) \<and>
           map tags ns = map (map (tag_pair (m_stringtable p)))
             (spec_dense_tags (length (dense_id dense)) (dense_keys_vals dense)) \<and>
           (dense_keys_vals dense = [1, 2, 0, 0, 3, 4, 0] \<and>
            m_stringtable p = ['''', ''a'', ''b'', ''c'', ''d''] \<and>
            length (dense_id dense) = 3 \<longrightarrow>
            map tags ns = [[(''a'', ''b'')], [], [(''c'', ''d'')]])"
proof -
  from assms obtain c ns where
    dn: "dense_nodes p dense = Inr (c, ns)" and
    buf: "m_buffer p' = m_buffer p @ map Node_item ns"
    by (auto simp: parse_dense_node_group_def err_bind_Inr_iff)
  from dense_loop_spec [OF dn [unfolded dense_nodes_def]]
  have len: "length ns = length (dense_id dense)"
    and tg: "map tags ns = map (map (tag_pair (m_stringtable p)))
             (spec_dense_tags (length (dense_id dense)) (dense_keys_vals dense))"
    by (auto simp: dense_cursor_init_def)
  have ex: "map tags ns = [[(''a'', ''b'')], [], [(''c'', ''d'')]]"
    if "dense_keys_vals dense = [1, 2, 0, 0, 3, 4, 0] \<and>
        m_stringtable p = ['''', ''a'', ''b'', ''c'', ''d''] \<and> length (dense_id dense) = 3"
  proof -
    have "spec_dense_tags 3 [1, 2, 0, 0, 3, 4, 0] = [[(1, 2)], [], [(3, 4)]]"
      by (simp add: numeral_3_eq_3)
    then show ?thesis
      using tg that by (simp add: tag_pair_def tag_string_def to_int32_def c_str_def)
  qed
  show ?thesis
  proof (rule exI [of _ ns], intro conjI impI)
    show "m_buffer p' = m_buffer p @ map Node_item ns" by (rule buf)
    show "length ns = length (dense_id dense)" by (rule len)
    show "map tags ns = map (map (tag_pair (m_stringtable p)))
             (spec_dense_tags (length (dense_id dense)) (dense_keys_vals dense))" by (rule tg)
    show "map tags ns = [[(''a'', ''b'')], [], [(''c'', ''d'')]]"
      if "dense_keys_vals dense = [1, 2, 0, 0, 3, 4, 0] \<and>
          m_stringtable p = ['''', ''a'', ''b'', ''c'', ''d''] \<and> length (dense_id dense) = 3"
      using that by (rule ex)
  qed
qed

theorem dense_tags_single_cursor_witness:
  "parse_dense_node_group example_group example_parser =
     Inr (example_parser\<lparr>m_buffer := map Node_item example_dense_decoded\<rparr>) \<and>
   group_dense example_group = Some example_dense \<and>
   dense_keys_vals example_dense = [1, 2, 0, 0, 3, 4, 0] \<and>
   m_stringtable example_parser = [[], ''a'', ''b'', ''c'', ''d''] \<and>
   length (dense_id example_dense) = 3 \<and>
   (\<exists>ns. m_buffer (example_parser\<lparr>m_buffer := map Node_item example_dense_decoded\<rparr>) =
           m_buffer example_parser @ map Node_item ns \<and>
         map tags ns = [[(''a'', ''b'')], [], [(''c'', ''d'')]])"
proof -
  have r: "parse_dense_node_group example_group example_parser =
     Inr (example_parser\<lparr>m_buffer := map Node_item example_dense_decoded\<rparr>)"
    by code_simp
  have g: "group_dense example_group = Some example_dense"
    by (simp add: example_group_def)
  have k: "dense_keys_vals example_dense = [1, 2, 0, 0, 3, 4, 0]"
    "m_stringtable example_parser = [[], ''a'', ''b'', ''c'', ''d'']"
    "length (dense_id example_dense) = 3"
    by (simp_all add: example_dense_def example_parser_def example_block_def load_block_def)
  from dense_tags_single_cursor [OF r g] obtain ns where
    n1: "m_buffer (example_parser\<lparr>m_buffer := map Node_item example_dense_decoded\<rparr>) =
           m_buffer example_parser @ map Node_item ns" and
    n2: "dense_keys_vals example_dense = [1, 2, 0, 0, 3, 4, 0] \<and>
         m_stringtable example_parser = [[], ''a'', ''b'', ''c'', ''d''] \<and>
         length (dense_id example_dense) = 3 \<longrightarrow>
         map tags ns = [[(''a'', ''b'')], [], [(''c'', ''d'')]]"
    by (elim exE conjE)
  have "map tags ns = [[(''a'', ''b'')], [], [(''c'', ''d'')]]"
    by (rule mp [OF n2]) (intro conjI k)
  with n1 have e: "\<exists>ns. m_buffer (example_parser\<lparr>m_buffer := map Node_item example_dense_decoded\<rparr>) =
           m_buffer example_parser @ map Node_item ns \<and>
         map tags ns = [[(''a'', ''b'')], [], [(''c'', ''d'')]]"
    by (intro exI conjI)
  show ?thesis by (intro conjI r g k e)
qed


subsection \<open>Visibility and location\<close>



subsection \<open>Timestamps\<close>

lemma fold_err_upt_invariant:
  assumes "fold_err f [k..<n] s = Inr s'" and "P k s" and "k \<le> n"
    and "\<And>i a b. k \<le> i \<Longrightarrow> i < n \<Longrightarrow> P i a \<Longrightarrow> f i a = Inr b \<Longrightarrow> P (Suc i) b"
  shows "P n s'"
  using assms
proof (induction "n - k" arbitrary: k s)
  case 0
  then show ?case by simp
next
  case (Suc m)
  then have kn: "k < n" by simp
  from Suc.prems(1) obtain s1 where s1: "f k s = Inr s1"
    and r: "fold_err f [Suc k..<n] s1 = Inr s'"
    using kn by (auto simp: upt_conv_Cons split: sum.splits)
  have p1: "P (Suc k) s1" using Suc.prems(4) [of k s s1] kn Suc.prems(2) s1 by simp
  have m: "m = n - Suc k" using Suc.hyps(2) by simp
  show ?case
  proof (rule Suc.hyps(1) [OF m r p1])
    show "Suc k \<le> n" using kn by simp
    fix i a b assume "Suc k \<le> i" "i < n" "P i a" "f i a = Inr b"
    then show "P (Suc i) b" using Suc.prems(4) [of i a b] by simp
  qed
qed

lemma fold_err_items:
  assumes "fold_err (\<lambda>x q. err_bind (g q x) (\<lambda>y. Inr (q\<lparr>m_buffer := m_buffer q @ [mk y]\<rparr>))) xs p
             = Inr p'"
    and "m_date_factor p = f"
    and "\<And>q x y. g q x = Inr y \<Longrightarrow> m_date_factor q = f \<Longrightarrow> timestamp_rule f (mk y) (h x)"
  shows "\<exists>new. m_buffer p' = m_buffer p @ new \<and>
           list_all2 (timestamp_rule f) new (map h xs) \<and>
           m_date_factor p' = f \<and> m_read_types p' = m_read_types p"
  using assms(1,2)
proof (induction xs arbitrary: p)
  case Nil
  then show ?case by simp
next
  case (Cons x xs)
  from Cons.prems(1) obtain y where y: "g p x = Inr y"
    and r: "fold_err (\<lambda>x q. err_bind (g q x) (\<lambda>y. Inr (q\<lparr>m_buffer := m_buffer q @ [mk y]\<rparr>))) xs
              (p\<lparr>m_buffer := m_buffer p @ [mk y]\<rparr>) = Inr p'"
    by (auto simp: err_bind_Inr_iff split: sum.splits)
  have t: "timestamp_rule f (mk y) (h x)" using assms(3) [OF y Cons.prems(2)] .
  from Cons.IH [OF r] Cons.prems(2) obtain new where
    n: "m_buffer p' = (m_buffer p @ [mk y]) @ new" "list_all2 (timestamp_rule f) new (map h xs)"
       "m_date_factor p' = f" "m_read_types p' = m_read_types p"
    by auto
  show ?case
  proof (intro exI conjI)
    show "m_buffer p' = m_buffer p @ (mk y # new)" using n(1) by simp
    show "list_all2 (timestamp_rule f) (mk y # new) (map h (x # xs))" using t n(2) by simp
    show "m_date_factor p' = f" by (rule n(3))
    show "m_read_types p' = m_read_types p" by (rule n(4))
  qed
qed

lemma set_info_None_timestamp:
  assumes "set_info p None obj = Inr obj'"
  shows "timestamp obj' = timestamp obj"
  using assms by (auto simp: set_info_def)

lemma parse_node_no_info_timestamp:
  assumes "parse_node p pn = Inr n" "node_info pn = None"
  shows "timestamp n = 0"
  using assms
  by (auto simp: parse_node_def err_bind_Inr_iff new_Node_def split: if_splits
      dest!: set_info_None_timestamp)

lemma parse_way_no_info_timestamp:
  assumes "parse_way p pw = Inr w" "way_info pw = None"
  shows "timestamp w = 0"
  using assms
  by (auto simp: parse_way_def err_bind_Inr_iff new_Way_def dest!: set_info_None_timestamp)

lemma parse_relation_no_info_timestamp:
  assumes "parse_relation p pr = Inr r" "relation_info pr = None"
  shows "timestamp r = 0"
  using assms
  by (auto simp: parse_relation_def err_bind_Inr_iff new_Relation_def
      dest!: set_info_None_timestamp)

lemma parse_node_timestamp_rule:
  assumes "parse_node q x = Inr y"
  shows "timestamp_rule (m_date_factor q) (Node_item y) (info_pbf_timestamp (node_info x))"
  using parse_node_timestamp [OF assms] parse_node_no_info_timestamp [OF assms]
  by (cases "node_info x")
    (simp_all add: timestamp_rule_def info_pbf_timestamp_def item_timestamp_def)

lemma parse_way_timestamp_rule:
  assumes "parse_way q x = Inr y"
  shows "timestamp_rule (m_date_factor q) (Way_item y) (info_pbf_timestamp (way_info x))"
  using parse_way_timestamp [OF assms] parse_way_no_info_timestamp [OF assms]
  by (cases "way_info x")
    (simp_all add: timestamp_rule_def info_pbf_timestamp_def item_timestamp_def)

lemma parse_relation_timestamp_rule:
  assumes "parse_relation q x = Inr y"
  shows "timestamp_rule (m_date_factor q) (Relation_item y)
           (info_pbf_timestamp (relation_info x))"
  using parse_relation_timestamp [OF assms] parse_relation_no_info_timestamp [OF assms]
  by (cases "relation_info x")
    (simp_all add: timestamp_rule_def info_pbf_timestamp_def item_timestamp_def)

lemma parse_dense_node_no_info_timestamp:
  assumes "parse_dense_node p dense i c = Inr (c', n)" "dense_denseinfo dense = None"
  shows "timestamp n = 0"
proof -
  from assms(1) obtain c1 vis where b: "dense_build p dense i c1 vis = Inr (c', n)"
    by (auto simp: parse_dense_node_def err_bind_Inr_iff)
  show ?thesis
    using b assms(2) unfolding dense_build_def
    by (auto simp: err_bind_Inr_iff new_Node_def split: if_splits)
qed

lemma parse_dense_node_index:
  assumes "parse_dense_node p dense i c = Inr (c', n)" "dense_denseinfo dense = Some di"
  shows "i < length (denseinfo_timestamp di)"
proof -
  from assms(1) obtain c1 vis where a: "dense_advance dense i c = Inr (c1, vis)"
    by (auto simp: parse_dense_node_def err_bind_Inr_iff)
  show ?thesis by (rule dense_advance_info(2) [OF a assms(2)])
qed

lemma dense_timestamp_inv_step:
  assumes "dense_timestamp_inv p dense i a"
    and "(case a of (c, ns) \<Rightarrow>
            err_bind (parse_dense_node p dense i c) (\<lambda>(c', n). Inr (c', ns @ [n]))) = Inr b"
  shows "dense_timestamp_inv p dense (Suc i) b"
proof -
  obtain c ns where a: "a = (c, ns)" by (cases a)
  from assms(2) a obtain c' n where st: "parse_dense_node p dense i c = Inr (c', n)"
    and b: "b = (c', ns @ [n])"
    by (auto simp: err_bind_Inr_iff)
  have len: "length ns = i" using assms(1) a by (simp add: dense_timestamp_inv_def)
  show ?thesis
    unfolding dense_timestamp_inv_def b
  proof (intro conjI allI impI)
    show "length (snd (c', ns @ [n])) = Suc i" using len by simp
  next
    fix j assume no: "dense_denseinfo dense = None" and j: "j < Suc i"
    have old: "\<And>j. j < i \<Longrightarrow> timestamp (ns ! j) = 0"
      using assms(1) a no by (simp add: dense_timestamp_inv_def)
    from j consider "j < i" | "j = i" by linarith
    then show "timestamp (snd (c', ns @ [n]) ! j) = 0"
    proof cases
      case 1
      then show ?thesis using old [OF 1] len by (simp add: nth_append)
    next
      case 2
      then show ?thesis
        using parse_dense_node_no_info_timestamp [OF st no] len by (simp add: nth_append)
    qed
  next
    fix di assume di: "dense_denseinfo dense = Some di"
    have i: "i < length (denseinfo_timestamp di)" by (rule parse_dense_node_index [OF st di])
    have old: "last_dense_timestamp c = sum_list (take i (denseinfo_timestamp di))"
      "\<And>j. j < i \<Longrightarrow> timestamp (ns ! j) =
            sum_list (take (Suc j) (denseinfo_timestamp di)) * m_date_factor p"
      using assms(1) a di by (simp_all add: dense_timestamp_inv_def)
    from parse_dense_node_facts(4) [OF st di]
    have new: "last_dense_timestamp c' = last_dense_timestamp c + denseinfo_timestamp di ! i"
      and ts: "timestamp n = last_dense_timestamp c' * m_date_factor p"
      by simp_all
    show s: "last_dense_timestamp (fst (c', ns @ [n])) =
        sum_list (take (Suc i) (denseinfo_timestamp di))"
      using new old(1) i by (simp add: take_Suc_conv_app_nth)
    fix j assume "j < Suc i"
    then consider "j < i" | "j = i" by linarith
    then show "timestamp (snd (c', ns @ [n]) ! j) =
        sum_list (take (Suc j) (denseinfo_timestamp di)) * m_date_factor p"
    proof cases
      case 1
      then show ?thesis using old(2) [OF 1] len by (simp add: nth_append)
    next
      case 2
      then show ?thesis using ts s len by (simp add: nth_append)
    qed
  qed
qed

lemma dense_nodes_timestamps:
  assumes "dense_nodes p dense = Inr (c, ns)"
  shows "list_all2 (timestamp_rule (m_date_factor p)) (map Node_item ns)
           (dense_pbf_timestamps dense)"
proof -
  have inv: "dense_timestamp_inv p dense (length (dense_id dense)) (c, ns)"
    using assms [unfolded dense_nodes_def]
  proof (rule fold_err_upt_invariant)
    show "dense_timestamp_inv p dense 0 (dense_cursor_init, [])"
      by (simp add: dense_timestamp_inv_def dense_cursor_init_def)
    show "0 \<le> length (dense_id dense)" by simp
  next
    fix i a b
    assume "dense_timestamp_inv p dense i a"
      and "(case a of (c, ns) \<Rightarrow>
            err_bind (parse_dense_node p dense i c) (\<lambda>(c', n). Inr (c', ns @ [n]))) = Inr b"
    then show "dense_timestamp_inv p dense (Suc i) b" by (rule dense_timestamp_inv_step)
  qed
  show ?thesis
  proof (cases "dense_denseinfo dense")
    case None
    then show ?thesis
      using inv
      by (simp add: dense_pbf_timestamps_def dense_timestamp_inv_def list_all2_conv_all_nth
          timestamp_rule_def item_timestamp_def)
  next
    case (Some di)
    then show ?thesis
      using inv
      by (simp add: dense_pbf_timestamps_def dense_timestamp_inv_def list_all2_conv_all_nth
          timestamp_rule_def item_timestamp_def)
  qed
qed

lemma parse_group_timestamps:
  assumes "parse_group grp p = Inr p'"
  shows "\<exists>new. m_buffer p' = m_buffer p @ new \<and>
           list_all2 (timestamp_rule (m_date_factor p)) new
             (group_pbf_timestamps (m_read_types p) grp) \<and>
           m_date_factor p' = m_date_factor p \<and> m_read_types p' = m_read_types p"
proof -
  let ?f = "m_date_factor p"
  have skip: "\<exists>new. m_buffer p = m_buffer p @ new \<and> list_all2 (timestamp_rule ?f) new [] \<and>
           m_date_factor p = ?f \<and> m_read_types p = m_read_types p"
    by simp
  have n: "\<exists>new. m_buffer p' = m_buffer p @ new \<and>
           list_all2 (timestamp_rule ?f) new
             (map (\<lambda>n. info_pbf_timestamp (node_info n)) (group_nodes grp)) \<and>
           m_date_factor p' = ?f \<and> m_read_types p' = m_read_types p"
    if "parse_node_group grp p = Inr p'"
    using that [unfolded parse_node_group_def] refl
  proof (rule fold_err_items)
    fix q x y assume "parse_node q x = Inr y" "m_date_factor q = ?f"
    then show "timestamp_rule ?f (Node_item y) (info_pbf_timestamp (node_info x))"
      using parse_node_timestamp_rule [of q x y] by simp
  qed
  have w: "\<exists>new. m_buffer p' = m_buffer p @ new \<and>
           list_all2 (timestamp_rule ?f) new
             (map (\<lambda>w. info_pbf_timestamp (way_info w)) (group_ways grp)) \<and>
           m_date_factor p' = ?f \<and> m_read_types p' = m_read_types p"
    if "parse_way_group grp p = Inr p'"
    using that [unfolded parse_way_group_def] refl
  proof (rule fold_err_items)
    fix q x y assume "parse_way q x = Inr y" "m_date_factor q = ?f"
    then show "timestamp_rule ?f (Way_item y) (info_pbf_timestamp (way_info x))"
      using parse_way_timestamp_rule [of q x y] by simp
  qed
  have r: "\<exists>new. m_buffer p' = m_buffer p @ new \<and>
           list_all2 (timestamp_rule ?f) new
             (map (\<lambda>r. info_pbf_timestamp (relation_info r)) (group_relations grp)) \<and>
           m_date_factor p' = ?f \<and> m_read_types p' = m_read_types p"
    if "parse_relation_group grp p = Inr p'"
    using that [unfolded parse_relation_group_def] refl
  proof (rule fold_err_items)
    fix q x y assume "parse_relation q x = Inr y" "m_date_factor q = ?f"
    then show "timestamp_rule ?f (Relation_item y) (info_pbf_timestamp (relation_info x))"
      using parse_relation_timestamp_rule [of q x y] by simp
  qed
  have d: "\<exists>new. m_buffer p' = m_buffer p @ new \<and>
           list_all2 (timestamp_rule ?f) new (dense_pbf_timestamps dense) \<and>
           m_date_factor p' = ?f \<and> m_read_types p' = m_read_types p"
    if "parse_dense_node_group grp p = Inr p'" "group_dense grp = Some dense" for dense
  proof -
    from that obtain c ns where dn: "dense_nodes p dense = Inr (c, ns)"
      and p': "p' = p\<lparr>m_buffer := m_buffer p @ map Node_item ns\<rparr>"
      by (auto simp: parse_dense_node_group_def err_bind_Inr_iff)
    show ?thesis
      using dense_nodes_timestamps [OF dn] p' by auto
  qed
  show ?thesis
  proof (cases "group_dense grp")
    case (Some dense)
    then show ?thesis
      using assms d [OF _ Some] skip
      by (auto simp: parse_group_def group_pbf_timestamps_def split: if_splits)
  next
    case None
    then show ?thesis
      using assms n w r skip
      by (auto simp: parse_group_def group_pbf_timestamps_def split: if_splits)
  qed
qed

lemma parse_groups_timestamps:
  assumes "fold_err parse_group gs p = Inr p'"
  shows "\<exists>new. m_buffer p' = m_buffer p @ new \<and>
           list_all2 (timestamp_rule (m_date_factor p)) new
             (concat (map (group_pbf_timestamps (m_read_types p)) gs)) \<and>
           m_date_factor p' = m_date_factor p \<and> m_read_types p' = m_read_types p"
  using assms
proof (induction gs arbitrary: p)
  case Nil
  then show ?case by simp
next
  case (Cons g gs)
  from Cons.prems obtain p1 where g: "parse_group g p = Inr p1"
    and r: "fold_err parse_group gs p1 = Inr p'"
    by (auto split: sum.splits)
  from parse_group_timestamps [OF g] obtain new1 where
    n1: "m_buffer p1 = m_buffer p @ new1"
      "list_all2 (timestamp_rule (m_date_factor p)) new1
         (group_pbf_timestamps (m_read_types p) g)"
      "m_date_factor p1 = m_date_factor p" "m_read_types p1 = m_read_types p"
    by (elim exE conjE)
  from Cons.IH [OF r] obtain new2 where
    n2: "m_buffer p' = m_buffer p1 @ new2"
      "list_all2 (timestamp_rule (m_date_factor p1)) new2
         (concat (map (group_pbf_timestamps (m_read_types p1)) gs))"
      "m_date_factor p' = m_date_factor p1" "m_read_types p' = m_read_types p1"
    by (elim exE conjE)
  show ?case
  proof (intro exI conjI)
    show "m_buffer p' = m_buffer p @ (new1 @ new2)" using n1(1) n2(1) by simp
    show "list_all2 (timestamp_rule (m_date_factor p)) (new1 @ new2)
        (concat (map (group_pbf_timestamps (m_read_types p)) (g # gs)))"
      using n1(2) n2(2) n1(3,4) by (simp add: list_all2_appendI)
    show "m_date_factor p' = m_date_factor p" using n1(3) n2(3) by simp
    show "m_read_types p' = m_read_types p" using n1(4) n2(4) by simp
  qed
qed

lemma PBFPrimitiveBlockParser_call_timestamps:
  assumes "PBFPrimitiveBlockParser_call (Some blk) (PBFPrimitiveBlockParser read_types) = Inr buf"
  shows "\<exists>items. buf = Buffer items \<and>
           list_all2 (timestamp_rule (cdiv (block_date_granularity blk) 1000)) items
             (block_pbf_timestamps read_types blk)"
proof -
  let ?p = "load_block blk (PBFPrimitiveBlockParser read_types)"
  from assms obtain p' where f: "fold_err parse_group (block_primitivegroup blk) ?p = Inr p'"
    and b: "buf = Buffer (m_buffer p')"
    by (auto simp: PBFPrimitiveBlockParser_call_def err_bind_Inr_iff)
  have p: "m_buffer ?p = []" "m_date_factor ?p = cdiv (block_date_granularity blk) 1000"
    "m_read_types ?p = read_types"
    by (simp_all add: load_block_def PBFPrimitiveBlockParser_def)
  from parse_groups_timestamps [OF f] show ?thesis
    unfolding p b block_pbf_timestamps_def by auto
qed

lemma date_factor_facts:
  "m_date_factor (load_block blk p0) = cdiv (block_date_granularity blk) 1000 \<and>
   (\<forall>gs p'. fold_err parse_group gs (load_block blk p0) = Inr p' \<longrightarrow>
      m_date_factor p' = cdiv (block_date_granularity blk) 1000) \<and>
   (block_date_granularity blk = 1000 \<longrightarrow> m_date_factor (load_block blk p0) = 1) \<and>
   (- 1000 < block_date_granularity blk \<and> block_date_granularity blk < 1000 \<longrightarrow>
      m_date_factor (load_block blk p0) = 0)"
proof (intro conjI allI impI)
  show f: "m_date_factor (load_block blk p0) = cdiv (block_date_granularity blk) 1000"
    by (simp add: load_block_def)
  show "m_date_factor p' = cdiv (block_date_granularity blk) 1000"
    if "fold_err parse_group gs (load_block blk p0) = Inr p'" for gs p'
    using parse_groups_date_factor [OF that] f by simp
  show "m_date_factor (load_block blk p0) = 1" if "block_date_granularity blk = 1000"
    using that by (simp add: load_block_def cdiv_def)
  show "m_date_factor (load_block blk p0) = 0"
    if "- 1000 < block_date_granularity blk \<and> block_date_granularity blk < 1000"
    using that by (simp add: load_block_def cdiv_small)
qed

lemma entity_timestamp_facts:
  "(\<forall>n nfo. parse_node p pbf_node = Inr n \<and> node_info pbf_node = Some nfo \<longrightarrow>
      timestamp n = info_timestamp nfo * m_date_factor p) \<and>
   (\<forall>w nfo. parse_way p pbf_way = Inr w \<and> way_info pbf_way = Some nfo \<longrightarrow>
      timestamp w = info_timestamp nfo * m_date_factor p) \<and>
   (\<forall>r nfo. parse_relation p pbf_relation = Inr r \<and> relation_info pbf_relation = Some nfo \<longrightarrow>
      timestamp r = info_timestamp nfo * m_date_factor p) \<and>
   (\<forall>c' n di. parse_dense_node p dense i c = Inr (c', n) \<and> dense_denseinfo dense = Some di \<longrightarrow>
      last_dense_timestamp c' = last_dense_timestamp c + denseinfo_timestamp di ! i \<and>
      timestamp n = last_dense_timestamp c' * m_date_factor p)"
proof (intro conjI allI impI)
  show "timestamp n = info_timestamp nfo * m_date_factor p"
    if "parse_node p pbf_node = Inr n \<and> node_info pbf_node = Some nfo" for n nfo
    using that parse_node_timestamp by blast
  show "timestamp w = info_timestamp nfo * m_date_factor p"
    if "parse_way p pbf_way = Inr w \<and> way_info pbf_way = Some nfo" for w nfo
    using that parse_way_timestamp by blast
  show "timestamp r = info_timestamp nfo * m_date_factor p"
    if "parse_relation p pbf_relation = Inr r \<and> relation_info pbf_relation = Some nfo" for r nfo
    using that parse_relation_timestamp by blast
next
  fix c' n di
  assume a: "parse_dense_node p dense i c = Inr (c', n) \<and> dense_denseinfo dense = Some di"
  then have "last_dense_timestamp c' = last_dense_timestamp c + denseinfo_timestamp di ! i \<and>
      timestamp n = last_dense_timestamp c' * m_date_factor p"
    using parse_dense_node_facts(4) by blast
  then show "last_dense_timestamp c' = last_dense_timestamp c + denseinfo_timestamp di ! i"
    and "timestamp n = last_dense_timestamp c' * m_date_factor p"
    by simp_all
qed

text \<open>
  Claim C6, as stated, fails: the claim lets the factor be zero for every
  \<^verbatim>\<open>date_granularity\<close> below 1000, but the division truncates towards zero, so a granularity
  of \<open>-1000\<close> gives the factor \<open>-1\<close> and the timestamp 5 decodes to \<open>-5\<close>.
\<close>

theorem date_factor_below_1000_counterexample:
  "block_date_granularity example_block_negative < 1000 \<and>
   m_date_factor (load_block example_block_negative (PBFPrimitiveBlockParser {node})) = - 1 \<and>
   node_info example_node = Some example_info \<and>
   info_timestamp example_info = 5 \<and>
   parse_node (load_block example_block_negative (PBFPrimitiveBlockParser {node})) example_node =
     Inr (example_node_decoded\<lparr>timestamp := - 5\<rparr>)"
proof (intro conjI)
  show "block_date_granularity example_block_negative < 1000"
    by (simp add: example_block_negative_def)
  show "m_date_factor (load_block example_block_negative (PBFPrimitiveBlockParser {node})) = - 1"
    by (simp add: example_block_negative_def load_block_def cdiv_def)
  show "node_info example_node = Some example_info"
    by (simp add: example_node_def)
  show "info_timestamp example_info = 5"
    by (simp add: example_info_def)
  show "parse_node (load_block example_block_negative (PBFPrimitiveBlockParser {node}))
      example_node = Inr (example_node_decoded\<lparr>timestamp := - 5\<rparr>)"
    by code_simp
qed


text \<open>
  Claim C6, amended. Let \<^verbatim>\<open>operator()\<close> of a new parser decode a block without error (in
  particular without overflow of a signed 64-bit product or running sum). Then the
  buffer it returns holds one entity for every object of the block that the decoder
  reads, in the order of the file. The timestamp stored in an entity whose object
  carries info (a plain node, a way or a relation with an info message, a dense node
  with denseinfo) is the PBF timestamp of the object times the factor
  \<^verbatim>\<open>date_granularity / 1000\<close>, the integer division of C++; the spec reads the product as
  milliseconds since epoch. The PBF timestamp of a dense node is the sum of the
  timestamp deltas up to it, starting from 0 in every group. An entity whose object
  carries no info has the timestamp 0. For the granularity 1000 the factor is 1 and
  every entity with info carries its PBF timestamp; for every granularity strictly
  between \<open>-1000\<close> and 1000 the factor is 0 and every timestamp decodes to 0. The factor
  is set before the groups are decoded and keeps its value while they are, and the
  bodies of the four loops multiply by it.
\<close>

theorem timestamp_is_pbf_timestamp_times_date_factor:
  assumes "PBFPrimitiveBlockParser_call (Some blk) (PBFPrimitiveBlockParser read_types) = Inr buf"
  shows
  "(\<exists>items. buf = Buffer items \<and>
      list_all2 (timestamp_rule (cdiv (block_date_granularity blk) 1000)) items
        (block_pbf_timestamps read_types blk) \<and>
      (block_date_granularity blk = 1000 \<longrightarrow>
         map item_timestamp items =
           map (\<lambda>t. case t of None \<Rightarrow> 0 | Some pbf_timestamp \<Rightarrow> pbf_timestamp)
             (block_pbf_timestamps read_types blk)) \<and>
      (- 1000 < block_date_granularity blk \<and> block_date_granularity blk < 1000 \<longrightarrow>
         (\<forall>it \<in> set items. item_timestamp it = 0))) \<and>
   m_date_factor (load_block blk p0) = cdiv (block_date_granularity blk) 1000 \<and>
   (\<forall>gs p'. fold_err parse_group gs (load_block blk p0) = Inr p' \<longrightarrow>
      m_date_factor p' = cdiv (block_date_granularity blk) 1000) \<and>
   (block_date_granularity blk = 1000 \<longrightarrow> m_date_factor (load_block blk p0) = 1) \<and>
   (- 1000 < block_date_granularity blk \<and> block_date_granularity blk < 1000 \<longrightarrow>
      m_date_factor (load_block blk p0) = 0) \<and>
   (\<forall>n nfo. parse_node p pbf_node = Inr n \<and> node_info pbf_node = Some nfo \<longrightarrow>
      timestamp n = info_timestamp nfo * m_date_factor p) \<and>
   (\<forall>w nfo. parse_way p pbf_way = Inr w \<and> way_info pbf_way = Some nfo \<longrightarrow>
      timestamp w = info_timestamp nfo * m_date_factor p) \<and>
   (\<forall>r nfo. parse_relation p pbf_relation = Inr r \<and> relation_info pbf_relation = Some nfo \<longrightarrow>
      timestamp r = info_timestamp nfo * m_date_factor p) \<and>
   (\<forall>c' n di. parse_dense_node p dense i c = Inr (c', n) \<and> dense_denseinfo dense = Some di \<longrightarrow>
      last_dense_timestamp c' = last_dense_timestamp c + denseinfo_timestamp di ! i \<and>
      timestamp n = last_dense_timestamp c' * m_date_factor p)"
proof -
  let ?ts = "block_pbf_timestamps read_types blk"
  from PBFPrimitiveBlockParser_call_timestamps [OF assms] obtain items where
    b: "buf = Buffer items" and
    l: "list_all2 (timestamp_rule (cdiv (block_date_granularity blk) 1000)) items ?ts"
    by (elim exE conjE)
  have len: "length items = length ?ts"
    using l by (rule list_all2_lengthD)
  have nth: "timestamp_rule (cdiv (block_date_granularity blk) 1000) (items ! k) (?ts ! k)"
    if "k < length items" for k
    using l that by (simp add: list_all2_conv_all_nth)
  have one: "map item_timestamp items =
      map (\<lambda>t. case t of None \<Rightarrow> 0 | Some pbf_timestamp \<Rightarrow> pbf_timestamp) ?ts"
    if g: "block_date_granularity blk = 1000"
  proof (rule nth_equalityI)
    show "length (map item_timestamp items) =
        length (map (\<lambda>t. case t of None \<Rightarrow> 0 | Some pbf_timestamp \<Rightarrow> pbf_timestamp) ?ts)"
      using len by simp
    fix k assume "k < length (map item_timestamp items)"
    then have k: "k < length items" by simp
    show "map item_timestamp items ! k =
        map (\<lambda>t. case t of None \<Rightarrow> 0 | Some pbf_timestamp \<Rightarrow> pbf_timestamp) ?ts ! k"
      using nth [OF k] k len g
      by (cases "?ts ! k") (simp_all add: timestamp_rule_def cdiv_def)
  qed
  have zero: "\<forall>it \<in> set items. item_timestamp it = 0"
    if g: "- 1000 < block_date_granularity blk \<and> block_date_granularity blk < 1000"
  proof
    fix it assume "it \<in> set items"
    then obtain k where k: "k < length items" and it: "it = items ! k"
      by (auto simp: in_set_conv_nth)
    show "item_timestamp it = 0"
      using nth [OF k] g unfolding it
      by (cases "?ts ! k") (simp_all add: timestamp_rule_def cdiv_small)
  qed
  have first: "\<exists>items. buf = Buffer items \<and>
      list_all2 (timestamp_rule (cdiv (block_date_granularity blk) 1000)) items ?ts \<and>
      (block_date_granularity blk = 1000 \<longrightarrow>
         map item_timestamp items =
           map (\<lambda>t. case t of None \<Rightarrow> 0 | Some pbf_timestamp \<Rightarrow> pbf_timestamp) ?ts) \<and>
      (- 1000 < block_date_granularity blk \<and> block_date_granularity blk < 1000 \<longrightarrow>
         (\<forall>it \<in> set items. item_timestamp it = 0))"
  proof (intro exI conjI impI)
    show "buf = Buffer items" by (rule b)
    show "list_all2 (timestamp_rule (cdiv (block_date_granularity blk) 1000)) items ?ts"
      by (rule l)
    show "map item_timestamp items =
        map (\<lambda>t. case t of None \<Rightarrow> 0 | Some pbf_timestamp \<Rightarrow> pbf_timestamp) ?ts"
      if "block_date_granularity blk = 1000" by (rule one [OF that])
    show "\<forall>it \<in> set items. item_timestamp it = 0"
      if "- 1000 < block_date_granularity blk \<and> block_date_granularity blk < 1000"
      by (rule zero [OF that])
  qed
  show ?thesis
    using first date_factor_facts [of blk p0]
      entity_timestamp_facts [of p pbf_node pbf_way pbf_relation dense i c]
    by (intro conjI) (elim conjE, assumption)+
qed

theorem timestamp_is_pbf_timestamp_times_date_factor_witness:
  "PBFPrimitiveBlockParser_call (Some example_block_all_kinds)
       (PBFPrimitiveBlockParser {node, way, relation}) = Inr (Buffer (example_items 1)) \<and>
   block_date_granularity example_block_all_kinds = 1000 \<and>
   block_pbf_timestamps {node, way, relation} example_block_all_kinds =
     [Some 5, Some 5, Some 7, Some 5, Some 5, None, None, None] \<and>
   list_all2 (timestamp_rule (cdiv (block_date_granularity example_block_all_kinds) 1000))
     (example_items 1) (block_pbf_timestamps {node, way, relation} example_block_all_kinds) \<and>
   map item_timestamp (example_items 1) =
     map (\<lambda>t. case t of None \<Rightarrow> 0 | Some pbf_timestamp \<Rightarrow> pbf_timestamp)
       (block_pbf_timestamps {node, way, relation} example_block_all_kinds) \<and>
   map item_timestamp (example_items 1) = [5, 5, 7, 5, 5, 0, 0, 0] \<and>
   PBFPrimitiveBlockParser_call
       (Some (example_block_all_kinds\<lparr>block_date_granularity := 999\<rparr>))
       (PBFPrimitiveBlockParser {node, way, relation}) = Inr (Buffer (example_items 0)) \<and>
   - 1000 < block_date_granularity (example_block_all_kinds\<lparr>block_date_granularity := 999\<rparr>) \<and>
   block_date_granularity (example_block_all_kinds\<lparr>block_date_granularity := 999\<rparr>) < 1000 \<and>
   list_all (\<lambda>it. item_timestamp it = 0) (example_items 0) \<and>
   map item_timestamp (example_items 0) = [0, 0, 0, 0, 0, 0, 0, 0] \<and>
   m_date_factor (load_block (example_block_all_kinds\<lparr>block_date_granularity := 999\<rparr>)
     (PBFPrimitiveBlockParser {node, way, relation})) = 0 \<and>
   PBFPrimitiveBlockParser_call
       (Some (example_block_all_kinds\<lparr>block_date_granularity := 2500\<rparr>))
       (PBFPrimitiveBlockParser {node, way, relation}) = Inr (Buffer (example_items 2)) \<and>
   list_all2
     (timestamp_rule
        (cdiv (block_date_granularity
                 (example_block_all_kinds\<lparr>block_date_granularity := 2500\<rparr>)) 1000))
     (example_items 2)
     (block_pbf_timestamps {node, way, relation}
        (example_block_all_kinds\<lparr>block_date_granularity := 2500\<rparr>)) \<and>
   map item_timestamp (example_items 2) = [10, 10, 14, 10, 10, 0, 0, 0] \<and>
   m_date_factor (load_block example_block_all_kinds
     (PBFPrimitiveBlockParser {node, way, relation})) = 1 \<and>
   fold_err parse_group [example_group]
       (load_block example_block_all_kinds (PBFPrimitiveBlockParser {node, way, relation})) =
     Inr (example_parser\<lparr>m_buffer := map Node_item example_dense_decoded\<rparr>) \<and>
   m_date_factor (example_parser\<lparr>m_buffer := map Node_item example_dense_decoded\<rparr>) =
     cdiv (block_date_granularity example_block_all_kinds) 1000 \<and>
   parse_node example_parser example_node = Inr example_node_decoded \<and>
   node_info example_node = Some example_info \<and>
   timestamp example_node_decoded = info_timestamp example_info * m_date_factor example_parser \<and>
   parse_way example_parser example_way = Inr example_way_decoded \<and>
   way_info example_way = Some example_info \<and>
   timestamp example_way_decoded = info_timestamp example_info * m_date_factor example_parser \<and>
   parse_relation example_parser example_relation = Inr example_relation_decoded \<and>
   relation_info example_relation = Some example_info \<and>
   timestamp example_relation_decoded =
     info_timestamp example_info * m_date_factor example_parser \<and>
   parse_dense_node example_parser example_dense_with_info 1 example_cursor =
     Inr (example_cursor\<lparr>last_dense_id := 11, last_dense_latitude := 200,
            last_dense_longitude := 100, last_dense_user_sid := 2, last_dense_changeset := 10,
            last_dense_timestamp := 7\<rparr>,
          example_dense_with_info_decoded ! 1) \<and>
   dense_denseinfo example_dense_with_info = Some example_denseinfo \<and>
   timestamp (example_dense_with_info_decoded ! 1) = 7 * m_date_factor example_parser"
proof -
  let ?rt = "{node, way, relation}"
  let ?p0 = "PBFPrimitiveBlockParser ?rt"
  let ?b = "example_block_all_kinds"
  let ?b999 = "example_block_all_kinds\<lparr>block_date_granularity := 999\<rparr>"
  let ?b2500 = "example_block_all_kinds\<lparr>block_date_granularity := 2500\<rparr>"
  let ?c = "example_cursor\<lparr>last_dense_id := 11, last_dense_latitude := 200,
            last_dense_longitude := 100, last_dense_user_sid := 2, last_dense_changeset := 10,
            last_dense_timestamp := 7\<rparr>"
  have h1: "PBFPrimitiveBlockParser_call (Some ?b) ?p0 = Inr (Buffer (example_items 1))"
    by code_simp
  have h0: "PBFPrimitiveBlockParser_call (Some ?b999) ?p0 = Inr (Buffer (example_items 0))"
    by code_simp
  have h2: "PBFPrimitiveBlockParser_call (Some ?b2500) ?p0 = Inr (Buffer (example_items 2))"
    by code_simp
  note T = timestamp_is_pbf_timestamp_times_date_factor
    [where blk = ?b and ?p0.0 = ?p0 and p = example_parser
       and pbf_node = example_node and pbf_way = example_way
       and pbf_relation = example_relation and dense = example_dense_with_info
       and i = 1 and c = example_cursor, OF h1]
  note U = timestamp_is_pbf_timestamp_times_date_factor
    [where blk = ?b999 and ?p0.0 = ?p0 and p = example_parser
       and pbf_node = example_node and pbf_way = example_way
       and pbf_relation = example_relation and dense = example_dense_with_info
       and i = 1 and c = example_cursor, OF h0]
  note V = timestamp_is_pbf_timestamp_times_date_factor
    [where blk = ?b2500 and ?p0.0 = ?p0 and p = example_parser
       and pbf_node = example_node and pbf_way = example_way
       and pbf_relation = example_relation and dense = example_dense_with_info
       and i = 1 and c = example_cursor, OF h2]
  have g: "block_date_granularity ?b = 1000"
    by (simp add: example_block_all_kinds_def example_block_def)
  have g9: "- 1000 < block_date_granularity ?b999" "block_date_granularity ?b999 < 1000"
    by simp_all
  have ts: "block_pbf_timestamps ?rt ?b =
      [Some 5, Some 5, Some 7, Some 5, Some 5, None, None, None]"
    by code_simp
  have m1: "map item_timestamp (example_items 1) = [5, 5, 7, 5, 5, 0, 0, 0]"
    by code_simp
  have m0: "map item_timestamp (example_items 0) = [0, 0, 0, 0, 0, 0, 0, 0]"
    by code_simp
  have m2: "map item_timestamp (example_items 2) = [10, 10, 14, 10, 10, 0, 0, 0]"
    by code_simp
  from T [THEN conjunct1] obtain items1 where
    t1: "Buffer (example_items 1) = Buffer items1"
      "list_all2 (timestamp_rule (cdiv (block_date_granularity ?b) 1000)) items1
         (block_pbf_timestamps ?rt ?b)"
      "block_date_granularity ?b = 1000 \<longrightarrow>
         map item_timestamp items1 =
           map (\<lambda>t. case t of None \<Rightarrow> 0 | Some pbf_timestamp \<Rightarrow> pbf_timestamp)
             (block_pbf_timestamps ?rt ?b)"
    by (elim exE conjE)
  have i1: "items1 = example_items 1" using t1(1) by simp
  have a1: "list_all2 (timestamp_rule (cdiv (block_date_granularity ?b) 1000))
      (example_items 1) (block_pbf_timestamps ?rt ?b)"
    using t1(2) unfolding i1 .
  have a2: "map item_timestamp (example_items 1) =
      map (\<lambda>t. case t of None \<Rightarrow> 0 | Some pbf_timestamp \<Rightarrow> pbf_timestamp)
        (block_pbf_timestamps ?rt ?b)"
    using t1(3) g unfolding i1 by (rule mp)
  from U [THEN conjunct1] obtain items0 where
    t0: "Buffer (example_items 0) = Buffer items0"
      "- 1000 < block_date_granularity ?b999 \<and> block_date_granularity ?b999 < 1000 \<longrightarrow>
         (\<forall>it \<in> set items0. item_timestamp it = 0)"
    by (elim exE conjE)
  have i0: "items0 = example_items 0" using t0(1) by simp
  have "\<forall>it \<in> set (example_items 0). item_timestamp it = 0"
    using t0(2) conjI [OF g9] unfolding i0 by (rule mp)
  then have a0: "list_all (\<lambda>it. item_timestamp it = 0) (example_items 0)"
    by (simp only: list_all_iff)
  from V [THEN conjunct1] obtain items2 where
    t2: "Buffer (example_items 2) = Buffer items2"
      "list_all2 (timestamp_rule (cdiv (block_date_granularity ?b2500) 1000)) items2
         (block_pbf_timestamps ?rt ?b2500)"
    by (elim exE conjE)
  have i2: "items2 = example_items 2" using t2(1) by simp
  have a3: "list_all2 (timestamp_rule (cdiv (block_date_granularity ?b2500) 1000))
      (example_items 2) (block_pbf_timestamps ?rt ?b2500)"
    using t2(2) unfolding i2 .
  note T' = T [THEN conjunct2]
  note U' = U [THEN conjunct2]
  have f: "fold_err parse_group [example_group] (load_block ?b ?p0) =
     Inr (example_parser\<lparr>m_buffer := map Node_item example_dense_decoded\<rparr>)"
    by code_simp
  have n: "parse_node example_parser example_node = Inr example_node_decoded"
    by code_simp
  have w: "parse_way example_parser example_way = Inr example_way_decoded"
    by code_simp
  have r: "parse_relation example_parser example_relation = Inr example_relation_decoded"
    by code_simp
  have d: "parse_dense_node example_parser example_dense_with_info 1 example_cursor =
     Inr (?c, example_dense_with_info_decoded ! 1)"
    by code_simp
  have ni: "node_info example_node = Some example_info"
    by (simp add: example_node_def)
  have wi: "way_info example_way = Some example_info"
    by (simp add: example_way_def)
  have ri: "relation_info example_relation = Some example_info"
    by (simp add: example_relation_def)
  have di: "dense_denseinfo example_dense_with_info = Some example_denseinfo"
    by (simp add: example_dense_with_info_def)
  have c1: "m_date_factor (load_block ?b ?p0) = 1"
    using T' g by blast
  have c2: "m_date_factor (load_block ?b999 ?p0) = 0"
    using U' g9 by blast
  have c3: "m_date_factor (example_parser\<lparr>m_buffer := map Node_item example_dense_decoded\<rparr>) =
     cdiv (block_date_granularity ?b) 1000"
    using T' f by blast
  have c4: "timestamp example_node_decoded =
      info_timestamp example_info * m_date_factor example_parser"
    using T' n ni by blast
  have c5: "timestamp example_way_decoded =
      info_timestamp example_info * m_date_factor example_parser"
    using T' w wi by blast
  have c6: "timestamp example_relation_decoded =
      info_timestamp example_info * m_date_factor example_parser"
    using T' r ri by blast
  have "timestamp (example_dense_with_info_decoded ! 1) =
      last_dense_timestamp ?c * m_date_factor example_parser"
    using T' d di by blast
  then have c7: "timestamp (example_dense_with_info_decoded ! 1) =
      7 * m_date_factor example_parser"
    by simp
  show ?thesis
    by (intro conjI h1 g ts a1 a2 m1 h0 g9 a0 m0 c2 h2 a3 m2 c1 f c3 n ni c4 w wi c5 r ri c6
        d di c7)
qed

section \<open>Properties of the blob and header parsers\<close>

subsection \<open>Blob payloads\<close>

text \<open>
  Claim C7. \<^verbatim>\<open>BlobParser::operator()\<close> looks at the payload in the order raw, zlib, lzma.
  Raw bytes are passed unchanged to \<^verbatim>\<open>handle_blob\<close>. Without raw bytes, \<^verbatim>\<open>zlib_data\<close> is
  inflated, and \<^verbatim>\<open>handle_blob\<close> gets the result if \<^verbatim>\<open>uncompress\<close> succeeds with exactly
  \<^verbatim>\<open>raw_size\<close> bytes (and the assertion on \<^verbatim>\<open>raw_size\<close> holds or is compiled out); a zlib
  failure or another size is an error. Without both, \<^verbatim>\<open>lzma_data\<close> is the error "lzma
  blobs not implemented", and a blob with none of the three is the error "Blob contains
  no data". In each failure the result is the error whatever \<^verbatim>\<open>handle_blob\<close> is: it is
  not called, so no buffer is built or pushed for the blob.
\<close>

theorem blob_payload_dispatch:
  "(blob_raw b = Some raw \<longrightarrow>
      BlobParser_call ndebug uncompress handle_blob (Some b) = handle_blob raw) \<and>
   (blob_raw b = None \<and> blob_zlib_data b = Some z \<and>
    uncompress (nat (blob_raw_size b)) z = Some unpacked \<and>
    int (length unpacked) = blob_raw_size b \<and>
    (ndebug \<or> blob_raw_size b \<le> max_uncompressed_blob_size) \<longrightarrow>
      BlobParser_call ndebug uncompress handle_blob (Some b) = handle_blob unpacked) \<and>
   (blob_raw b = None \<and> blob_zlib_data b = Some z \<and>
    (uncompress (nat (blob_raw_size b)) z = None \<or>
     (\<exists>u. uncompress (nat (blob_raw_size b)) z = Some u \<and>
          int (length u) \<noteq> blob_raw_size b)) \<longrightarrow>
      BlobParser_call ndebug uncompress handle_blob (Some b) \<in>
        {Inl (runtime_error ''zlib error''), Inl AssertionFailed, Inl bad_alloc}) \<and>
   (blob_raw b = None \<and> blob_zlib_data b = None \<and> blob_lzma_data b = Some l \<longrightarrow>
      BlobParser_call ndebug uncompress handle_blob (Some b) =
        Inl (runtime_error ''lzma blobs not implemented'')) \<and>
   (blob_raw b = None \<and> blob_zlib_data b = None \<and> blob_lzma_data b = None \<longrightarrow>
      BlobParser_call ndebug uncompress handle_blob (Some b) =
        Inl (runtime_error ''Blob contains no data''))"
  by (auto simp: BlobParser_call_def Let_def split: option.splits)

theorem blob_payload_dispatch_witness:
  "blob_raw example_raw_blob = Some ''abc'' \<and>
   BlobParser_call False example_uncompress Inr (Some example_raw_blob) = Inr ''abc'' \<and>
   blob_raw example_zlib_blob = None \<and> blob_zlib_data example_zlib_blob = Some ''xy'' \<and>
   example_uncompress (nat (blob_raw_size example_zlib_blob)) ''xy'' = Some ''abc'' \<and>
   int (length ''abc'') = blob_raw_size example_zlib_blob \<and>
   blob_raw_size example_zlib_blob \<le> max_uncompressed_blob_size \<and>
   BlobParser_call False example_uncompress Inr (Some example_zlib_blob) = Inr ''abc'' \<and>
   example_uncompress (nat (blob_raw_size (example_zlib_blob\<lparr>blob_raw_size := 2\<rparr>))) ''xy'' = None \<and>
   BlobParser_call False example_uncompress (Inr :: bytes \<Rightarrow> pbf_error + bytes)
       (Some (example_zlib_blob\<lparr>blob_raw_size := 2\<rparr>)) \<in>
     {Inl (runtime_error ''zlib error''), Inl AssertionFailed, Inl bad_alloc} \<and>
   blob_zlib_data example_lzma_blob = None \<and> blob_lzma_data example_lzma_blob = Some ''xy'' \<and>
   BlobParser_call False example_uncompress (Inr :: bytes \<Rightarrow> pbf_error + bytes)
       (Some example_lzma_blob) = Inl (runtime_error ''lzma blobs not implemented'') \<and>
   blob_lzma_data example_empty_blob = None \<and>
   BlobParser_call False example_uncompress (Inr :: bytes \<Rightarrow> pbf_error + bytes)
       (Some example_empty_blob) = Inl (runtime_error ''Blob contains no data'')"
proof -
  let ?h = "Inr :: bytes \<Rightarrow> pbf_error + bytes"
  let ?z2 = "example_zlib_blob\<lparr>blob_raw_size := 2\<rparr>"
  note T = blob_payload_dispatch [where ndebug = False and uncompress = example_uncompress
      and handle_blob = ?h]
  have r: "blob_raw example_raw_blob = Some ''abc''"
    by (simp add: example_raw_blob_def)
  have z: "blob_raw example_zlib_blob = None" "blob_zlib_data example_zlib_blob = Some ''xy''"
    "example_uncompress (nat (blob_raw_size example_zlib_blob)) ''xy'' = Some ''abc''"
    "int (length ''abc'') = blob_raw_size example_zlib_blob"
    "blob_raw_size example_zlib_blob \<le> max_uncompressed_blob_size"
    by (simp_all add: example_zlib_blob_def example_uncompress_def max_uncompressed_blob_size_def)
  have z2: "blob_raw ?z2 = None" "blob_zlib_data ?z2 = Some ''xy''"
    "example_uncompress (nat (blob_raw_size ?z2)) ''xy'' = None"
    by (simp_all add: example_zlib_blob_def example_uncompress_def)
  have l: "blob_raw example_lzma_blob = None" "blob_zlib_data example_lzma_blob = None"
    "blob_lzma_data example_lzma_blob = Some ''xy''"
    by (simp_all add: example_lzma_blob_def)
  have e: "blob_raw example_empty_blob = None" "blob_zlib_data example_empty_blob = None"
    "blob_lzma_data example_empty_blob = None"
    by (simp_all add: example_empty_blob_def)
  have c1: "BlobParser_call False example_uncompress ?h (Some example_raw_blob) = Inr ''abc''"
    using T [where b = example_raw_blob and raw = "''abc''"] r by blast
  have c2: "BlobParser_call False example_uncompress ?h (Some example_zlib_blob) = Inr ''abc''"
    using T [where b = example_zlib_blob and z = "''xy''" and unpacked = "''abc''"] z by blast
  have c3: "BlobParser_call False example_uncompress ?h (Some ?z2) \<in>
     {Inl (runtime_error ''zlib error''), Inl AssertionFailed, Inl bad_alloc}"
    using T [where b = ?z2 and z = "''xy''"] z2 by blast
  have c4: "BlobParser_call False example_uncompress ?h (Some example_lzma_blob) =
     Inl (runtime_error ''lzma blobs not implemented'')"
    using T [where b = example_lzma_blob and l = "''xy''"] l by blast
  have c5: "BlobParser_call False example_uncompress ?h (Some example_empty_blob) =
     Inl (runtime_error ''Blob contains no data'')"
    using T [where b = example_empty_blob] e by blast
  show ?thesis
    by (intro conjI r z z2(3) l(2,3) e(3) c1 c2 c3 c4 c5)
qed


subsection \<open>Required features\<close>

lemma fold_err_required_feature_ok:
  assumes "set fs \<subseteq> supported_features"
  shows "\<exists>h'. fold_err required_feature fs h = Inr h' \<and>
           m_pbf_has_dense_nodes h' = (m_pbf_has_dense_nodes h \<or> ''DenseNodes'' \<in> set fs) \<and>
           m_has_multiple_object_versions h' =
             (m_has_multiple_object_versions h \<or> ''HistoricalInformation'' \<in> set fs) \<and>
           m_generator h' = m_generator h \<and> m_bounds h' = m_bounds h"
  using assms
proof (induction fs arbitrary: h)
  case Nil
  then show ?case by simp
next
  case (Cons f fs)
  then have f: "f = ''OsmSchema-V0.6'' \<or> f = ''DenseNodes'' \<or> f = ''HistoricalInformation''"
    and fs: "set fs \<subseteq> supported_features"
    by (auto simp: supported_features_def)
  from f consider (a) "f = ''OsmSchema-V0.6''" | (b) "f = ''DenseNodes''"
    | (c) "f = ''HistoricalInformation''" by blast
  then show ?case
  proof cases
    case a
    with Cons.IH [OF fs, of h] show ?thesis by (auto simp: required_feature_def)
  next
    case b
    with Cons.IH [OF fs, of "h\<lparr>m_pbf_has_dense_nodes := True\<rparr>"] show ?thesis
      by (auto simp: required_feature_def)
  next
    case c
    with Cons.IH [OF fs, of "h\<lparr>m_has_multiple_object_versions := True\<rparr>"] show ?thesis
      by (auto simp: required_feature_def)
  qed
qed

lemma fold_err_required_feature_bad:
  assumes "\<not> set fs \<subseteq> supported_features"
  shows "\<exists>f \<in> set fs. f \<notin> supported_features \<and>
           fold_err required_feature fs h =
             Inl (runtime_error (''Required feature not supported: '' @ f))"
  using assms
proof (induction fs arbitrary: h)
  case Nil
  then show ?case by simp
next
  case (Cons f fs)
  show ?case
  proof (cases "f \<in> supported_features")
    case False
    then have "required_feature f h =
        Inl (runtime_error (''Required feature not supported: '' @ f))"
      by (simp add: required_feature_def supported_features_def)
    then show ?thesis using False by auto
  next
    case True
    then obtain h1 where h1: "required_feature f h = Inr h1"
      by (auto simp: required_feature_def supported_features_def)
    from True Cons.prems have "\<not> set fs \<subseteq> supported_features" by auto
    from Cons.IH [OF this, of h1] h1 show ?thesis by auto
  qed
qed


text \<open>
  Claim C8. \<^verbatim>\<open>HeaderBlobParser::handle_blob\<close> accepts a header block exactly if each of its
  required features is "OsmSchema-V0.6", "DenseNodes" or "HistoricalInformation". Then
  the flag \<^verbatim>\<open>pbf_has_dense_nodes\<close> is set if "DenseNodes" occurs, the flag
  \<^verbatim>\<open>has_multiple_object_versions\<close> is set if "HistoricalInformation" occurs, and
  "OsmSchema-V0.6" changes nothing. Any other required feature ends the function with
  the error "Required feature not supported", and no header is returned.
\<close>

theorem required_features_check:
  "(set (required_features hb) \<subseteq> supported_features \<longrightarrow>
      (\<exists>h'. HeaderBlobParser_handle_blob (Some hb) h = Inr h' \<and>
            m_pbf_has_dense_nodes h' =
              (m_pbf_has_dense_nodes h \<or> ''DenseNodes'' \<in> set (required_features hb)) \<and>
            m_has_multiple_object_versions h' =
              (m_has_multiple_object_versions h \<or>
               ''HistoricalInformation'' \<in> set (required_features hb)))) \<and>
   (\<not> set (required_features hb) \<subseteq> supported_features \<longrightarrow>
      (\<exists>f \<in> set (required_features hb). f \<notin> supported_features \<and>
         HeaderBlobParser_handle_blob (Some hb) h =
           Inl (runtime_error (''Required feature not supported: '' @ f)))) \<and>
   supported_features = {''OsmSchema-V0.6'', ''DenseNodes'', ''HistoricalInformation''} \<and>
   required_feature ''OsmSchema-V0.6'' h = Inr h \<and>
   required_feature ''DenseNodes'' h = Inr (h\<lparr>m_pbf_has_dense_nodes := True\<rparr>) \<and>
   required_feature ''HistoricalInformation'' h =
     Inr (h\<lparr>m_has_multiple_object_versions := True\<rparr>)"
proof (intro conjI impI)
  assume ok: "set (required_features hb) \<subseteq> supported_features"
  from fold_err_required_feature_ok [OF ok, of h] obtain h1 where
    h1: "fold_err required_feature (required_features hb) h = Inr h1"
      "m_pbf_has_dense_nodes h1 =
         (m_pbf_has_dense_nodes h \<or> ''DenseNodes'' \<in> set (required_features hb))"
      "m_has_multiple_object_versions h1 =
         (m_has_multiple_object_versions h \<or>
          ''HistoricalInformation'' \<in> set (required_features hb))"
    by blast
  then show "\<exists>h'. HeaderBlobParser_handle_blob (Some hb) h = Inr h' \<and>
            m_pbf_has_dense_nodes h' =
              (m_pbf_has_dense_nodes h \<or> ''DenseNodes'' \<in> set (required_features hb)) \<and>
            m_has_multiple_object_versions h' =
              (m_has_multiple_object_versions h \<or>
               ''HistoricalInformation'' \<in> set (required_features hb))"
    by (simp add: HeaderBlobParser_handle_blob_def err_bind_def Let_def split: option.splits)
next
  assume bad: "\<not> set (required_features hb) \<subseteq> supported_features"
  from fold_err_required_feature_bad [OF bad, of h]
  show "\<exists>f \<in> set (required_features hb). f \<notin> supported_features \<and>
         HeaderBlobParser_handle_blob (Some hb) h =
           Inl (runtime_error (''Required feature not supported: '' @ f))"
    by (auto simp: HeaderBlobParser_handle_blob_def err_bind_def)
qed (simp_all add: supported_features_def required_feature_def)


theorem required_features_check_witness:
  "set (required_features example_header_block) \<subseteq> supported_features \<and>
   HeaderBlobParser_handle_blob (Some example_header_block) Header_default =
     Inr \<lparr>m_has_multiple_object_versions = True, m_pbf_has_dense_nodes = True,
          m_generator = ''test'', m_bounds = []\<rparr> \<and>
   \<not> set (required_features example_header_block_unsupported) \<subseteq> supported_features \<and>
   HeaderBlobParser_handle_blob (Some example_header_block_unsupported) Header_default =
     Inl (runtime_error ''Required feature not supported: Sort.Type_then_ID'')"
proof -
  have s: "set (required_features example_header_block) \<subseteq> supported_features"
    by (simp add: example_header_block_def supported_features_def)
  have u: "\<not> set (required_features example_header_block_unsupported) \<subseteq> supported_features"
    by (simp add: example_header_block_unsupported_def supported_features_def)
  have r1: "HeaderBlobParser_handle_blob (Some example_header_block) Header_default =
     Inr \<lparr>m_has_multiple_object_versions = True, m_pbf_has_dense_nodes = True,
          m_generator = ''test'', m_bounds = []\<rparr>"
    by code_simp
  from required_features_check [of example_header_block_unsupported Header_default] u
  obtain f where f: "f \<in> set (required_features example_header_block_unsupported)"
    "f \<notin> supported_features"
    "HeaderBlobParser_handle_blob (Some example_header_block_unsupported) Header_default =
       Inl (runtime_error (''Required feature not supported: '' @ f))"
    by blast
  from f(1,2) have "f = ''Sort.Type_then_ID''"
    by (simp add: example_header_block_unsupported_def supported_features_def)
  with f(3) have r2: "HeaderBlobParser_handle_blob (Some example_header_block_unsupported)
      Header_default = Inl (runtime_error ''Required feature not supported: Sort.Type_then_ID'')"
    by simp
  show ?thesis by (intro conjI s u r1 r2)
qed

section \<open>Properties of PBFInput\<close>

text \<open>Running the examples.\<close>

lemma read_blob_header_H:
  "read_blob_header example_decoders ''OSMHeader''
     (CHR 0x00 # CHR 0x00 # CHR 0x00 # CHR 0x01 # CHR ''H'' # rest) = Inr (Suc 0, rest)"
  by (simp add: read_blob_header_def reliable_read_def ntohl_def
      max_blob_header_size_def example_decoders_def c_str_def)

lemma read_blob_header_D:
  "read_blob_header example_decoders ''OSMData''
     (CHR 0x00 # CHR 0x00 # CHR 0x00 # CHR 0x01 # CHR ''D'' # rest) = Inr (Suc 0, rest)"
  by (simp add: read_blob_header_def reliable_read_def ntohl_def
      max_blob_header_size_def example_decoders_def c_str_def)

lemma read_blob_header_eof:
  "read_blob_header example_decoders ''OSMData'' [] = Inr (0, [])"
  by (simp add: read_blob_header_def reliable_read_def)

lemma BlobParser_1: "BlobParser (Suc 0) (c # rest) = Inr ([c], rest)"
  by (simp add: BlobParser_def to_int32_def max_uncompressed_blob_size_def reliable_read_def)

lemma header_call:
  "HeaderBlobParser_call example_decoders ''h'' Header_default = Inr example_header"
  by (simp add: HeaderBlobParser_call_def BlobParser_call_def example_decoders_def
      HeaderBlobParser_handle_blob_def example_header_block_def required_feature_def
      Header_default_def example_header_def)

lemma read_header_only:
  "read example_decoders {node} (PBFInput example_header_only 2) =
     Inr (example_header, header_only_state)"
  by (simp add: read_def PBFInput_def example_header_only_def read_blob_header_H BlobParser_1
      header_call header_only_state_def frame_def)

lemma header_only_consumer_first:
  "pbf_run example_decoders {node} [consumer_thread, reader_thread] header_only_state =
     Some header_only_deadlock"
  by (simp add: pbf_step_def consumer_step_def reader_step_def header_only_state_def
      header_only_deadlock_def read_blob_header_eof)

lemma header_only_deadlock_stuck:
  "pbf_step example_decoders {node} t header_only_deadlock = None"
  by (cases t)
    (simp_all add: pbf_step_def reader_step_def worker_step_def consumer_step_def
      header_only_state_def header_only_deadlock_def wait_and_pop_def empty_intern_def
      SortedQueue_def)

lemma header_only_reader_first:
  "pbf_run example_decoders {node} [reader_thread, consumer_thread] header_only_state =
     Some (header_only_state\<lparr>m_done := True, reader := reader_returned,
       handed_out := [Buffer_invalid]\<rparr>)"
  by (simp add: pbf_step_def consumer_step_def reader_step_def header_only_state_def
      read_blob_header_eof)

lemma read_example_file:
  "read example_decoders {node} (PBFInput example_file 2) =
     Inr (example_header, example_file_state)"
  by (simp add: read_def PBFInput_def example_file_def read_blob_header_H BlobParser_1
      header_call header_only_state_def example_file_state_def frame_def)

lemma call_A:
  "PBFPrimitiveBlockParser_call (Some example_block) (PBFPrimitiveBlockParser {node}) =
     Inr (Buffer (map Node_item example_dense_decoded))"
  by code_simp

lemma call_B:
  "PBFPrimitiveBlockParser_call (Some example_block_with_info) (PBFPrimitiveBlockParser {node}) =
     Inr (Buffer (Node_item example_node_decoded # map Node_item example_dense_with_info_decoded))"
  by code_simp

lemma data_A:
  "DataBlobParser_call example_decoders {node} n ''A'' q =
     (case push Buffer_invalid (Buffer (map Node_item example_dense_decoded)) n q of
        Inl e \<Rightarrow> Inl (DequeMisuse e) | Inr q' \<Rightarrow> Inr q')"
  by (simp add: DataBlobParser_call_def BlobParser_call_def example_decoders_def
      DataBlobParser_handle_blob_def call_A)

lemma data_B:
  "DataBlobParser_call example_decoders {node} n ''B'' q =
     (case push Buffer_invalid
             (Buffer (Node_item example_node_decoded # map Node_item example_dense_with_info_decoded))
             n q of
        Inl e \<Rightarrow> Inl (DequeMisuse e) | Inr q' \<Rightarrow> Inr q')"
  by (simp add: DataBlobParser_call_def BlobParser_call_def example_decoders_def
      DataBlobParser_handle_blob_def call_B)

lemmas pbf_eval = pbf_step_def consumer_step_def reader_step_def worker_step_def
  header_only_state_def example_file_state_def read_blob_header_eof read_blob_header_D
  BlobParser_1 data_A data_B m_max_work_queue_size_def m_max_buffer_queue_size_def
  frame_def

lemma example_file_in_order:
  "map_option handed_out
     (pbf_run example_decoders {node}
        [reader_thread, reader_thread, reader_thread, reader_thread, reader_thread,
         reader_thread, reader_thread, worker_thread 1, worker_thread 0,
         consumer_thread, consumer_thread, consumer_thread, consumer_thread, consumer_thread]
        example_file_state) =
   Some [Buffer (map Node_item example_dense_decoded),
         Buffer (Node_item example_node_decoded # map Node_item example_dense_with_info_decoded),
         Buffer_invalid]"
  by (simp add: pbf_eval sq_eval)

lemma example_file_race:
  "pbf_run example_decoders {node}
     [reader_thread, worker_thread 0, reader_thread, reader_thread, reader_thread,
      worker_thread 0, consumer_thread, consumer_thread, consumer_thread, consumer_thread,
      consumer_thread, reader_thread, reader_thread, reader_thread]
     example_file_state = Some example_file_deadlock"
  by (simp add: pbf_eval sq_eval example_file_deadlock_def)

lemma example_file_deadlock_stuck:
  "pbf_step example_decoders {node} t example_file_deadlock = None"
  by (cases t)
    (simp_all add: pbf_step_def reader_step_def worker_step_def consumer_step_def
      header_only_state_def example_file_deadlock_def wait_and_pop_def empty_intern_def)

text \<open>
  Claim C2 asks that \<^verbatim>\<open>next_buffer\<close> returns an empty buffer once the N buffers of the file
  have been handed out. The code at the failing input, a file of one OSMHeader blob and
  no OSMData blob (N = 0): \<^verbatim>\<open>read\<close> returns the header and starts the reader thread; the
  caller's \<^verbatim>\<open>next_buffer\<close> tests \<^verbatim>\<open>m_done\<close> before the reader thread has set it and enters
  \<^verbatim>\<open>wait_and_pop\<close>; the reader thread finds the end of the file, sets \<^verbatim>\<open>m_done\<close> and ends.
  In the state reached no thread can move: nothing is ever pushed, and \<^verbatim>\<open>next_buffer\<close>
  has returned nothing and never returns.
\<close>

theorem next_buffer_never_returns_on_header_only_file:
  "read example_decoders {node} (PBFInput example_header_only 2) =
     Inr (example_header, header_only_state) \<and>
   pbf_run example_decoders {node} [consumer_thread, reader_thread] header_only_state =
     Some header_only_deadlock \<and>
   reader header_only_deadlock = reader_returned \<and>
   m_done header_only_deadlock \<and>
   consumer header_only_deadlock = consumer_in_wait_and_pop \<and>
   handed_out header_only_deadlock = [] \<and>
   (\<forall>t. pbf_step example_decoders {node} t header_only_deadlock = None)"
  using read_header_only header_only_consumer_first header_only_deadlock_stuck
  by (simp add: header_only_deadlock_def header_only_state_def)

section \<open>Properties of the writer\<close>

text \<open>
  What holds on every path: \<^verbatim>\<open>write\<close> and \<^verbatim>\<open>operator()(Buffer&&)\<close> in a status other than
  \<^verbatim>\<open>okay\<close> throw the \<^verbatim>\<open>io_error\<close> and change nothing, and no call changes the status except
  from \<^verbatim>\<open>okay\<close>, to \<^verbatim>\<open>error\<close> together with an exception or to \<^verbatim>\<open>closed\<close> in \<^verbatim>\<open>close\<close>.
\<close>

lemma write_not_okay:
  "m_status w \<noteq> status_okay \<Longrightarrow> Writer_write env buffer w = (Some (io_error not_okay_message), w)"
  by (simp add: Writer_write_def)

lemma write_status:
  assumes "Writer_write env buffer w = (r, w')"
  shows "m_status w' = m_status w \<or> (m_status w = status_okay \<and> m_status w' = status_error \<and> r \<noteq> None)"
proof (cases "m_status w = status_okay")
  case False
  then show ?thesis using assms by (simp add: Writer_write_def)
next
  case True
  show ?thesis
  proof (cases r)
    case None
    then show ?thesis using assms True
      by (auto simp: Writer_write_def Let_def split: if_splits option.splits sum.splits)
  next
    case (Some e)
    then show ?thesis using assms True
      by (auto simp: Writer_write_def Let_def split: if_splits option.splits sum.splits)
  qed
qed

lemma flush_status:
  assumes "flush env w = (r, w')"
  shows "m_status w' = m_status w \<or> (m_status w = status_okay \<and> m_status w' = status_error \<and> r \<noteq> None)"
  using assms write_status [of env _ "w\<lparr>m_wbuffer := Some (new_wbuffer (m_buffer_size w))\<rparr>" r w']
  by (auto simp: flush_def split: option.splits if_splits)

lemma flush_not_okay: "m_status w \<noteq> status_okay \<Longrightarrow> flush env w = (None, w)"
  by (simp add: flush_def split: option.splits)

lemma Writer_call_buffer_not_okay:
  "m_status w \<noteq> status_okay \<Longrightarrow>
   Writer_call_buffer env buffer w = (Some (io_error not_okay_message), w)"
  by (simp add: Writer_call_buffer_def flush_not_okay write_not_okay)

lemma Writer_call_buffer_status:
  assumes "Writer_call_buffer env buffer w = (r, w')"
  shows "m_status w' = m_status w \<or> (m_status w = status_okay \<and> m_status w' = status_error \<and> r \<noteq> None)"
proof -
  obtain r1 w1 where f: "flush env w = (r1, w1)" by (cases "flush env w")
  note F = flush_status [OF f]
  show ?thesis
  proof (cases r1)
    case (Some e)
    then show ?thesis using assms f F by (simp add: Writer_call_buffer_def)
  next
    case None
    then have "Writer_write env buffer w1 = (r, w')" using assms f by (simp add: Writer_call_buffer_def)
    from write_status [OF this] F None show ?thesis by auto
  qed
qed

lemma Writer_call_item_status:
  assumes "Writer_call_item env item w = (r, w')"
  shows "m_status w' = m_status w \<or> (m_status w = status_okay \<and> m_status w' = status_error \<and> r \<noteq> None)"
proof -
  define b0 where "b0 = (case m_wbuffer w of None \<Rightarrow> new_wbuffer (m_buffer_size w) | Some b \<Rightarrow> b)"
  define w0 where "w0 = w\<lparr>m_wbuffer := Some b0\<rparr>"
  have s0: "m_status w0 = m_status w" by (simp add: w0_def)
  obtain r1 w1 where f: "flush env w0 = (r1, w1)" by (cases "flush env w0")
  note F = flush_status [OF f]
  show ?thesis
    using assms F s0 f
    unfolding Writer_call_item_def Let_def b0_def [symmetric] w0_def [symmetric]
    by (auto split: sum.splits if_splits option.splits prod.splits)
qed

lemma close_status:
  assumes "close env w = (r, w')"
  shows "m_status w' = m_status w \<or>
         (m_status w = status_okay \<and> m_status w' = status_error \<and> r \<noteq> None) \<or>
         (m_status w = status_okay \<and> m_status w' = status_closed)"
proof (cases "m_status w = status_okay")
  case False
  then show ?thesis using assms by (auto simp: close_def)
next
  case True
  obtain r1 w1 where i: "(case m_wbuffer w of
        Some b \<Rightarrow> if committed env b > 0 then Writer_write env b w else (None, w)
      | None \<Rightarrow> (None, w)) = (r1, w1)"
    by (cases "(case m_wbuffer w of
        Some b \<Rightarrow> if committed env b > 0 then Writer_write env b w else (None, w)
      | None \<Rightarrow> (None, w))")
  have I: "m_status w1 = m_status w \<or>
      (m_status w = status_okay \<and> m_status w1 = status_error \<and> r1 \<noteq> None)"
    using i write_status [of env _ w r1 w1]
    by (auto split: option.splits if_splits)
  show ?thesis
    using assms True I unfolding close_def i Let_def
    by (auto split: option.splits)
qed

lemma writer_step_status:
  assumes "writer_step env c w = (r, w')" and "m_status w' \<noteq> m_status w"
  shows "m_status w = status_okay \<and>
         (m_status w' = status_error \<and> r \<noteq> None \<or> m_status w' = status_closed \<and> c = call_close)"
proof (cases c)
  case (call_buffer b)
  then show ?thesis using assms Writer_call_buffer_status [of env b w r w']
    by (auto simp: writer_step_def)
next
  case (call_item i)
  then show ?thesis using assms Writer_call_item_status [of env i w r w']
    by (auto simp: writer_step_def)
next
  case call_flush
  then show ?thesis using assms flush_status [of env w r w']
    by (auto simp: writer_step_def)
next
  case call_close
  then show ?thesis using assms close_status [of env w r w']
    by (auto simp: writer_step_def)
next
  case (call_set_buffer_size n)
  then show ?thesis using assms by (auto simp: writer_step_def set_buffer_size_def)
qed


text \<open>
  Claim C9 asks that every write attempted in status \<^verbatim>\<open>closed\<close> or \<^verbatim>\<open>error\<close> is rejected with
  an error. The code at the failing input: a writer is constructed and closed, and then
  \<^verbatim>\<open>operator()(const Item&)\<close> is called on it. No exception leaves the call; the item is put
  into a new internal buffer that is never written. The same writer rejects
  \<^verbatim>\<open>operator()(Buffer&&)\<close> with the \<^verbatim>\<open>io_error\<close>.
\<close>

theorem item_written_after_close_is_not_rejected:
  "Writer_new example_env =
     Inr (example_closed_writer\<lparr>m_status := status_okay, write_end_calls := 0,
            queue_events := []\<rparr>) \<and>
   close example_env
       (example_closed_writer\<lparr>m_status := status_okay, write_end_calls := 0,
          queue_events := []\<rparr>) =
     (None, example_closed_writer) \<and>
   m_status example_closed_writer = status_closed \<and>
   Writer_call_item example_env 5 example_closed_writer =
     (None, example_closed_writer\<lparr>m_wbuffer :=
        Some \<lparr>wb_capacity = default_buffer_size, wb_items = [5]\<rparr>\<rparr>) \<and>
   Writer_call_buffer example_env \<lparr>wb_capacity = 8, wb_items = [5]\<rparr> example_closed_writer =
     (Some (io_error not_okay_message), example_closed_writer)"
  by (simp add: Writer_new_def close_def Writer_call_item_def Writer_call_buffer_def flush_def
      Writer_write_def example_env_def example_closed_writer_def push_back_def committed_def
      new_wbuffer_def default_buffer_size_def)

end
